(* ===== verification/Prelude.thy ===== *)
theory Prelude
  imports Main
begin

text \<open>
  Shared vocabulary of the development.

  Python coroutines that run inside an SQLAlchemy session are modelled as computations that thread
  a state and may raise: \<open>('s, 'e, 'a) op\<close> maps a state to an outcome (\<open>Inl\<close> an exception,
  \<open>Inr\<close> a result) and the state left behind.  The state survives an exception, as it does in
  Python; it is the transaction block (theory \<open>Schema\<close>) that rolls it back.

  Tables are lists of row records in heap order.  \<open>row_at\<close>, \<open>row_set\<close> and \<open>claim_row\<close>
  are the three access patterns the sources use: a look-up by key, an update of an ORM object, and
  PostgreSQL's \<open>INSERT ... ON CONFLICT DO NOTHING\<close>.

  \<open>wp\<close> is the weakest precondition of a computation, with one equation per combinator in
  the collection \<open>wp_simps\<close>, so that the simplifier executes an operation symbolically.
\<close>

named_theorems wp_simps \<open>equations that execute a computation symbolically\<close>
named_theorems row_simps \<open>facts about look-ups, updates and claims of table rows\<close>

section \<open>Computations with state and exceptions\<close>

type_synonym ('s, 'e, 'a) op = "'s \<Rightarrow> ('e + 'a) \<times> 's"

definition ret :: "'a \<Rightarrow> ('s, 'e, 'a) op" where
  "ret a = (\<lambda>s. (Inr a, s))"

definition raise :: "'e \<Rightarrow> ('s, 'e, 'a) op" where
  "raise e = (\<lambda>s. (Inl e, s))"

definition bind_op :: "('s, 'e, 'a) op \<Rightarrow> ('a \<Rightarrow> ('s, 'e, 'b) op) \<Rightarrow> ('s, 'e, 'b) op" where
  "bind_op m f = (\<lambda>s. case m s of (Inl e, s') \<Rightarrow> (Inl e, s') | (Inr a, s') \<Rightarrow> f a s')"

text \<open>\<open>try: m except exc: h exc\<close>.\<close>

definition catch_op :: "('s, 'e, 'a) op \<Rightarrow> ('e \<Rightarrow> ('s, 'e, 'a) op) \<Rightarrow> ('s, 'e, 'a) op" where
  "catch_op m h = (\<lambda>s. case m s of (Inl e, s') \<Rightarrow> h e s' | (Inr a, s') \<Rightarrow> (Inr a, s'))"

definition gets_op :: "('s \<Rightarrow> 'a) \<Rightarrow> ('s, 'e, 'a) op" where
  "gets_op f = (\<lambda>s. (Inr (f s), s))"

definition modify_op :: "('s \<Rightarrow> 's) \<Rightarrow> ('s, 'e, unit) op" where
  "modify_op f = (\<lambda>s. (Inr (), f s))"

definition lift_sum :: "'e + 'a \<Rightarrow> ('s, 'e, 'a) op" where
  "lift_sum r = (\<lambda>s. (r, s))"

text \<open>\<open>if bad: raise e\<close>.\<close>

definition raise_if :: "bool \<Rightarrow> 'e \<Rightarrow> ('s, 'e, unit) op" where
  "raise_if bad e = (\<lambda>s. (if bad then Inl e else Inr (), s))"

text \<open>The same for computations that only return or raise.\<close>

definition bind_sum :: "'e + 'a \<Rightarrow> ('a \<Rightarrow> 'e + 'b) \<Rightarrow> 'e + 'b" where
  "bind_sum r f = (case r of Inl e \<Rightarrow> Inl e | Inr a \<Rightarrow> f a)"

lemma bind_sum_Inl [simp]: "bind_sum (Inl e) f = Inl e"
  by (simp add: bind_sum_def)

lemma bind_sum_Inr [simp]: "bind_sum (Inr a) f = f a"
  by (simp add: bind_sum_def)

lemma bind_sum_eq_Inr: "bind_sum r f = Inr b \<longleftrightarrow> (\<exists>a. r = Inr a \<and> f a = Inr b)"
  by (cases r) auto

text \<open>A \<open>for\<close> loop whose body is a computation.\<close>

fun for_each :: "'b list \<Rightarrow> ('b \<Rightarrow> ('s, 'e, unit) op) \<Rightarrow> ('s, 'e, unit) op" where
  "for_each [] f = ret ()"
| "for_each (x # xs) f = bind_op (f x) (\<lambda>_. for_each xs f)"

section \<open>Weakest preconditions\<close>

definition wp :: "('s, 'e, 'a) op \<Rightarrow> ('a \<Rightarrow> 's \<Rightarrow> bool) \<Rightarrow> ('e \<Rightarrow> 's \<Rightarrow> bool) \<Rightarrow> 's \<Rightarrow> bool" where
  "wp m Q E s = (case m s of (Inl e, s') \<Rightarrow> E e s' | (Inr a, s') \<Rightarrow> Q a s')"

lemma wp_ret [wp_simps]: "wp (ret a) Q E s = Q a s"
  by (simp add: wp_def ret_def)

lemma wp_raise [wp_simps]: "wp (raise e) Q E s = E e s"
  by (simp add: wp_def raise_def)

lemma wp_bind [wp_simps]: "wp (bind_op m f) Q E s = wp m (\<lambda>a. wp (f a) Q E) E s"
  by (simp add: wp_def bind_op_def split: prod.split sum.split)

lemma wp_catch [wp_simps]: "wp (catch_op m h) Q E s = wp m Q (\<lambda>e. wp (h e) Q E) s"
  by (simp add: wp_def catch_op_def split: prod.split sum.split)

lemma wp_gets [wp_simps]: "wp (gets_op f) Q E s = Q (f s) s"
  by (simp add: wp_def gets_op_def)

lemma wp_modify [wp_simps]: "wp (modify_op f) Q E s = Q () (f s)"
  by (simp add: wp_def modify_op_def)

lemma wp_lift_sum [wp_simps]:
  "wp (lift_sum r) Q E s = (case r of Inl e \<Rightarrow> E e s | Inr a \<Rightarrow> Q a s)"
  by (simp add: wp_def lift_sum_def)

lemma wp_raise_if [wp_simps]: "wp (raise_if bad e) Q E s = (if bad then E e s else Q () s)"
  by (simp add: wp_def raise_if_def)

lemma wp_if [wp_simps]:
  "wp (if c then m else n) Q E s = (if c then wp m Q E s else wp n Q E s)"
  by simp

lemma wp_case_option [wp_simps]:
  "wp (case x of None \<Rightarrow> m | Some y \<Rightarrow> f y) Q E s =
     (case x of None \<Rightarrow> wp m Q E s | Some y \<Rightarrow> wp (f y) Q E s)"
  by (simp split: option.split)

lemma wp_case_prod [wp_simps]:
  "wp (case x of (a, b) \<Rightarrow> f a b) Q E s = (case x of (a, b) \<Rightarrow> wp (f a b) Q E s)"
  by (simp split: prod.split)

lemma wp_let [wp_simps]: "wp (let x = a in f x) Q E s = (let x = a in wp (f x) Q E s)"
  by (simp add: Let_def)

lemma wp_mono:
  "wp m Q E s \<Longrightarrow> (\<And>a s'. Q a s' \<Longrightarrow> Q' a s') \<Longrightarrow> (\<And>e s'. E e s' \<Longrightarrow> E' e s') \<Longrightarrow> wp m Q' E' s"
  by (auto simp: wp_def split: prod.splits sum.splits)

lemma wp_seq: "wp m Q (\<lambda>_ _. False) w \<Longrightarrow> (\<And>a v. Q a v \<Longrightarrow> wp (f a) R E v) \<Longrightarrow> wp (bind_op m f) R E w"
  unfolding wp_bind by (erule wp_mono) auto

lemma bind_found: "bind_op (lift_sum (Inr x)) f = f x"
  by (simp add: bind_op_def lift_sum_def fun_eq_iff)

lemma wp_result: "wp m Q E s \<Longrightarrow> m s = (Inr a, s') \<Longrightarrow> Q a s'"
  by (simp add: wp_def)

lemma wp_exception: "wp m Q E s \<Longrightarrow> m s = (Inl e, s') \<Longrightarrow> E e s'"
  by (simp add: wp_def)

lemma wp_iff_result:
  "wp m Q (\<lambda>_ _. True) s \<longleftrightarrow> (\<forall>a s'. m s = (Inr a, s') \<longrightarrow> Q a s')"
  by (auto simp: wp_def split: prod.splits sum.splits)

text \<open>A computation computes exactly what its weakest precondition says of equality.\<close>

lemma wp_eq_result: "wp m (\<lambda>a s'. a = a0 \<and> s' = s0) (\<lambda>_ _. False) s \<longleftrightarrow> m s = (Inr a0, s0)"
  by (auto simp: wp_def split: prod.splits sum.splits)

lemma wp_eq_exception: "wp m (\<lambda>_ _. False) (\<lambda>e s'. e = e0 \<and> s' = s0) s \<longleftrightarrow> m s = (Inl e0, s0)"
  by (auto simp: wp_def split: prod.splits sum.splits)

text \<open>The loop rule: a predicate the body keeps is kept by the loop.\<close>

lemma wp_for_each:
  assumes "\<And>x s. x \<in> set xs \<Longrightarrow> I s \<Longrightarrow> wp (f x) (\<lambda>_. I) E s" and "I s"
  shows "wp (for_each xs f) (\<lambda>_. I) E s"
  using assms
proof (induction xs arbitrary: s)
  case Nil
  then show ?case by (simp add: wp_simps)
next
  case (Cons x xs)
  have "wp (f x) (\<lambda>_. I) E s" using Cons.prems by simp
  then show ?case
    by (auto simp: wp_simps intro!: Cons.IH Cons.prems(1) elim!: wp_mono)
qed

section \<open>Rows of a table\<close>

text \<open>\<open>select ... where key = k\<close>, first row: SQLAlchemy's \<open>get\<close> and \<open>scalar\<close>.\<close>

definition row_at :: "('r \<Rightarrow> 'k) \<Rightarrow> 'k \<Rightarrow> 'r list \<Rightarrow> 'r option" where
  "row_at key k t = find (\<lambda>r. key r = k) t"

text \<open>The flush of changed attributes of the ORM object with primary key \<open>k\<close>.\<close>

definition row_set :: "('r \<Rightarrow> 'k) \<Rightarrow> 'k \<Rightarrow> ('r \<Rightarrow> 'r) \<Rightarrow> 'r list \<Rightarrow> 'r list" where
  "row_set key k f t = map (\<lambda>r. if key r = k then f r else r) t"

text \<open>
  \<open>INSERT ... ON CONFLICT DO NOTHING RETURNING\<close>: the row if it was inserted, \<open>None\<close> on a
  conflict, and the table.
\<close>

definition claim_row :: "('r \<Rightarrow> 'k) \<Rightarrow> 'r \<Rightarrow> 'r list \<Rightarrow> 'r option \<times> 'r list" where
  "claim_row key r t = (if key r \<in> key ` set t then (None, t) else (Some r, t @ [r]))"

lemma row_at_Nil [row_simps, simp]: "row_at key k [] = None"
  by (simp add: row_at_def)

lemma row_at_Cons [row_simps]:
  "row_at key k (r # t) = (if key r = k then Some r else row_at key k t)"
  by (simp add: row_at_def)

lemma row_at_append [row_simps]:
  "row_at key k (t @ u) = (case row_at key k t of Some r \<Rightarrow> Some r | None \<Rightarrow> row_at key k u)"
  by (induction t) (auto simp: row_simps)

lemma find_append: "find P (xs @ ys) = (case find P xs of None \<Rightarrow> find P ys | Some x \<Rightarrow> Some x)"
  by (induction xs) simp_all

lemma row_at_SomeD: "row_at key k t = Some r \<Longrightarrow> r \<in> set t \<and> key r = k"
  by (auto simp: row_at_def find_Some_iff)

lemma row_at_None_iff: "row_at key k t = None \<longleftrightarrow> k \<notin> key ` set t"
  by (auto simp: row_at_def find_None_iff)

lemma new_row: "key r \<notin> key ` set t \<Longrightarrow> row_at key (key r) (t @ [r]) = Some r"
  by (simp add: row_at_append row_at_None_iff [THEN iffD2] row_simps)

lemma row_at_Some_iff:
  "distinct (map key t) \<Longrightarrow> row_at key k t = Some r \<longleftrightarrow> r \<in> set t \<and> key r = k"
  by (induction t) (auto simp: row_simps)

lemma row_set_Nil [row_simps, simp]: "row_set key k f [] = []"
  by (simp add: row_set_def)

lemma row_set_Cons [row_simps]:
  "row_set key k f (r # t) = (if key r = k then f r else r) # row_set key k f t"
  by (simp add: row_set_def)

lemma row_set_append [row_simps]: "row_set key k f (t @ u) = row_set key k f t @ row_set key k f u"
  by (simp add: row_set_def)

lemma set_row_set [row_simps]:
  "set (row_set key k f t) = {if key r = k then f r else r |r. r \<in> set t}"
  by (auto simp: row_set_def)

lemma map_row_set_frame [row_simps]:
  "(\<And>r. g (f r) = g r) \<Longrightarrow> map g (row_set key k f t) = map g t"
  by (simp add: row_set_def)

lemma length_row_set [row_simps, simp]: "length (row_set key k f t) = length t"
  by (simp add: row_set_def)

lemma row_at_row_set [row_simps]:
  "(\<And>r. key (f r) = key r) \<Longrightarrow>
     row_at key k' (row_set key k f t) =
     (if k' = k then map_option f (row_at key k t) else row_at key k' t)"
  by (induction t) (auto simp: row_simps row_set_def)

lemma row_set_absent: "k \<notin> key ` set t \<Longrightarrow> row_set key k f t = t"
  by (auto simp: row_set_def intro!: map_idI)

lemma in_set_row_set:
  assumes "distinct (map key t)" and "row_at key k t = Some old"
  shows "x \<in> set (row_set key k f t) \<longleftrightarrow> x = f old \<or> x \<in> set t \<and> key x \<noteq> k"
proof -
  have only: "r = old" if "r \<in> set t" "key r = k" for r
    using assms that by (metis row_at_Some_iff option.inject)
  have old: "old \<in> set t" "key old = k" using row_at_SomeD [OF assms(2)] by auto
  have mem: "x \<in> set (row_set key k f t) \<longleftrightarrow> (\<exists>r \<in> set t. x = (if key r = k then f r else r))"
    unfolding row_set_def set_map image_iff ..
  show ?thesis
  proof
    assume "x \<in> set (row_set key k f t)"
    then obtain r where "r \<in> set t" "x = (if key r = k then f r else r)" using mem by blast
    then show "x = f old \<or> x \<in> set t \<and> key x \<noteq> k" using only by (cases "key r = k") auto
  next
    assume "x = f old \<or> x \<in> set t \<and> key x \<noteq> k"
    then show "x \<in> set (row_set key k f t)" unfolding mem using old by metis
  qed
qed

lemma map_key_row_set: "(\<And>r. key (f r) = key r) \<Longrightarrow> map key (row_set key k f t) = map key t"
  by (simp add: row_set_def)

lemma filter_row_set:
  "(\<And>r. P (f r) = P r) \<Longrightarrow> (\<And>r. r \<in> set t \<Longrightarrow> key r = k \<Longrightarrow> \<not> P r) \<Longrightarrow>
     filter P (row_set key k f t) = filter P t"
  by (induction t) (auto simp: row_set_def)

lemma claim_row_free [row_simps]:
  "key r \<notin> key ` set t \<Longrightarrow> claim_row key r t = (Some r, t @ [r])"
  by (simp add: claim_row_def)

lemma claim_row_taken [row_simps]: "key r \<in> key ` set t \<Longrightarrow> claim_row key r t = (None, t)"
  by (simp add: claim_row_def)

lemma claim_row_distinct:
  "distinct (map key t) \<Longrightarrow> distinct (map key (snd (claim_row key r t)))"
  by (auto simp: claim_row_def)

section \<open>Sums over rows\<close>

definition sum_where :: "('r \<Rightarrow> bool) \<Rightarrow> ('r \<Rightarrow> int) \<Rightarrow> 'r list \<Rightarrow> int" where
  "sum_where P f t = sum_list (map f (filter P t))"

lemma sum_where_Nil [simp]: "sum_where P f [] = 0"
  by (simp add: sum_where_def)

lemma sum_where_Cons [simp]:
  "sum_where P f (r # t) = (if P r then f r else 0) + sum_where P f t"
  by (simp add: sum_where_def)

lemma sum_where_append [simp]: "sum_where P f (t @ u) = sum_where P f t + sum_where P f u"
  by (simp add: sum_where_def)

lemma sum_where_cong:
  "(\<And>r. r \<in> set t \<Longrightarrow> P r = Q r) \<Longrightarrow> (\<And>r. r \<in> set t \<Longrightarrow> f r = g r) \<Longrightarrow>
     sum_where P f t = sum_where Q g t"
  by (induction t) auto

lemma sum_where_none: "(\<And>r. r \<in> set t \<Longrightarrow> \<not> P r) \<Longrightarrow> sum_where P f t = 0"
  by (induction t) auto

lemma sum_where_nonneg: "(\<And>r. r \<in> set t \<Longrightarrow> P r \<Longrightarrow> 0 \<le> f r) \<Longrightarrow> 0 \<le> sum_where P f t"
  by (induction t) auto

lemma sum_where_pos:
  "x \<in> set t \<Longrightarrow> P x \<Longrightarrow> 0 < f x \<Longrightarrow> (\<And>r. r \<in> set t \<Longrightarrow> P r \<Longrightarrow> 0 \<le> f r) \<Longrightarrow> 0 < sum_where P f t"
  by (induction t) (auto simp: add_pos_nonneg add_nonneg_pos sum_where_nonneg)

section \<open>Interfaces shared by the components\<close>

text \<open>
  An operation that claims a key at most once: the first claim of a key wins and later claims of it
  lose and change nothing.  The inbox, the idempotency records and the ledger accounts are used
  through this contract.
\<close>

locale claim_once =
  fixes claim :: "'k \<Rightarrow> 't \<Rightarrow> bool \<times> 't"
    and claimed :: "'k \<Rightarrow> 't \<Rightarrow> bool"
  assumes claim_wins: "fst (claim k t) \<longleftrightarrow> \<not> claimed k t"
    and claim_marks: "claimed k' (snd (claim k t)) \<longleftrightarrow> k' = k \<or> claimed k' t"
    and claim_loses: "claimed k t \<Longrightarrow> snd (claim k t) = t"
begin

fun claims :: "'k list \<Rightarrow> 't \<Rightarrow> bool list \<times> 't" where
  "claims [] t = ([], t)"
| "claims (k # ks) t =
     (let (b, t') = claim k t; (bs, t'') = claims ks t' in (b # bs, t''))"

lemma claim_again: "claim k (snd (claim k t)) = (False, snd (claim k t))"
  using claim_wins [of k "snd (claim k t)"] claim_marks [of k k t] claim_loses [of k "snd (claim k t)"]
  by (simp add: prod_eq_iff)

lemma claim_keeps_claimed: "claimed k' t \<Longrightarrow> claimed k' (snd (claim k t))"
  by (simp add: claim_marks)

lemma length_claims: "length (fst (claims ks t)) = length ks"
  by (induction ks arbitrary: t) (auto simp: split_def Let_def)

lemma claims_marks: "claimed k (snd (claims ks t)) \<longleftrightarrow> k \<in> set ks \<or> claimed k t"
  by (induction ks arbitrary: t) (auto simp: split_def Let_def claim_marks)

lemma claims_repeat_taken:
  "claimed k t \<Longrightarrow> claims (replicate n k) t = (replicate n False, t)"
proof (induction n)
  case 0
  show ?case by simp
next
  case (Suc n)
  have "claim k t = (False, t)"
    using Suc.prems claim_wins [of k t] claim_loses [of k t] by (simp add: prod_eq_iff)
  with Suc show ?case by simp
qed

text \<open>However often a free key is claimed, exactly the first claim succeeds.\<close>

lemma claims_repeat_free:
  assumes "\<not> claimed k t"
  shows "claims (replicate (Suc n) k) t = (True # replicate n False, snd (claim k t))"
proof -
  define u where "u = snd (claim k t)"
  have first: "claim k t = (True, u)"
    using assms claim_wins [of k t] by (simp add: u_def prod_eq_iff)
  have "claimed k u" by (simp add: u_def claim_marks)
  then have "claims (replicate n k) u = (replicate n False, u)" by (rule claims_repeat_taken)
  then show ?thesis by (simp add: first)
qed

end

text \<open>An encoding with a partial inverse: enumerations as column values, identifiers as text.\<close>

locale codec =
  fixes encode :: "'a \<Rightarrow> 'w" and decode :: "'w \<Rightarrow> 'a option"
  assumes decode_encode: "decode (encode a) = Some a"
begin

lemma encode_inj: "encode a = encode b \<Longrightarrow> a = b"
  by (metis decode_encode option.inject)

lemma encode_eq_iff: "encode a = encode b \<longleftrightarrow> a = b"
  by (auto dest: encode_inj)

end

text \<open>A deterministic machine with an invariant that every action keeps.\<close>

locale invariant_machine =
  fixes step :: "'a \<Rightarrow> 's \<Rightarrow> 's" and inv :: "'s \<Rightarrow> bool"
  assumes step_inv: "inv s \<Longrightarrow> inv (step a s)"
begin

lemma run_inv: "inv s \<Longrightarrow> inv (fold step as s)"
  by (induction as arbitrary: s) (auto intro: step_inv)

end

text \<open>A machine whose steps, under the invariant, only move an observation forward.\<close>

locale progress_machine = invariant_machine step inv
  for step :: "'a \<Rightarrow> 's \<Rightarrow> 's" and inv :: "'s \<Rightarrow> bool" +
  fixes before :: "'s \<Rightarrow> 's \<Rightarrow> bool"
  assumes before_refl: "before s s"
    and before_trans: "before s t \<Longrightarrow> before t u \<Longrightarrow> before s u"
    and step_before: "inv s \<Longrightarrow> before s (step a s)"
begin

lemma run_before: "inv s \<Longrightarrow> before s (fold step as s)"
proof (induction as arbitrary: s)
  case Nil
  show ?case by (simp add: before_refl)
next
  case (Cons a as)
  then have "before (step a s) (fold step as (step a s))" by (simp add: step_inv)
  with Cons.prems show ?case by (auto intro: before_trans step_before)
qed

end

end
