(* ===== verification/PyText.thy ===== *)
theory PyText
  imports Prelude "HOL-Library.Word"
begin

text \<open>
  The parts of Python's text library the sources use: \<open>str(int)\<close>, \<open>str.strip\<close>,
  \<open>str.replace(p, "")\<close>, \<open>str.removeprefix\<close>, \<open>int(s, 16)\<close>, and \<open>uuid.UUID\<close> with its
  canonical text.  Strings are lists of characters; the texts the program builds and reads here
  (identifiers, numbers, header values, enumeration values) are ASCII.  A UUID is its 128-bit
  value, as in \<open>uuid.UUID.int\<close>.
\<close>

section \<open>Strings\<close>

definition removeprefix :: "string \<Rightarrow> string \<Rightarrow> string" where
  "removeprefix p s = (if take (length p) s = p then drop (length p) s else s)"

definition startswith :: "string \<Rightarrow> string \<Rightarrow> bool" where
  "startswith p s \<longleftrightarrow> take (length p) s = p"

text \<open>\<open>s.strip(cs)\<close>: characters satisfying \<open>P\<close> removed at both ends.\<close>

definition strip_chars :: "(char \<Rightarrow> bool) \<Rightarrow> string \<Rightarrow> string" where
  "strip_chars P s = rev (dropWhile P (rev (dropWhile P s)))"

text \<open>White space of the first 256 code points, as \<open>str.strip()\<close> sees it.\<close>

definition is_space :: "char \<Rightarrow> bool" where
  "is_space c \<longleftrightarrow> of_char c \<in> {9, 10, 11, 12, 13, 28, 29, 30, 31, 32, 133, 160 :: nat}"

definition strip :: "string \<Rightarrow> string" where
  "strip = strip_chars is_space"

text \<open>The white space that \<open>int()\<close> allows around a number does not include the separators 28 to 31.\<close>

definition is_int_space :: "char \<Rightarrow> bool" where
  "is_int_space c \<longleftrightarrow> of_char c \<in> {9, 10, 11, 12, 13, 32, 133, 160 :: nat}"

definition int_strip :: "string \<Rightarrow> string" where
  "int_strip = strip_chars is_int_space"

text \<open>\<open>s.replace(p, "")\<close> for a non-empty \<open>p\<close>: occurrences removed from the left.\<close>

function (sequential) remove_sub :: "string \<Rightarrow> string \<Rightarrow> string" where
  "remove_sub p [] = []"
| "remove_sub p (c # s) =
     (if p \<noteq> [] \<and> startswith p (c # s) then remove_sub p (drop (length p) (c # s))
      else c # remove_sub p s)"
  by pat_completeness auto
termination
  by (relation "measure (\<lambda>(p, s). length s)") (auto simp: neq_Nil_conv)

lemma strip_chars_id:
  "s = [] \<or> \<not> P (hd s) \<and> \<not> P (last s) \<Longrightarrow> strip_chars P s = s"
  using dropWhile_eq_self_iff [THEN iffD2, of s P] dropWhile_eq_self_iff [THEN iffD2, of "rev s" P]
  by (auto simp: strip_chars_def hd_rev)

lemma remove_sub_absent: "c \<in> set p \<Longrightarrow> c \<notin> set s \<Longrightarrow> remove_sub p s = s"
proof (induction p s rule: remove_sub.induct)
  case (2 p d s)
  have "\<not> startswith p (d # s)"
  proof
    assume "startswith p (d # s)"
    then have "set p \<subseteq> set (d # s)"
      by (metis startswith_def set_take_subset)
    with "2.prems" show False by auto
  qed
  with 2 show ?case by auto
qed simp

section \<open>Decimal integers\<close>

definition digit_char :: "nat \<Rightarrow> char" where
  "digit_char d = ''0123456789abcdef'' ! d"

fun nat_str :: "nat \<Rightarrow> string" where
  "nat_str n = (if n < 10 then [digit_char n] else nat_str (n div 10) @ [digit_char (n mod 10)])"

declare nat_str.simps [simp del]

definition int_str :: "int \<Rightarrow> string" where
  "int_str i = (if i < 0 then ''-'' @ nat_str (nat (- i)) else nat_str (nat i))"

definition char_digit :: "char \<Rightarrow> nat option" where
  "char_digit c =
     (let n = of_char c in
      if 48 \<le> n \<and> n \<le> 57 then Some (n - 48)
      else if 97 \<le> n \<and> n \<le> 102 then Some (n - 87)
      else if 65 \<le> n \<and> n \<le> 70 then Some (n - 55)
      else None)"

lemma digit_table:
  "list_all (\<lambda>d. char_digit (digit_char d) = Some d \<and>
      (d < 10 \<longrightarrow> digit_char d \<in> set ''0123456789'') \<and>
      digit_char d \<in> set ''0123456789abcdef'') [0..<16]"
  by code_simp

lemma char_digit_digit_char [simp]: "d < 16 \<Longrightarrow> char_digit (digit_char d) = Some d"
  using digit_table by (simp add: list_all_iff)

lemma digit_char_inj: "d < 16 \<Longrightarrow> e < 16 \<Longrightarrow> digit_char d = digit_char e \<longleftrightarrow> d = e"
  by (metis char_digit_digit_char option.inject)

lemma nat_str_nonempty [simp]: "nat_str n \<noteq> []" "[] \<noteq> nat_str n"
  by (subst nat_str.simps, simp)+

definition is_decimal :: "char \<Rightarrow> bool" where
  "is_decimal c \<longleftrightarrow> c \<in> set ''0123456789''"

lemma digit_char_decimal: "d < 10 \<Longrightarrow> is_decimal (digit_char d)"
  using digit_table by (simp add: list_all_iff is_decimal_def)

lemma nat_str_decimal: "c \<in> set (nat_str n) \<Longrightarrow> is_decimal c"
proof (induction n rule: nat_str.induct)
  case (1 n)
  then show ?case
    by (subst (asm) nat_str.simps) (auto simp: digit_char_decimal split: if_splits)
qed

lemma nat_str_inj: "nat_str m = nat_str n \<Longrightarrow> m = n"
proof (induction m arbitrary: n rule: nat_str.induct)
  case (1 m)
  note eq = "1.prems" [unfolded nat_str.simps [of m] nat_str.simps [of n]]
  show ?case
  proof (cases "m < 10")
    case True
    with eq show ?thesis by (auto simp: digit_char_inj split: if_splits)
  next
    case False
    with eq have n: "\<not> n < 10" by (auto split: if_splits)
    with False eq have "nat_str (m div 10) = nat_str (n div 10)" "m mod 10 = n mod 10"
      by (auto simp: digit_char_inj)
    with "1.IH" [OF False] have "m div 10 = n div 10" "m mod 10 = n mod 10" by auto
    then show ?thesis by (metis div_mult_mod_eq)
  qed
qed

section \<open>\<open>int(s, 16)\<close>\<close>

text \<open>
  Digits with single underscores between them.  \<open>after_digit\<close> records whether an underscore or
  the end of the text may come next.
\<close>

fun hex_value :: "bool \<Rightarrow> nat \<Rightarrow> string \<Rightarrow> nat option" where
  "hex_value after_digit acc [] = (if after_digit then Some acc else None)"
| "hex_value after_digit acc (c # s) =
     (if c = CHR ''_'' then (if after_digit then hex_value False acc s else None)
      else case char_digit c of None \<Rightarrow> None | Some d \<Rightarrow> hex_value True (16 * acc + d) s)"

definition int_base16 :: "string \<Rightarrow> int option" where
  "int_base16 text =
     (let s = int_strip text;
          negative = startswith ''-'' s;
          body = (if negative \<or> startswith ''+'' s then tl s else s);
          prefixed = startswith ''0x'' body \<or> startswith ''0X'' body;
          digits = (if prefixed then removeprefix ''_'' (drop 2 body) else body)
      in map_option (\<lambda>n. if negative then - int n else int n) (hex_value False 0 digits))"

section \<open>UUIDs\<close>

type_synonym uuid = "128 word"

fun hex_digits :: "nat \<Rightarrow> nat \<Rightarrow> string" where
  "hex_digits 0 n = []"
| "hex_digits (Suc w) n = hex_digits w (n div 16) @ [digit_char (n mod 16)]"

text \<open>\<open>str(uuid)\<close>: 32 hexadecimal digits grouped 8-4-4-4-12.\<close>

definition uuid_str :: "uuid \<Rightarrow> string" where
  "uuid_str u =
     (let h = hex_digits 32 (unat u) in
      take 8 h @ ''-'' @ take 4 (drop 8 h) @ ''-'' @ take 4 (drop 12 h) @ ''-'' @
      take 4 (drop 16 h) @ ''-'' @ drop 20 h)"

text \<open>\<open>UUID(text)\<close>; \<open>None\<close> where it raises \<open>ValueError\<close>.\<close>

definition uuid_parse :: "string \<Rightarrow> uuid option" where
  "uuid_parse text =
     (let s = remove_sub ''uuid:'' (remove_sub ''urn:'' text);
          h = remove_sub ''-'' (strip_chars (\<lambda>c. c \<in> set ''{}'') s)
      in if length h \<noteq> 32 then None
         else case int_base16 h of
                None \<Rightarrow> None
              | Some i \<Rightarrow> if 0 \<le> i \<and> i < 2 ^ 128 then Some (word_of_int i) else None)"

definition is_hex :: "char \<Rightarrow> bool" where
  "is_hex c \<longleftrightarrow> c \<in> set ''0123456789abcdef''"

lemma digit_char_hex: "d < 16 \<Longrightarrow> is_hex (digit_char d)"
  using digit_table by (simp add: list_all_iff is_hex_def)

lemma length_hex_digits [simp]: "length (hex_digits w n) = w"
  by (induction w arbitrary: n) auto

lemma hex_digits_hex: "c \<in> set (hex_digits w n) \<Longrightarrow> is_hex c"
  by (induction w arbitrary: n) (auto simp: digit_char_hex)

lemma hex_value_append_digit:
  "(\<And>c. c \<in> set s \<Longrightarrow> is_hex c) \<Longrightarrow> d < 16 \<Longrightarrow>
     hex_value b acc (s @ [digit_char d]) =
     (case hex_value True acc s of None \<Rightarrow> None | Some v \<Rightarrow> Some (16 * v + d))"
proof (induction s arbitrary: b acc)
  case Nil
  have "digit_char d \<noteq> CHR ''_''"
    using digit_char_hex [OF Nil(2)] by (auto simp: is_hex_def)
  with Nil show ?case by simp
next
  case (Cons c s)
  have "c \<noteq> CHR ''_''" using Cons.prems(1) [of c] by (auto simp: is_hex_def)
  with Cons show ?case by (auto split: option.split)
qed

lemma hex_value_hex_digits: "hex_value True 0 (hex_digits w n) = Some (n mod 16 ^ w)"
proof (induction w arbitrary: n)
  case 0
  show ?case by simp
next
  case (Suc w)
  have "hex_value True 0 (hex_digits (Suc w) n) = Some (16 * ((n div 16) mod 16 ^ w) + n mod 16)"
    using Suc [of "n div 16"] by (simp add: hex_value_append_digit hex_digits_hex)
  also have "16 * ((n div 16) mod 16 ^ w) + n mod 16 = n mod 16 ^ Suc w"
    by (simp add: mod_mult2_eq)
  finally show ?case .
qed

lemma hex_value_nonempty: "s \<noteq> [] \<Longrightarrow> hd s \<noteq> CHR ''_'' \<Longrightarrow> hex_value b acc s = hex_value b' acc s"
  by (cases s) auto

lemma hex_text_plain:
  assumes "\<And>c. c \<in> set h \<Longrightarrow> is_hex c" and "h \<noteq> []"
  shows "int_strip h = h" "\<not> startswith ''-'' h" "\<not> startswith ''+'' h"
    "\<not> startswith ''0x'' h" "\<not> startswith ''0X'' h" "hd h \<noteq> CHR ''_''"
proof -
  have "is_hex (hd h)" "is_hex (last h)" using assms by auto
  moreover have "\<not> is_int_space c" if "is_hex c" for c
    using that by (auto simp: is_hex_def is_int_space_def)
  ultimately show "int_strip h = h" by (simp add: int_strip_def strip_chars_id)
  have no: "\<not> startswith p h" if "c \<in> set p" "\<not> is_hex c" for p c
    using that assms(1) set_take_subset [of "length p" h] by (auto simp: startswith_def)
  show "\<not> startswith ''-'' h" by (rule no [of "CHR ''-''"]) (auto simp: is_hex_def)
  show "\<not> startswith ''+'' h" by (rule no [of "CHR ''+''"]) (auto simp: is_hex_def)
  show "\<not> startswith ''0x'' h" by (rule no [of "CHR ''x''"]) (auto simp: is_hex_def)
  show "\<not> startswith ''0X'' h" by (rule no [of "CHR ''X''"]) (auto simp: is_hex_def)
  show "hd h \<noteq> CHR ''_''" using \<open>is_hex (hd h)\<close> by (auto simp: is_hex_def)
qed

lemma int_base16_hex_digits: "0 < w \<Longrightarrow> int_base16 (hex_digits w n) = Some (int (n mod 16 ^ w))"
proof -
  assume "0 < w"
  then have ne: "hex_digits w n \<noteq> []" by (metis length_hex_digits less_numeral_extra(3) list.size(3))
  note plain = hex_text_plain [OF hex_digits_hex [of _ w n] ne]
  have "hex_value False 0 (hex_digits w n) = Some (n mod 16 ^ w)"
    using hex_value_nonempty [OF ne plain(6), of False 0 True] hex_value_hex_digits by simp
  with plain show ?thesis by (simp add: int_base16_def Let_def)
qed

lemma remove_dash: "(\<And>c. c \<in> set s \<Longrightarrow> c \<noteq> CHR ''-'') \<Longrightarrow> remove_sub ''-'' (s @ t) = s @ remove_sub ''-'' t"
  by (induction s) (auto simp: startswith_def)

lemma remove_dash_dash: "remove_sub ''-'' (CHR ''-'' # t) = remove_sub ''-'' t"
  by (simp add: startswith_def)

lemma hex_not_dash: "is_hex c \<Longrightarrow> c \<noteq> CHR ''-''"
  by (auto simp: is_hex_def)

lemma hex_not_brace: "is_hex c \<Longrightarrow> \<not> c \<in> set ''{}''"
  by (auto simp: is_hex_def)

lemma uuid_str_chars: "c \<in> set (uuid_str u) \<Longrightarrow> is_hex c \<or> c = CHR ''-''"
  unfolding uuid_str_def Let_def
  by (auto dest!: in_set_takeD in_set_dropD hex_digits_hex)

lemma take_drop_step: "take n (drop m s) @ drop (n + m) s = drop m s"
  by (metis append_take_drop_id drop_drop)

lemma remove_dash_uuid_str: "remove_sub ''-'' (uuid_str u) = hex_digits 32 (unat u)"
proof -
  define h where "h = hex_digits 32 (unat u)"
  have hex: "c \<noteq> CHR ''-''" if "c \<in> set h" for c
    using that by (auto simp: h_def dest: hex_digits_hex hex_not_dash)
  have part: "remove_sub ''-'' (take n (drop m h) @ t) = take n (drop m h) @ remove_sub ''-'' t" for n m t
    by (rule remove_dash) (auto dest: hex in_set_takeD in_set_dropD)
  have first: "remove_sub ''-'' (take n h @ t) = take n h @ remove_sub ''-'' t" for n t
    by (rule remove_dash) (auto dest: hex in_set_takeD)
  have final: "remove_sub ''-'' (drop n h) = drop n h" for n
    using remove_dash [of "drop n h" "[]"] by (auto dest: hex in_set_dropD)
  have "remove_sub ''-'' (uuid_str u)
      = take 8 h @ take 4 (drop 8 h) @ take 4 (drop 12 h) @ take 4 (drop 16 h) @ drop 20 h"
    by (simp add: uuid_str_def Let_def part first final remove_dash_dash del: remove_sub.simps
        flip: h_def)
  also have "\<dots> = h"
    using take_drop_step [of 4 8 h] take_drop_step [of 4 12 h] take_drop_step [of 4 16 h] by simp
  finally show ?thesis by (simp add: h_def)
qed

lemma length_uuid_str [simp]: "length (uuid_str u) = 36"
  by (simp add: uuid_str_def Let_def)

text \<open>The canonical text of a UUID, the one that \<open>str\<close> gives.\<close>

definition uuid_text :: "string \<Rightarrow> bool" where
  "uuid_text s \<longleftrightarrow> length s = 36 \<and>
     list_all (\<lambda>i. if i \<in> {8, 13, 18, 23} then s ! i = CHR ''-'' else is_hex (s ! i)) [0..<36]"

lemma uuid_text_uuid_str: "uuid_text (uuid_str u)"
proof -
  define h where "h = hex_digits 32 (unat u)"
  have h: "length h = 32" "i < 32 \<Longrightarrow> is_hex (h ! i)" for i
    using hex_digits_hex [of "h ! i" 32 "unat u"] by (simp_all add: h_def)
  have "uuid_str u = take 8 h @ ''-'' @ take 4 (drop 8 h) @ ''-'' @ take 4 (drop 12 h) @ ''-'' @
      take 4 (drop 16 h) @ ''-'' @ drop 20 h"
    by (simp add: uuid_str_def h_def Let_def)
  then show ?thesis using h by (simp add: uuid_text_def upt_rec nth_append nth_Cons')
qed

lemma uuid_str_ends: "is_hex (hd (uuid_str u)) \<and> is_hex (last (uuid_str u))"
proof -
  have "hd (uuid_str u) = hd (hex_digits 32 (unat u))"
    by (cases "hex_digits 32 (unat u)")
      (auto simp: uuid_str_def Let_def simp flip: length_0_conv dest!: arg_cong [where f = length])
  moreover have "last (uuid_str u) = last (hex_digits 32 (unat u))"
    by (simp add: uuid_str_def Let_def flip: length_0_conv)
  moreover have "hex_digits 32 (unat u) \<noteq> []" by (simp flip: length_0_conv)
  ultimately show ?thesis using hex_digits_hex by (metis hd_in_set last_in_set)
qed

lemma uuid_parse_uuid_str: "uuid_parse (uuid_str u) = Some u"
proof -
  have colon: "CHR '':'' \<notin> set (uuid_str u)"
    using uuid_str_chars by (fastforce simp: is_hex_def)
  have urn: "remove_sub ''uuid:'' (remove_sub ''urn:'' (uuid_str u)) = uuid_str u"
    using colon by (simp add: remove_sub_absent [of "CHR '':''"])
  have braces: "strip_chars (\<lambda>c. c \<in> set ''{}'') (uuid_str u) = uuid_str u"
    using uuid_str_ends [of u] by (intro strip_chars_id disjI2 conjI hex_not_brace; elim conjE)
  have small: "unat u < 2 ^ 128" using unsigned_less [of u] by simp
  have "(16 :: nat) ^ 32 = 2 ^ 128" by simp
  with small have "int_base16 (hex_digits 32 (unat u)) = Some (int (unat u))"
    by (simp only: int_base16_hex_digits mod_less zero_less_numeral)
  moreover have "int (unat u) < 2 ^ 128" using small by (metis of_nat_less_iff of_nat_numeral of_nat_power)
  ultimately show ?thesis
    by (simp only: uuid_parse_def Let_def urn braces remove_dash_uuid_str length_hex_digits
        option.case if_True not_True_eq_False if_False of_nat_0_le_iff conj_absorb simp_thms)
      simp
qed

interpretation uuid_text: codec uuid_str uuid_parse
  by unfold_locales (rule uuid_parse_uuid_str)

end
