(* ===== verification/Enums.thy ===== *)
theory Enums
  imports PyText
begin

text \<open>
  The \<open>StrEnum\<close> classes of the sources with the strings they are stored and serialised as
  (\<open>X_value\<close> is \<open>x.value\<close>, \<open>X_of\<close> is the class called on a string, \<open>None\<close> where Python
  raises \<open>ValueError\<close>), and the exceptions the code raises or catches.
\<close>

section \<open>Enumerations\<close>

datatype currency = PLN | EUR | USD

fun currency_value :: "currency \<Rightarrow> string" where
  "currency_value PLN = ''PLN''"
| "currency_value EUR = ''EUR''"
| "currency_value USD = ''USD''"

definition currency_of :: "string \<Rightarrow> currency option" where
  "currency_of s = find (\<lambda>c. currency_value c = s) [PLN, EUR, USD]"

datatype payment_status =
  CREATED | PENDING | AUTHORIZED | CAPTURED | PARTIALLY_REFUNDED | REFUNDED | FAILED | CANCELLED

fun status_value :: "payment_status \<Rightarrow> string" where
  "status_value CREATED = ''CREATED''"
| "status_value PENDING = ''PENDING''"
| "status_value AUTHORIZED = ''AUTHORIZED''"
| "status_value CAPTURED = ''CAPTURED''"
| "status_value PARTIALLY_REFUNDED = ''PARTIALLY_REFUNDED''"
| "status_value REFUNDED = ''REFUNDED''"
| "status_value FAILED = ''FAILED''"
| "status_value CANCELLED = ''CANCELLED''"

definition status_of :: "string \<Rightarrow> payment_status option" where
  "status_of s = find (\<lambda>c. status_value c = s)
     [CREATED, PENDING, AUTHORIZED, CAPTURED, PARTIALLY_REFUNDED, REFUNDED, FAILED, CANCELLED]"

datatype risk_decision = APPROVE | REVIEW | REJECT

fun decision_value :: "risk_decision \<Rightarrow> string" where
  "decision_value APPROVE = ''APPROVE''"
| "decision_value REVIEW = ''REVIEW''"
| "decision_value REJECT = ''REJECT''"

datatype event_type =
  PAYMENT_CREATED | PAYMENT_AUTHORIZED | PAYMENT_FAILED | PAYMENT_CAPTURED | PAYMENT_CANCELLED
| PAYMENT_REFUNDED | RISK_APPROVED | RISK_REJECTED | WEBHOOK_DELIVERY_FAILED

fun event_type_value :: "event_type \<Rightarrow> string" where
  "event_type_value PAYMENT_CREATED = ''payment.created''"
| "event_type_value PAYMENT_AUTHORIZED = ''payment.authorized''"
| "event_type_value PAYMENT_FAILED = ''payment.failed''"
| "event_type_value PAYMENT_CAPTURED = ''payment.captured''"
| "event_type_value PAYMENT_CANCELLED = ''payment.cancelled''"
| "event_type_value PAYMENT_REFUNDED = ''payment.refunded''"
| "event_type_value RISK_APPROVED = ''risk.approved''"
| "event_type_value RISK_REJECTED = ''risk.rejected''"
| "event_type_value WEBHOOK_DELIVERY_FAILED = ''webhook.delivery.failed''"

definition event_type_of :: "string \<Rightarrow> event_type option" where
  "event_type_of s = find (\<lambda>c. event_type_value c = s)
     [PAYMENT_CREATED, PAYMENT_AUTHORIZED, PAYMENT_FAILED, PAYMENT_CAPTURED, PAYMENT_CANCELLED,
      PAYMENT_REFUNDED, RISK_APPROVED, RISK_REJECTED, WEBHOOK_DELIVERY_FAILED]"

interpretation currency_codec: codec currency_value currency_of
proof unfold_locales
  show "currency_of (currency_value a) = Some a" for a
    by (cases a) (simp_all add: currency_of_def)
qed

interpretation status_codec: codec status_value status_of
proof unfold_locales
  show "status_of (status_value a) = Some a" for a
    by (cases a) (simp_all add: status_of_def)
qed

interpretation event_type_codec: codec event_type_value event_type_of
proof unfold_locales
  show "event_type_of (event_type_value a) = Some a" for a
    by (cases a) (simp_all add: event_type_of_def)
qed

lemmas enum_round_trips [simp] =
  currency_codec.decode_encode status_codec.decode_encode event_type_codec.decode_encode

lemmas enum_values_inj [simp] =
  currency_codec.encode_eq_iff status_codec.encode_eq_iff event_type_codec.encode_eq_iff

lemma length_currency_value [simp]: "length (currency_value c) = 3"
  by (cases c) auto

lemma status_of_Some: "status_of s = Some st \<longleftrightarrow> s = status_value st"
proof
  assume "status_of s = Some st"
  then show "s = status_value st" unfolding status_of_def find_Some_iff by metis
qed simp

lemma currency_of_Some: "currency_of s = Some c \<longleftrightarrow> s = currency_value c"
proof
  assume "currency_of s = Some c"
  then show "s = currency_value c" unfolding currency_of_def find_Some_iff by metis
qed simp

lemma event_type_of_Some: "event_type_of s = Some e \<longleftrightarrow> s = event_type_value e"
proof
  assume "event_type_of s = Some e"
  then show "s = event_type_value e" unfolding event_type_of_def find_Some_iff by metis
qed simp

text \<open>Values stay folded: the codec facts above compare them without spelling them out.\<close>

declare status_value.simps [simp del] currency_value.simps [simp del] event_type_value.simps [simp del]

lemmas enum_value_simps = status_value.simps currency_value.simps event_type_value.simps

section \<open>Exceptions\<close>

text \<open>
  \<open>IntegrityError\<close>, \<open>DataError\<close> and \<open>RaiseException\<close> are what SQLAlchemy raises for a violated
  constraint, for a value outside its column type, and for a \<open>raise exception\<close> in a trigger.
\<close>

datatype exn =
    ValueError string
  | KeyError string
  | TypeError
  | OverflowError
  | RuntimeError string
  | ValidationError
  | PaymentTransitionError payment_status payment_status
  | IdempotencyConflictError string
  | BusinessError string string
  | PersistedBusinessError string string
  | HTTPException int string string uuid
  | IntegrityError
  | DataError
  | RaiseException string
  | InvalidToken
  | KafkaError
  | HTTPError string

text \<open>\<open>X(s)\<close> where the string is not a member: \<open>ValueError\<close>.\<close>

definition PaymentStatus :: "string \<Rightarrow> exn + payment_status" where
  "PaymentStatus s =
     (case status_of s of None \<Rightarrow> Inl (ValueError (s @ '' is not a valid PaymentStatus''))
      | Some st \<Rightarrow> Inr st)"

definition Currency :: "string \<Rightarrow> exn + currency" where
  "Currency s =
     (case currency_of s of None \<Rightarrow> Inl (ValueError (s @ '' is not a valid Currency''))
      | Some c \<Rightarrow> Inr c)"

lemma PaymentStatus_value [simp]: "PaymentStatus (status_value st) = Inr st"
  by (simp add: PaymentStatus_def)

lemma PaymentStatus_Inr: "PaymentStatus s = Inr st \<longleftrightarrow> s = status_value st"
  by (auto simp: PaymentStatus_def status_of_Some split: option.splits)

lemma Currency_value [simp]: "Currency (currency_value c) = Inr c"
  by (simp add: Currency_def)

lemma Currency_Inr: "Currency s = Inr c \<longleftrightarrow> s = currency_value c"
  by (auto simp: Currency_def currency_of_Some split: option.splits)

end
