(* ===== verification/Json.thy ===== *)
theory Json
  imports PyText Complex_Main "HOL-Library.Char_ord" "HOL-Library.List_Lexorder"
begin

text \<open>
  JSON values as the program builds them, \<open>dict\<close> access, and \<open>json.dumps\<close> with its separators,
  key sorting and ASCII escapes.  Objects keep their insertion order, as Python dictionaries do.
  The shortest decimal text of a float is the argument \<open>fr\<close> (\<open>float.__repr__\<close>).
\<close>

datatype json =
    JNull
  | JBool bool
  | JInt int
  | JFloat rat
  | JStr string
  | JList "json list"
  | JObj "(string \<times> json) list"

text \<open>\<open>d[k]\<close>: \<open>None\<close> where Python raises \<open>KeyError\<close>.\<close>

definition dict_get :: "string \<Rightarrow> (string \<times> json) list \<Rightarrow> json option" where
  "dict_get k d = map_of d k"

fun hex2 :: "nat \<Rightarrow> string" where
  "hex2 n = [digit_char (n div 16 mod 16), digit_char (n mod 16)]"

text \<open>\<open>ensure_ascii\<close>: everything outside the printable ASCII range is escaped.\<close>

definition escape_char :: "char \<Rightarrow> string" where
  "escape_char c =
     (let n = of_char c :: nat in
      if n = 34 then [CHR 0x5C, CHR 0x22]
      else if n = 92 then [CHR 0x5C, CHR 0x5C]
      else if n = 10 then [CHR 0x5C, CHR ''n'']
      else if n = 13 then [CHR 0x5C, CHR ''r'']
      else if n = 9 then [CHR 0x5C, CHR ''t'']
      else if n = 12 then [CHR 0x5C, CHR ''f'']
      else if n = 8 then [CHR 0x5C, CHR ''b'']
      else if 32 \<le> n \<and> n \<le> 126 then [c]
      else [CHR 0x5C, CHR ''u'', CHR ''0'', CHR ''0''] @ hex2 n)"

definition json_quote :: "string \<Rightarrow> string" where
  "json_quote s = [CHR 0x22] @ concat (map escape_char s) @ [CHR 0x22]"

fun join :: "string \<Rightarrow> string list \<Rightarrow> string" where
  "join sep [] = []"
| "join sep [x] = x"
| "join sep (x # y # xs) = x @ sep @ join sep (y # xs)"

fun dumps :: "(rat \<Rightarrow> string) \<Rightarrow> string \<Rightarrow> string \<Rightarrow> json \<Rightarrow> string" where
  "dumps fr isep ksep JNull = ''null''"
| "dumps fr isep ksep (JBool b) = (if b then ''true'' else ''false'')"
| "dumps fr isep ksep (JInt i) = int_str i"
| "dumps fr isep ksep (JFloat x) = fr x"
| "dumps fr isep ksep (JStr s) = json_quote s"
| "dumps fr isep ksep (JList xs) = ''['' @ join isep (map (dumps fr isep ksep) xs) @ '']''"
| "dumps fr isep ksep (JObj kvs) =
     ''{'' @ join isep (map (\<lambda>(k, v). json_quote k @ ksep @ dumps fr isep ksep v) kvs) @ ''}''"

text \<open>\<open>sort_keys=True\<close>, at every level.\<close>

fun sort_keys :: "json \<Rightarrow> json" where
  "sort_keys (JList xs) = JList (map sort_keys xs)"
| "sort_keys (JObj kvs) = JObj (sort_key fst (map (\<lambda>(k, v). (k, sort_keys v)) kvs))"
| "sort_keys j = j"

text \<open>\<open>json.dumps(payload, sort_keys=True, separators=(",", ":"), default=str)\<close>.\<close>

definition canonical_json :: "(rat \<Rightarrow> string) \<Rightarrow> json \<Rightarrow> string" where
  "canonical_json fr j = dumps fr '','' '':'' (sort_keys j)"

text \<open>\<open>json.dumps(value, default=str)\<close>.\<close>

definition default_json :: "(rat \<Rightarrow> string) \<Rightarrow> json \<Rightarrow> string" where
  "default_json fr j = dumps fr '', '' '': '' j"

lemma dict_get_simps [simp]:
  "dict_get k [] = None"
  "dict_get k ((k', v) # d) = (if k' = k then Some v else dict_get k d)"
  by (simp_all add: dict_get_def)

text \<open>Decimal text is self-delimiting: a number followed by a separator determines the number.\<close>

lemma span_unique:
  "list_all P xs \<Longrightarrow> list_all P ys \<Longrightarrow> \<not> P c \<Longrightarrow> \<not> P d \<Longrightarrow>
     xs @ c # us = ys @ d # vs \<Longrightarrow> xs = ys \<and> c = d \<and> us = vs"
proof (induction xs arbitrary: ys)
  case Nil
  then show ?case by (cases ys) auto
next
  case (Cons x xs)
  then show ?case by (cases ys) auto
qed

definition is_number_char :: "char \<Rightarrow> bool" where
  "is_number_char c \<longleftrightarrow> c = CHR ''-'' \<or> is_decimal c"

lemma int_str_number: "list_all is_number_char (int_str i)"
  by (auto simp: int_str_def is_number_char_def list_all_iff dest: nat_str_decimal)

lemma nat_str_no_dash: "nat_str n \<noteq> CHR ''-'' # s"
proof
  assume "nat_str n = CHR ''-'' # s"
  then have "is_decimal (CHR ''-'')" using nat_str_decimal [of "CHR ''-''" n] by simp
  then show False by (simp add: is_decimal_def)
qed

lemma int_str_inj: "int_str i = int_str j \<Longrightarrow> i = j"
  by (auto simp: int_str_def nat_str_no_dash nat_str_no_dash [symmetric] dest!: nat_str_inj
      split: if_splits)

lemma int_str_delimited:
  "int_str i @ c # us = int_str j @ d # vs \<Longrightarrow> \<not> is_number_char c \<Longrightarrow> \<not> is_number_char d \<Longrightarrow>
     i = j \<and> us = vs"
  using span_unique [OF int_str_number int_str_number] int_str_inj by blast

end
