(* ===== verification/Environment.thy ===== *)
theory Environment
  imports Enums Json
begin

text \<open>
  What the program takes from outside its own files, as one record of functions that every
  definition using it has as its argument \<open>ext\<close>.  Sources of fresh values are indexed by the number
  of values drawn so far (\<open>draws\<close> in the world, theory \<open>Schema\<close>):
  \<^item> \<open>uuid4\<close>, \<open>utc_now\<close> (microseconds), \<open>unix_time\<close> (\<open>int(time.time())\<close>),
    \<open>token_urlsafe\<close> and \<open>jitter\<close> (\<open>random.uniform(0, 1)\<close>);
  \<^item> \<open>sha256_hex\<close>, \<open>sha256_b64\<close> (the digest in URL-safe base 64) and \<open>hmac_sha256\<close>, the hash
    functions of the standard library, which the development treats as unknown functions;
  \<^item> \<open>fernet_encrypt\<close> (key, draw, plaintext) and \<open>fernet_decrypt\<close> (\<open>None\<close> is
    \<open>InvalidToken\<close>) of the package \<open>cryptography\<close>;
  \<^item> \<open>float_repr\<close>, \<open>iso_datetime\<close>: the texts of floats and of datetimes in JSON;
  \<^item> \<open>py_str\<close>: \<open>str(x)\<close> of a JSON number, list or object;
  \<^item> \<open>email_str\<close>, \<open>http_url\<close>: pydantic's \<open>EmailStr\<close> and \<open>HttpUrl\<close> (\<open>None\<close> on an invalid text,
    else the normalised text);
  \<^item> \<open>json_loads\<close>, \<open>validate_envelope\<close>: parsing and pydantic validation of an event (\<open>None\<close>
    where they raise);
  \<^item> \<open>pydantic_uuid\<close>: how pydantic reads a text that is not the canonical form of a UUID;
  \<^item> \<open>scan_rank\<close>: the order in which the database returns rows by their key where a query has no
    \<open>ORDER BY\<close> (the first argument is the point in time of the query);
  \<^item> \<open>webhook_secret_master_key\<close> and \<open>webhook_max_attempts\<close>, the settings of the deployment.
\<close>

text \<open>\<open>libs/events/forgepay_events/contracts.py\<close>, \<open>EventEnvelope\<close>.\<close>

record event_envelope =
  ev_event_id :: uuid
  ev_event_type :: event_type
  ev_occurred_at :: int
  ev_correlation_id :: uuid
  ev_causation_id :: "uuid option"
  ev_aggregate_id :: uuid
  ev_aggregate_type :: string
  ev_version :: int
  ev_payload :: "(string \<times> json) list"

record ext =
  uuid4 :: "nat \<Rightarrow> uuid"
  utc_now :: "nat \<Rightarrow> int"
  unix_time :: "nat \<Rightarrow> int"
  token_urlsafe :: "nat \<Rightarrow> string"
  jitter :: "nat \<Rightarrow> rat"
  sha256_hex :: "string \<Rightarrow> string"
  sha256_b64 :: "string \<Rightarrow> string"
  hmac_sha256 :: "string \<Rightarrow> string \<Rightarrow> string"
  fernet_encrypt :: "string \<Rightarrow> nat \<Rightarrow> string \<Rightarrow> string"
  fernet_decrypt :: "string \<Rightarrow> string \<Rightarrow> string option"
  float_repr :: "rat \<Rightarrow> string"
  iso_datetime :: "int \<Rightarrow> string"
  py_str :: "json \<Rightarrow> string"
  email_str :: "string \<Rightarrow> string option"
  http_url :: "string \<Rightarrow> string option"
  json_loads :: "string \<Rightarrow> json option"
  validate_envelope :: "json \<Rightarrow> event_envelope option"
  pydantic_uuid :: "string \<Rightarrow> uuid option"
  scan_rank :: "nat \<Rightarrow> uuid \<Rightarrow> nat"
  webhook_secret_master_key :: string
  webhook_max_attempts :: int

text \<open>\<open>str(x)\<close> of a JSON value.\<close>

fun json_str :: "ext \<Rightarrow> json \<Rightarrow> string" where
  "json_str ext (JStr s) = s"
| "json_str ext JNull = ''None''"
| "json_str ext (JBool b) = (if b then ''True'' else ''False'')"
| "json_str ext j = py_str ext j"

text \<open>A field of type \<open>UUID\<close>: the canonical text is accepted, other spellings are left to pydantic.\<close>

definition read_uuid :: "ext \<Rightarrow> string \<Rightarrow> uuid option" where
  "read_uuid ext s = (if uuid_text s then uuid_parse s else pydantic_uuid ext s)"

lemma read_uuid_str [simp]: "read_uuid ext (uuid_str u) = Some u"
  by (simp add: read_uuid_def uuid_text_uuid_str uuid_parse_uuid_str)

section \<open>Event envelopes as JSON\<close>

text \<open>\<open>event.model_dump(mode="json")\<close>.\<close>

definition envelope_dump :: "ext \<Rightarrow> event_envelope \<Rightarrow> json" where
  "envelope_dump ext ev = JObj
     [(''event_id'', JStr (uuid_str (ev_event_id ev))),
      (''event_type'', JStr (event_type_value (ev_event_type ev))),
      (''occurred_at'', JStr (iso_datetime ext (ev_occurred_at ev))),
      (''correlation_id'', JStr (uuid_str (ev_correlation_id ev))),
      (''causation_id'',
        (case ev_causation_id ev of None \<Rightarrow> JNull | Some u \<Rightarrow> JStr (uuid_str u))),
      (''aggregate_id'', JStr (uuid_str (ev_aggregate_id ev))),
      (''aggregate_type'', JStr (ev_aggregate_type ev)),
      (''version'', JInt (ev_version ev)),
      (''payload'', JObj (ev_payload ev))]"

text \<open>
  The documented behaviour the event transport relies on: pydantic reads back what it dumped, and
  \<open>json.loads\<close> reads back what \<open>json.dumps\<close> wrote.
\<close>

definition envelope_round_trip :: "ext \<Rightarrow> bool" where
  "envelope_round_trip ext \<longleftrightarrow>
     (\<forall>ev. json_loads ext (default_json (float_repr ext) (envelope_dump ext ev)) =
              Some (envelope_dump ext ev) \<and>
           validate_envelope ext (envelope_dump ext ev) = Some ev)"

end
