(* ===== verification/Schema.thy ===== *)
theory Schema
  imports Environment
begin

text \<open>
  The database of the payment service: one record per ORM class of
  \<open>services/payment_service/app/infra/models.py\<close>, the constraints the migrations create
  (\<open>alembic/versions\<close>), and the SQL statements the code issues on them.

  Column types are checked as PostgreSQL does: \<open>Integer\<close> is 32 bits wide and \<open>String(n)\<close> holds
  at most \<open>n\<close> characters, a value outside raises \<open>DataError\<close>; a violated primary key, unique,
  foreign key or check constraint raises \<open>IntegrityError\<close>.  A row is inserted when the code adds
  it to the session rather than at the next flush; either way a rejected row aborts the
  transaction.  Rows are kept in heap order and the theorems hold for every such order.
\<close>

section \<open>Rows\<close>

record merchant =
  m_id :: uuid
  m_name :: string
  m_risk_level :: int
  m_created_at :: int

record api_key =
  k_id :: uuid
  k_merchant_id :: uuid
  key_hash :: string
  scopes :: "string list"
  revoked_at :: "int option"
  k_created_at :: int

record customer =
  c_id :: uuid
  c_merchant_id :: uuid
  email :: string
  c_created_at :: int

record account =
  a_id :: uuid
  a_customer_id :: uuid
  a_currency :: string
  a_created_at :: int

record payment =
  p_id :: uuid
  p_merchant_id :: uuid
  p_customer_id :: uuid
  p_amount_minor :: int
  p_currency :: string
  p_status :: string
  captured_amount_minor :: int
  refunded_amount_minor :: int
  provider_reference :: "string option"
  p_version :: int
  p_created_at :: int
  p_updated_at :: int

record refund_row =
  r_id :: uuid
  r_payment_id :: uuid
  r_amount_minor :: int
  r_currency :: string
  r_status :: string
  r_created_at :: int

record ledger_account =
  la_id :: uuid
  owner_id :: uuid
  la_name :: string
  la_currency :: string
  normal_balance :: string
  la_created_at :: int

record journal =
  j_id :: uuid
  reference_type :: string
  reference_id :: uuid
  j_currency :: string
  j_status :: string
  posted_at :: "int option"
  j_created_at :: int

record journal_entry =
  e_id :: uuid
  e_journal_id :: uuid
  ledger_account_id :: uuid
  e_direction :: string
  e_amount_minor :: int
  e_currency :: string
  e_created_at :: int

record idempotency_record =
  i_key :: string
  i_merchant_id :: uuid
  request_fingerprint :: string
  response_status :: "int option"
  response_body :: "json option"
  resource_id :: "uuid option"
  i_created_at :: int

record outbox_event =
  o_event_id :: uuid
  o_aggregate_id :: uuid
  o_aggregate_type :: string
  o_event_type :: string
  o_payload :: json
  o_created_at :: int
  published_at :: "int option"
  retry_count :: int

record processed_event =
  pe_event_id :: uuid
  consumer_name :: string
  processed_at :: int

record webhook_endpoint =
  w_id :: uuid
  w_merchant_id :: uuid
  url :: string
  w_secret_hash :: string
  event_types :: "string list"
  enabled :: bool
  w_created_at :: int

record webhook_secret =
  s_id :: uuid
  s_endpoint_id :: uuid
  s_version :: int
  secret_ciphertext :: string
  s_secret_hash :: string
  active :: bool
  s_created_at :: int
  retired_at :: "int option"

record webhook_delivery =
  d_id :: uuid
  d_endpoint_id :: uuid
  d_event_id :: uuid
  d_status :: string
  attempts :: int
  next_attempt_at :: "int option"
  last_error :: "string option"
  d_created_at :: int

record audit_log =
  l_id :: uuid
  actor :: string
  action :: string
  resource :: string
  l_correlation_id :: uuid
  metadata_json :: json
  l_created_at :: int

record db =
  merchants :: "merchant list"
  api_keys :: "api_key list"
  customers :: "customer list"
  accounts :: "account list"
  payments :: "payment list"
  refunds :: "refund_row list"
  ledger_accounts :: "ledger_account list"
  journals :: "journal list"
  journal_entries :: "journal_entry list"
  idempotency_records :: "idempotency_record list"
  outbox_events :: "outbox_event list"
  processed_events :: "processed_event list"
  webhook_endpoints :: "webhook_endpoint list"
  webhook_secrets :: "webhook_secret list"
  webhook_deliveries :: "webhook_delivery list"
  audit_logs :: "audit_log list"

definition empty_db :: db where
  "empty_db = \<lparr>merchants = [], api_keys = [], customers = [], accounts = [], payments = [],
     refunds = [], ledger_accounts = [], journals = [], journal_entries = [],
     idempotency_records = [], outbox_events = [], processed_events = [], webhook_endpoints = [],
     webhook_secrets = [], webhook_deliveries = [], audit_logs = []\<rparr>"

section \<open>The world of a service process\<close>

text \<open>
  The Prometheus counters of \<open>libs/observability/forgepay_observability/metrics.py\<close> the code
  updates; they live in the process and are not rolled back.
\<close>

record metrics =
  payments_created_total :: nat
  payments_failed_total :: nat
  outbox_pending_total :: nat
  outbox_publish_failures_total :: nat
  webhook_delivery_total :: nat
  webhook_delivery_failures_total :: nat

text \<open>A message on the Kafka topic and a webhook request on the wire.\<close>

record message =
  msg_key :: string
  msg_value :: string

record webhook_post =
  post_url :: string
  post_body :: string
  post_signature :: string
  post_timestamp :: string
  post_correlation_id :: string

text \<open>
  \<open>deferred\<close> queues the row versions for which the deferred constraint trigger on \<open>journals\<close> runs
  at commit; \<open>draws\<close> counts the values taken from the environment; \<open>topic\<close> and \<open>requests\<close>
  are what the workers sent to the broker and to the merchants, which no rollback takes back.
\<close>

record world =
  tables :: db
  deferred :: "journal list"
  draws :: nat
  counters :: metrics
  topic :: "message list"
  requests :: "webhook_post list"

definition initial_metrics :: metrics where
  "initial_metrics = \<lparr>payments_created_total = 0, payments_failed_total = 0,
     outbox_pending_total = 0, outbox_publish_failures_total = 0, webhook_delivery_total = 0,
     webhook_delivery_failures_total = 0\<rparr>"

definition initial_world :: world where
  "initial_world = \<lparr>tables = empty_db, deferred = [], draws = 0,
     counters = initial_metrics, topic = [], requests = []\<rparr>"

type_synonym 'a db_op = "(world, exn, 'a) op"

definition query :: "(db \<Rightarrow> 'a) \<Rightarrow> 'a db_op" where
  "query f = gets_op (\<lambda>w. f (tables w))"

definition execute :: "(db \<Rightarrow> db) \<Rightarrow> unit db_op" where
  "execute f = modify_op (\<lambda>w. w\<lparr>tables := f (tables w)\<rparr>)"

definition count_metric :: "(metrics \<Rightarrow> metrics) \<Rightarrow> unit db_op" where
  "count_metric f = modify_op (\<lambda>w. w\<lparr>counters := f (counters w)\<rparr>)"

text \<open>A value drawn from the environment.\<close>

definition draw :: "(nat \<Rightarrow> 'a) \<Rightarrow> 'a db_op" where
  "draw g = (\<lambda>w. (Inr (g (draws w)), w\<lparr>draws := Suc (draws w)\<rparr>))"

lemma wp_query [wp_simps]: "wp (query f) Q E w = Q (f (tables w)) w"
  by (simp add: query_def wp_simps)

lemma wp_execute [wp_simps]: "wp (execute f) Q E w = Q () (w\<lparr>tables := f (tables w)\<rparr>)"
  by (simp add: execute_def wp_simps)

lemma wp_count_metric [wp_simps]:
  "wp (count_metric f) Q E w = Q () (w\<lparr>counters := f (counters w)\<rparr>)"
  by (simp add: count_metric_def wp_simps)

lemma wp_draw [wp_simps]: "wp (draw g) Q E w = Q (g (draws w)) (w\<lparr>draws := Suc (draws w)\<rparr>)"
  by (simp add: draw_def wp_def)

section \<open>Column types and constraints\<close>

definition int4 :: "int \<Rightarrow> bool" where
  "int4 n \<longleftrightarrow> - (2 ^ 31) \<le> n \<and> n < 2 ^ 31"

definition varchar :: "nat \<Rightarrow> string \<Rightarrow> bool" where
  "varchar n s \<longleftrightarrow> length s \<le> n"

definition merchant_data_ok :: "merchant \<Rightarrow> bool" where
  "merchant_data_ok r \<longleftrightarrow> varchar 200 (m_name r) \<and> int4 (m_risk_level r)"

definition merchant_integrity_ok :: "db \<Rightarrow> merchant \<Rightarrow> bool" where
  "merchant_integrity_ok d r \<longleftrightarrow> m_id r \<notin> m_id ` set (merchants d)"

definition api_key_data_ok :: "api_key \<Rightarrow> bool" where
  "api_key_data_ok r \<longleftrightarrow> varchar 64 (key_hash r)"

definition api_key_integrity_ok :: "db \<Rightarrow> api_key \<Rightarrow> bool" where
  "api_key_integrity_ok d r \<longleftrightarrow>
     k_id r \<notin> k_id ` set (api_keys d) \<and> key_hash r \<notin> key_hash ` set (api_keys d) \<and>
     k_merchant_id r \<in> m_id ` set (merchants d)"

definition customer_data_ok :: "customer \<Rightarrow> bool" where
  "customer_data_ok r \<longleftrightarrow> varchar 320 (email r)"

definition customer_integrity_ok :: "db \<Rightarrow> customer \<Rightarrow> bool" where
  "customer_integrity_ok d r \<longleftrightarrow>
     c_id r \<notin> c_id ` set (customers d) \<and>
     (c_merchant_id r, email r) \<notin> (\<lambda>c. (c_merchant_id c, email c)) ` set (customers d) \<and>
     c_merchant_id r \<in> m_id ` set (merchants d)"

definition account_data_ok :: "account \<Rightarrow> bool" where
  "account_data_ok r \<longleftrightarrow> varchar 3 (a_currency r)"

definition account_integrity_ok :: "db \<Rightarrow> account \<Rightarrow> bool" where
  "account_integrity_ok d r \<longleftrightarrow>
     a_id r \<notin> a_id ` set (accounts d) \<and> a_customer_id r \<in> c_id ` set (customers d)"

definition payment_data_ok :: "payment \<Rightarrow> bool" where
  "payment_data_ok r \<longleftrightarrow>
     int4 (p_amount_minor r) \<and> varchar 3 (p_currency r) \<and> varchar 32 (p_status r) \<and>
     int4 (captured_amount_minor r) \<and> int4 (refunded_amount_minor r) \<and> int4 (p_version r) \<and>
     (case provider_reference r of None \<Rightarrow> True | Some s \<Rightarrow> varchar 80 s)"

definition payment_checks :: "payment \<Rightarrow> bool" where
  "payment_checks r \<longleftrightarrow>
     0 < p_amount_minor r \<and> 0 \<le> captured_amount_minor r \<and> 0 \<le> refunded_amount_minor r"

definition payment_integrity_ok :: "db \<Rightarrow> payment \<Rightarrow> bool" where
  "payment_integrity_ok d r \<longleftrightarrow>
     p_id r \<notin> p_id ` set (payments d) \<and> p_merchant_id r \<in> m_id ` set (merchants d) \<and>
     p_customer_id r \<in> c_id ` set (customers d) \<and> payment_checks r"

definition refund_data_ok :: "refund_row \<Rightarrow> bool" where
  "refund_data_ok r \<longleftrightarrow>
     int4 (r_amount_minor r) \<and> varchar 3 (r_currency r) \<and> varchar 32 (r_status r)"

definition refund_integrity_ok :: "db \<Rightarrow> refund_row \<Rightarrow> bool" where
  "refund_integrity_ok d r \<longleftrightarrow>
     r_id r \<notin> r_id ` set (refunds d) \<and> r_payment_id r \<in> p_id ` set (payments d)"

text \<open>The columns of \<open>uq_ledger_account_owner_name_currency\<close>.\<close>

definition la_key :: "ledger_account \<Rightarrow> uuid \<times> string \<times> string" where
  "la_key r = (owner_id r, la_name r, la_currency r)"

definition ledger_account_data_ok :: "ledger_account \<Rightarrow> bool" where
  "ledger_account_data_ok r \<longleftrightarrow>
     varchar 120 (la_name r) \<and> varchar 3 (la_currency r) \<and> varchar 6 (normal_balance r)"

definition ledger_account_integrity_ok :: "db \<Rightarrow> ledger_account \<Rightarrow> bool" where
  "ledger_account_integrity_ok d r \<longleftrightarrow>
     la_id r \<notin> la_id ` set (ledger_accounts d) \<and>
     normal_balance r \<in> {''DEBIT'', ''CREDIT''}"

definition journal_data_ok :: "journal \<Rightarrow> bool" where
  "journal_data_ok r \<longleftrightarrow>
     varchar 50 (reference_type r) \<and> varchar 3 (j_currency r) \<and> varchar 16 (j_status r)"

definition j_reference :: "journal \<Rightarrow> string \<times> uuid" where
  "j_reference r = (reference_type r, reference_id r)"

definition journal_integrity_ok :: "db \<Rightarrow> journal \<Rightarrow> bool" where
  "journal_integrity_ok d r \<longleftrightarrow>
     j_id r \<notin> j_id ` set (journals d) \<and> j_reference r \<notin> j_reference ` set (journals d) \<and>
     j_status r \<in> {''DRAFT'', ''POSTED''}"

definition entry_data_ok :: "journal_entry \<Rightarrow> bool" where
  "entry_data_ok r \<longleftrightarrow>
     varchar 6 (e_direction r) \<and> int4 (e_amount_minor r) \<and> varchar 3 (e_currency r)"

definition entry_checks :: "db \<Rightarrow> journal_entry \<Rightarrow> bool" where
  "entry_checks d r \<longleftrightarrow>
     e_journal_id r \<in> j_id ` set (journals d) \<and>
     ledger_account_id r \<in> la_id ` set (ledger_accounts d) \<and>
     e_direction r \<in> {''DEBIT'', ''CREDIT''} \<and> 0 < e_amount_minor r"

definition entry_integrity_ok :: "db \<Rightarrow> journal_entry \<Rightarrow> bool" where
  "entry_integrity_ok d r \<longleftrightarrow> e_id r \<notin> e_id ` set (journal_entries d) \<and> entry_checks d r"

definition i_pk :: "idempotency_record \<Rightarrow> string \<times> uuid" where
  "i_pk r = (i_key r, i_merchant_id r)"

definition idempotency_data_ok :: "idempotency_record \<Rightarrow> bool" where
  "idempotency_data_ok r \<longleftrightarrow> varchar 100 (i_key r) \<and> varchar 64 (request_fingerprint r) \<and>
     (case response_status r of None \<Rightarrow> True | Some s \<Rightarrow> int4 s)"

definition outbox_data_ok :: "outbox_event \<Rightarrow> bool" where
  "outbox_data_ok r \<longleftrightarrow>
     varchar 80 (o_aggregate_type r) \<and> varchar 120 (o_event_type r) \<and> int4 (retry_count r)"

definition outbox_integrity_ok :: "db \<Rightarrow> outbox_event \<Rightarrow> bool" where
  "outbox_integrity_ok d r \<longleftrightarrow> o_event_id r \<notin> o_event_id ` set (outbox_events d)"

definition pe_pk :: "processed_event \<Rightarrow> uuid \<times> string" where
  "pe_pk r = (pe_event_id r, consumer_name r)"

definition processed_data_ok :: "processed_event \<Rightarrow> bool" where
  "processed_data_ok r \<longleftrightarrow> varchar 120 (consumer_name r)"

definition endpoint_data_ok :: "webhook_endpoint \<Rightarrow> bool" where
  "endpoint_data_ok r \<longleftrightarrow> varchar 64 (w_secret_hash r)"

definition endpoint_integrity_ok :: "db \<Rightarrow> webhook_endpoint \<Rightarrow> bool" where
  "endpoint_integrity_ok d r \<longleftrightarrow>
     w_id r \<notin> w_id ` set (webhook_endpoints d) \<and> w_merchant_id r \<in> m_id ` set (merchants d)"

definition secret_data_ok :: "webhook_secret \<Rightarrow> bool" where
  "secret_data_ok r \<longleftrightarrow> int4 (s_version r) \<and> varchar 64 (s_secret_hash r)"

text \<open>
  The unique constraint on \<open>(endpoint_id, version)\<close> and the partial unique index
  \<open>uq_webhook_secret_active_endpoint\<close>.
\<close>

definition secret_integrity_ok :: "db \<Rightarrow> webhook_secret \<Rightarrow> bool" where
  "secret_integrity_ok d r \<longleftrightarrow>
     s_id r \<notin> s_id ` set (webhook_secrets d) \<and>
     s_endpoint_id r \<in> w_id ` set (webhook_endpoints d) \<and>
     (\<forall>s \<in> set (webhook_secrets d). s_endpoint_id s = s_endpoint_id r \<longrightarrow>
        s_version s \<noteq> s_version r \<and> \<not> (active s \<and> active r))"

definition delivery_data_ok :: "webhook_delivery \<Rightarrow> bool" where
  "delivery_data_ok r \<longleftrightarrow> varchar 32 (d_status r) \<and> int4 (attempts r)"

definition delivery_integrity_ok :: "db \<Rightarrow> webhook_delivery \<Rightarrow> bool" where
  "delivery_integrity_ok d r \<longleftrightarrow>
     d_id r \<notin> d_id ` set (webhook_deliveries d) \<and>
     (d_endpoint_id r, d_event_id r) \<notin> (\<lambda>x. (d_endpoint_id x, d_event_id x)) ` set (webhook_deliveries d) \<and>
     d_endpoint_id r \<in> w_id ` set (webhook_endpoints d)"

definition audit_data_ok :: "audit_log \<Rightarrow> bool" where
  "audit_data_ok r \<longleftrightarrow>
     varchar 120 (actor r) \<and> varchar 120 (action r) \<and> varchar 160 (resource r)"

definition audit_integrity_ok :: "db \<Rightarrow> audit_log \<Rightarrow> bool" where
  "audit_integrity_ok d r \<longleftrightarrow> l_id r \<notin> l_id ` set (audit_logs d)"

section \<open>Statements\<close>

text \<open>\<open>INSERT\<close> of one row: types, then constraints, then the append.\<close>

definition insert_row ::
  "('r \<Rightarrow> bool) \<Rightarrow> (db \<Rightarrow> 'r \<Rightarrow> bool) \<Rightarrow> ('r \<Rightarrow> db \<Rightarrow> db) \<Rightarrow> 'r \<Rightarrow> unit db_op" where
  "insert_row data_ok integrity_ok put r =
     bind_op (raise_if (\<not> data_ok r) DataError) (\<lambda>_.
     bind_op (query (\<lambda>d. integrity_ok d r)) (\<lambda>ok.
     bind_op (raise_if (\<not> ok) IntegrityError) (\<lambda>_.
     execute (put r))))"

text \<open>
  The \<open>UPDATE\<close> a changed ORM object is flushed with: \<open>f\<close> is the change, \<open>checks\<close> the check
  constraints of the table.
\<close>

definition update_row ::
  "('r \<Rightarrow> 'k) \<Rightarrow> ('r \<Rightarrow> bool) \<Rightarrow> ('r \<Rightarrow> bool) \<Rightarrow> (db \<Rightarrow> 'r list) \<Rightarrow> ('r list \<Rightarrow> db \<Rightarrow> db) \<Rightarrow>
     'k \<Rightarrow> ('r \<Rightarrow> 'r) \<Rightarrow> unit db_op" where
  "update_row key data_ok checks get put k f =
     bind_op (query (\<lambda>d. row_at key k (get d))) (\<lambda>found.
     case found of
       None \<Rightarrow> ret ()
     | Some r \<Rightarrow>
         bind_op (raise_if (\<not> data_ok (f r)) DataError) (\<lambda>_.
         bind_op (raise_if (\<not> checks (f r)) IntegrityError) (\<lambda>_.
         execute (\<lambda>d. put (row_set key k f (get d)) d))))"

lemma wp_insert_row [wp_simps]:
  "wp (insert_row data_ok integrity_ok put r) Q E w =
     (if \<not> data_ok r then E DataError w
      else if \<not> integrity_ok (tables w) r then E IntegrityError w
      else Q () (w\<lparr>tables := put r (tables w)\<rparr>))"
  by (simp add: insert_row_def wp_simps)

lemma wp_update_row [wp_simps]:
  "wp (update_row key data_ok checks get put k f) Q E w =
     (case row_at key k (get (tables w)) of
        None \<Rightarrow> Q () w
      | Some r \<Rightarrow>
          if \<not> data_ok (f r) then E DataError w
          else if \<not> checks (f r) then E IntegrityError w
          else Q () (w\<lparr>tables := put (row_set key k f (get (tables w))) (tables w)\<rparr>))"
  by (simp add: update_row_def wp_simps split: option.split)

definition insert_merchant :: "merchant \<Rightarrow> unit db_op" where
  "insert_merchant = insert_row merchant_data_ok merchant_integrity_ok
     (\<lambda>r d. d\<lparr>merchants := merchants d @ [r]\<rparr>)"

definition insert_api_key :: "api_key \<Rightarrow> unit db_op" where
  "insert_api_key = insert_row api_key_data_ok api_key_integrity_ok
     (\<lambda>r d. d\<lparr>api_keys := api_keys d @ [r]\<rparr>)"

definition insert_customer :: "customer \<Rightarrow> unit db_op" where
  "insert_customer = insert_row customer_data_ok customer_integrity_ok
     (\<lambda>r d. d\<lparr>customers := customers d @ [r]\<rparr>)"

definition insert_account :: "account \<Rightarrow> unit db_op" where
  "insert_account = insert_row account_data_ok account_integrity_ok
     (\<lambda>r d. d\<lparr>accounts := accounts d @ [r]\<rparr>)"

definition insert_payment :: "payment \<Rightarrow> unit db_op" where
  "insert_payment = insert_row payment_data_ok payment_integrity_ok
     (\<lambda>r d. d\<lparr>payments := payments d @ [r]\<rparr>)"

definition update_payment :: "uuid \<Rightarrow> (payment \<Rightarrow> payment) \<Rightarrow> unit db_op" where
  "update_payment = update_row p_id payment_data_ok payment_checks payments
     (\<lambda>t d. d\<lparr>payments := t\<rparr>)"

definition insert_refund :: "refund_row \<Rightarrow> unit db_op" where
  "insert_refund = insert_row refund_data_ok refund_integrity_ok
     (\<lambda>r d. d\<lparr>refunds := refunds d @ [r]\<rparr>)"

definition insert_outbox :: "outbox_event \<Rightarrow> unit db_op" where
  "insert_outbox = insert_row outbox_data_ok outbox_integrity_ok
     (\<lambda>r d. d\<lparr>outbox_events := outbox_events d @ [r]\<rparr>)"

definition update_outbox :: "uuid \<Rightarrow> (outbox_event \<Rightarrow> outbox_event) \<Rightarrow> unit db_op" where
  "update_outbox = update_row o_event_id outbox_data_ok (\<lambda>_. True) outbox_events
     (\<lambda>t d. d\<lparr>outbox_events := t\<rparr>)"

definition insert_endpoint :: "webhook_endpoint \<Rightarrow> unit db_op" where
  "insert_endpoint = insert_row endpoint_data_ok endpoint_integrity_ok
     (\<lambda>r d. d\<lparr>webhook_endpoints := webhook_endpoints d @ [r]\<rparr>)"

definition update_endpoint :: "uuid \<Rightarrow> (webhook_endpoint \<Rightarrow> webhook_endpoint) \<Rightarrow> unit db_op" where
  "update_endpoint = update_row w_id endpoint_data_ok (\<lambda>_. True) webhook_endpoints
     (\<lambda>t d. d\<lparr>webhook_endpoints := t\<rparr>)"

definition insert_secret :: "webhook_secret \<Rightarrow> unit db_op" where
  "insert_secret = insert_row secret_data_ok secret_integrity_ok
     (\<lambda>r d. d\<lparr>webhook_secrets := webhook_secrets d @ [r]\<rparr>)"

definition update_secret :: "uuid \<Rightarrow> (webhook_secret \<Rightarrow> webhook_secret) \<Rightarrow> unit db_op" where
  "update_secret = update_row s_id secret_data_ok (\<lambda>_. True) webhook_secrets
     (\<lambda>t d. d\<lparr>webhook_secrets := t\<rparr>)"

definition insert_delivery :: "webhook_delivery \<Rightarrow> unit db_op" where
  "insert_delivery = insert_row delivery_data_ok delivery_integrity_ok
     (\<lambda>r d. d\<lparr>webhook_deliveries := webhook_deliveries d @ [r]\<rparr>)"

definition update_delivery :: "uuid \<Rightarrow> (webhook_delivery \<Rightarrow> webhook_delivery) \<Rightarrow> unit db_op" where
  "update_delivery = update_row d_id delivery_data_ok (\<lambda>_. True) webhook_deliveries
     (\<lambda>t d. d\<lparr>webhook_deliveries := t\<rparr>)"

definition insert_audit :: "audit_log \<Rightarrow> unit db_op" where
  "insert_audit = insert_row audit_data_ok audit_integrity_ok
     (\<lambda>r d. d\<lparr>audit_logs := audit_logs d @ [r]\<rparr>)"

lemmas statement_defs =
  insert_merchant_def insert_api_key_def insert_customer_def insert_account_def insert_payment_def
  update_payment_def insert_refund_def insert_outbox_def update_outbox_def insert_endpoint_def
  update_endpoint_def insert_secret_def update_secret_def insert_delivery_def update_delivery_def
  insert_audit_def

end
