(* ===== verification/LedgerTables.thy ===== *)
theory LedgerTables
  imports Schema
begin

text \<open>
  The journals and their entries with the triggers that
  \<open>alembic/versions/0002_harden_ledger_and_webhook_secrets.py\<close> installs:
  \<open>enforce_posted_journal_balances\<close>, a constraint trigger deferred to commit, and
  \<open>prevent_posted_journal_mutation\<close>, which runs before each row change.  \<open>atomically\<close> is the block
  \<open>async with session.begin()\<close>: it rolls back on an exception and runs the deferred triggers on
  the way out.  The theory also states what the triggers guarantee against arbitrary SQL.
\<close>

section \<open>Trigger functions\<close>

definition entries_of :: "db \<Rightarrow> uuid \<Rightarrow> journal_entry list" where
  "entries_of d j = filter (\<lambda>e. e_journal_id e = j) (journal_entries d)"

definition entry_total :: "db \<Rightarrow> uuid \<Rightarrow> string \<Rightarrow> int" where
  "entry_total d j dir =
     sum_where (\<lambda>e. e_journal_id e = j \<and> e_direction e = dir) e_amount_minor (journal_entries d)"

definition enforce_posted_journal_balances :: "db \<Rightarrow> journal \<Rightarrow> exn + unit" where
  "enforce_posted_journal_balances d new =
     (if j_status new \<noteq> ''POSTED'' then Inr ()
      else
        let debit_total = entry_total d (j_id new) ''DEBIT'';
            credit_total = entry_total d (j_id new) ''CREDIT'';
            bad_currency_count =
              length (filter (\<lambda>e. e_currency e \<noteq> j_currency new) (entries_of d (j_id new)))
        in if debit_total = 0 \<and> credit_total = 0
           then Inl (RaiseException ''posted journal must have entries'')
           else if debit_total \<noteq> credit_total
           then Inl (RaiseException ''posted journal is unbalanced'')
           else if 0 < bad_currency_count
           then Inl (RaiseException ''posted journal has entries with mismatched currency'')
           else Inr ())"

text \<open>The branch of \<open>prevent_posted_journal_mutation\<close> for the table \<open>journals\<close>.\<close>

definition guard_journal_update :: "journal \<Rightarrow> journal \<Rightarrow> exn + unit" where
  "guard_journal_update old new =
     (if j_status old = ''POSTED'' \<and>
         (reference_type new \<noteq> reference_type old \<or> reference_id new \<noteq> reference_id old \<or>
          j_currency new \<noteq> j_currency old \<or> j_status new \<noteq> j_status old \<or>
          posted_at new \<noteq> posted_at old)
      then Inl (RaiseException ''posted journals are immutable'') else Inr ())"

text \<open>
  For a \<open>DELETE\<close> the branch ends in \<open>return new\<close>, and \<open>new\<close> is null there: PostgreSQL then skips
  the row.  \<open>None\<close> stands for that null.
\<close>

definition guard_journal_delete :: "journal \<Rightarrow> exn + journal option" where
  "guard_journal_delete old =
     (if j_status old = ''POSTED'' then Inl (RaiseException ''posted journals are immutable'')
      else Inr None)"

text \<open>
  The branch for \<open>journal_entries\<close>: \<open>j\<close> is \<open>new.journal_id\<close> for an insert or update and
  \<open>old.journal_id\<close> for a delete.
\<close>

definition guard_entry :: "db \<Rightarrow> uuid \<Rightarrow> exn + unit" where
  "guard_entry d j =
     (if map_option j_status (row_at j_id j (journals d)) = Some ''POSTED''
      then Inl (RaiseException ''posted journal entries are immutable'') else Inr ())"

section \<open>Statements on the ledger tables\<close>

definition defer_check :: "journal \<Rightarrow> unit db_op" where
  "defer_check r = modify_op (\<lambda>w. w\<lparr>deferred := deferred w @ [r]\<rparr>)"

definition insert_journal :: "journal \<Rightarrow> unit db_op" where
  "insert_journal r =
     bind_op (insert_row journal_data_ok journal_integrity_ok
                (\<lambda>r d. d\<lparr>journals := journals d @ [r]\<rparr>) r) (\<lambda>_.
     defer_check r)"

text \<open>
  \<open>UPDATE journals ... WHERE id = k\<close>.  \<open>mentions\<close>: the statement sets the column \<open>status\<close>, so the
  constraint trigger \<open>after ... update of status\<close> fires.
\<close>

definition journal_update_ok :: "db \<Rightarrow> journal \<Rightarrow> journal \<Rightarrow> bool" where
  "journal_update_ok d old new \<longleftrightarrow>
     j_status new \<in> {''DRAFT'', ''POSTED''} \<and>
     (\<forall>x \<in> set (journals d). j_id x \<noteq> j_id old \<longrightarrow>
        j_id x \<noteq> j_id new \<and> j_reference x \<noteq> j_reference new) \<and>
     (j_id new = j_id old \<or> entries_of d (j_id old) = [])"

definition update_journal :: "uuid \<Rightarrow> (journal \<Rightarrow> journal) \<Rightarrow> bool \<Rightarrow> unit db_op" where
  "update_journal k f mentions =
     bind_op (query (\<lambda>d. row_at j_id k (journals d))) (\<lambda>found.
     case found of
       None \<Rightarrow> ret ()
     | Some old \<Rightarrow>
         bind_op (lift_sum (guard_journal_update old (f old))) (\<lambda>_.
         bind_op (raise_if (\<not> journal_data_ok (f old)) DataError) (\<lambda>_.
         bind_op (query (\<lambda>d. journal_update_ok d old (f old))) (\<lambda>ok.
         bind_op (raise_if (\<not> ok) IntegrityError) (\<lambda>_.
         bind_op (execute (\<lambda>d. d\<lparr>journals := row_set j_id k f (journals d)\<rparr>)) (\<lambda>_.
         if mentions \<or> j_status (f old) \<noteq> j_status old then defer_check (f old) else ret ()))))))"

definition delete_journal :: "uuid \<Rightarrow> unit db_op" where
  "delete_journal k =
     bind_op (query (\<lambda>d. row_at j_id k (journals d))) (\<lambda>found.
     case found of
       None \<Rightarrow> ret ()
     | Some old \<Rightarrow>
         bind_op (lift_sum (guard_journal_delete old)) (\<lambda>row.
         case row of
           None \<Rightarrow> ret ()
         | Some _ \<Rightarrow>
             bind_op (query (\<lambda>d. entries_of d k)) (\<lambda>es.
             bind_op (raise_if (es \<noteq> []) IntegrityError) (\<lambda>_.
             execute (\<lambda>d. d\<lparr>journals := filter (\<lambda>j. j_id j \<noteq> k) (journals d)\<rparr>)))))"

definition insert_entry :: "journal_entry \<Rightarrow> unit db_op" where
  "insert_entry r =
     bind_op (raise_if (\<not> entry_data_ok r) DataError) (\<lambda>_.
     bind_op (query (\<lambda>d. guard_entry d (e_journal_id r))) (\<lambda>g.
     bind_op (lift_sum g) (\<lambda>_.
     insert_row (\<lambda>_. True) entry_integrity_ok
       (\<lambda>r d. d\<lparr>journal_entries := journal_entries d @ [r]\<rparr>) r)))"

definition update_entry :: "uuid \<Rightarrow> (journal_entry \<Rightarrow> journal_entry) \<Rightarrow> unit db_op" where
  "update_entry k f =
     bind_op (query (\<lambda>d. row_at e_id k (journal_entries d))) (\<lambda>found.
     case found of
       None \<Rightarrow> ret ()
     | Some old \<Rightarrow>
         bind_op (raise_if (\<not> entry_data_ok (f old)) DataError) (\<lambda>_.
         bind_op (query (\<lambda>d. guard_entry d (e_journal_id (f old)))) (\<lambda>g.
         bind_op (lift_sum g) (\<lambda>_.
         bind_op (query (\<lambda>d. entry_checks d (f old) \<and>
             (\<forall>x \<in> set (journal_entries d). e_id x \<noteq> k \<longrightarrow> e_id x \<noteq> e_id (f old)))) (\<lambda>ok.
         bind_op (raise_if (\<not> ok) IntegrityError) (\<lambda>_.
         execute (\<lambda>d. d\<lparr>journal_entries := row_set e_id k f (journal_entries d)\<rparr>)))))))"

definition delete_entry :: "uuid \<Rightarrow> unit db_op" where
  "delete_entry k =
     bind_op (query (\<lambda>d. row_at e_id k (journal_entries d))) (\<lambda>found.
     case found of
       None \<Rightarrow> ret ()
     | Some old \<Rightarrow>
         bind_op (query (\<lambda>d. guard_entry d (e_journal_id old))) (\<lambda>g.
         bind_op (lift_sum g) (\<lambda>_.
         execute (\<lambda>d. d\<lparr>journal_entries := filter (\<lambda>e. e_id e \<noteq> k) (journal_entries d)\<rparr>))))"

section \<open>Transactions\<close>

fun run_deferred :: "db \<Rightarrow> journal list \<Rightarrow> exn + unit" where
  "run_deferred d [] = Inr ()"
| "run_deferred d (r # rs) =
     bind_sum (enforce_posted_journal_balances d r) (\<lambda>_. run_deferred d rs)"

definition rollback :: "world \<Rightarrow> world \<Rightarrow> world" where
  "rollback before after = after\<lparr>tables := tables before, deferred := []\<rparr>"

definition atomically :: "'a db_op \<Rightarrow> 'a db_op" where
  "atomically m =
     (\<lambda>w. case m (w\<lparr>deferred := []\<rparr>) of
        (Inl e, w') \<Rightarrow> (Inl e, rollback w w')
      | (Inr a, w') \<Rightarrow>
          (case run_deferred (tables w') (deferred w') of
             Inl e \<Rightarrow> (Inl e, rollback w w')
           | Inr _ \<Rightarrow> (Inr a, w'\<lparr>deferred := []\<rparr>)))"

lemma wp_defer_check [wp_simps]:
  "wp (defer_check r) Q E w = Q () (w\<lparr>deferred := deferred w @ [r]\<rparr>)"
  by (simp add: defer_check_def wp_simps)

text \<open>What an atomic block leaves: the old tables, or what the body left if the triggers pass.\<close>

lemma atomically_cases:
  assumes "wp m (\<lambda>a w'. run_deferred (tables w') (deferred w') = Inr () \<longrightarrow> P (tables w'))
              (\<lambda>_ _. True) (w\<lparr>deferred := []\<rparr>)"
    and "P (tables w)"
  shows "P (tables (snd (atomically m w)))"
  using assms by (auto simp: wp_def atomically_def rollback_def split: prod.splits sum.splits)

lemma atomically_raises:
  "atomically m w = (Inl e, w') \<Longrightarrow> tables w' = tables w"
  by (auto simp: atomically_def rollback_def split: prod.splits sum.splits)

lemma atomically_Inr:
  "atomically m w = (Inr a, w') \<longleftrightarrow>
     (\<exists>v. m (w\<lparr>deferred := []\<rparr>) = (Inr a, v) \<and> run_deferred (tables v) (deferred v) = Inr () \<and>
          w' = v\<lparr>deferred := []\<rparr>)"
  by (auto simp: atomically_def split: prod.splits sum.splits)

section \<open>What the triggers guarantee\<close>

text \<open>A journal whose entries balance in its own currency, with at least one entry.\<close>

definition journal_balanced :: "db \<Rightarrow> journal \<Rightarrow> bool" where
  "journal_balanced d j \<longleftrightarrow>
     entry_total d (j_id j) ''DEBIT'' = entry_total d (j_id j) ''CREDIT'' \<and>
     entry_total d (j_id j) ''DEBIT'' \<noteq> 0 \<and>
     (\<forall>e \<in> set (entries_of d (j_id j)). e_currency e = j_currency j)"

definition posted_balanced :: "db \<Rightarrow> bool" where
  "posted_balanced d \<longleftrightarrow>
     (\<forall>j \<in> set (journals d). j_status j = ''POSTED'' \<longrightarrow> journal_balanced d j)"

lemma enforce_Inr:
  "enforce_posted_journal_balances d j = Inr () \<longleftrightarrow>
     (j_status j = ''POSTED'' \<longrightarrow> journal_balanced d j)"
  by (auto simp: enforce_posted_journal_balances_def journal_balanced_def Let_def filter_empty_conv)

lemma run_deferred_Inr:
  "run_deferred d rs = Inr () \<longleftrightarrow>
     (\<forall>r \<in> set rs. j_status r = ''POSTED'' \<longrightarrow> journal_balanced d r)"
  by (induction rs) (auto simp: bind_sum_eq_Inr enforce_Inr)

lemma journal_balanced_cong:
  "entries_of d j = entries_of d' j \<Longrightarrow> j_id x = j \<Longrightarrow> journal_balanced d x = journal_balanced d' x"
proof -
  assume same: "entries_of d j = entries_of d' j" and x: "j_id x = j"
  have total: "entry_total e j dir = sum_where (\<lambda>r. e_direction r = dir) e_amount_minor (entries_of e j)" for e dir
    by (simp add: entry_total_def entries_of_def sum_where_def conj_commute)
  show ?thesis by (simp add: journal_balanced_def x total same)
qed

datatype dml =
    InsertJournal journal
  | UpdateJournal uuid "journal \<Rightarrow> journal" bool
  | DeleteJournal uuid
  | InsertEntry journal_entry
  | UpdateEntry uuid "journal_entry \<Rightarrow> journal_entry"
  | DeleteEntry uuid

fun exec_dml :: "dml \<Rightarrow> unit db_op" where
  "exec_dml (InsertJournal r) = insert_journal r"
| "exec_dml (UpdateJournal k f mentions) = update_journal k f mentions"
| "exec_dml (DeleteJournal k) = delete_journal k"
| "exec_dml (InsertEntry r) = insert_entry r"
| "exec_dml (UpdateEntry k f) = update_entry k f"
| "exec_dml (DeleteEntry k) = delete_entry k"

text \<open>Statements that do not rewrite a journal's id or move an entry to another journal.\<close>

fun keeps_keys :: "dml \<Rightarrow> bool" where
  "keeps_keys (UpdateJournal k f mentions) = (\<forall>r. j_id (f r) = j_id r)"
| "keeps_keys (UpdateEntry k f) = (\<forall>r. e_journal_id (f r) = e_journal_id r)"
| "keeps_keys _ = True"

text \<open>
  The invariant inside a transaction: each posted journal is balanced already or queued for the
  check at commit.
\<close>

definition posted_or_queued :: "world \<Rightarrow> bool" where
  "posted_or_queued w \<longleftrightarrow>
     distinct (map j_id (journals (tables w))) \<and> distinct (map e_id (journal_entries (tables w))) \<and>
     (\<forall>j \<in> set (journals (tables w)). j_status j = ''POSTED'' \<longrightarrow>
        journal_balanced (tables w) j \<or>
        (\<exists>v \<in> set (deferred w). j_id v = j_id j \<and> j_currency v = j_currency j \<and> j_status v = ''POSTED''))"

text \<open>
  What readers see of the posted journals: every immutable column and the entries.  A statement
  that keeps the keys only ever adds to it (\<open>ledger_kept\<close>).
\<close>

definition posted_view :: "db \<Rightarrow> (uuid \<times> (string \<times> uuid) \<times> string \<times> int option \<times> journal_entry list) set" where
  "posted_view d =
     (\<lambda>j. (j_id j, j_reference j, j_currency j, posted_at j, entries_of d (j_id j))) `
       {j \<in> set (journals d). j_status j = ''POSTED''}"

lemma posted_view_entries:
  assumes "\<And>x. x \<in> set (journals d) \<Longrightarrow> j_status x = ''POSTED'' \<Longrightarrow>
     filter (\<lambda>e. e_journal_id e = j_id x) es = filter (\<lambda>e. e_journal_id e = j_id x) (journal_entries d)"
  shows "posted_view (d\<lparr>journal_entries := es\<rparr>) = posted_view d"
  using assms by (auto simp: posted_view_def entries_of_def intro!: image_cong)

definition ledger_kept :: "world \<Rightarrow> world \<Rightarrow> bool" where
  "ledger_kept w w' \<longleftrightarrow> posted_or_queued w' \<and> posted_view (tables w) \<subseteq> posted_view (tables w')"

lemma ledger_kept_refl: "posted_or_queued w \<Longrightarrow> ledger_kept w w"
  by (simp add: ledger_kept_def)

lemma ledger_kept_trans: "ledger_kept u v \<Longrightarrow> ledger_kept v w \<Longrightarrow> ledger_kept u w"
  by (auto simp: ledger_kept_def)

lemma balanced_only_key:
  "j_id x = j_id y \<Longrightarrow> j_currency x = j_currency y \<Longrightarrow> journal_balanced d x = journal_balanced d y"
  by (simp add: journal_balanced_def)

lemma entries_of_append:
  "entries_of (d\<lparr>journal_entries := journal_entries d @ [r]\<rparr>) j =
     entries_of d j @ (if e_journal_id r = j then [r] else [])"
  by (simp add: entries_of_def)

lemma entries_of_journals [simp]: "entries_of (d\<lparr>journals := t\<rparr>) j = entries_of d j"
  by (simp add: entries_of_def)

lemma journal_balanced_journals [simp]: "journal_balanced (d\<lparr>journals := t\<rparr>) x = journal_balanced d x"
  by (rule journal_balanced_cong [where j = "j_id x"]) simp_all

lemma guard_entry_Inr_not_posted:
  assumes "guard_entry d j = Inr ()" and "distinct (map j_id (journals d))"
    and "x \<in> set (journals d)" and "j_status x = ''POSTED''"
  shows "j_id x \<noteq> j"
proof
  assume "j_id x = j"
  then have "row_at j_id j (journals d) = Some x" using assms by (simp add: row_at_Some_iff)
  with assms show False by (simp add: guard_entry_def)
qed

text \<open>A change of the entries that leaves the posted journals' entries alone keeps the invariant.\<close>

lemma ledger_kept_entries:
  assumes "posted_or_queued w" and "distinct (map e_id es)"
    and "\<And>x. x \<in> set (journals (tables w)) \<Longrightarrow> j_status x = ''POSTED'' \<Longrightarrow>
           filter (\<lambda>e. e_journal_id e = j_id x) es =
           filter (\<lambda>e. e_journal_id e = j_id x) (journal_entries (tables w))"
  shows "ledger_kept w (w\<lparr>tables := (tables w)\<lparr>journal_entries := es\<rparr>\<rparr>)"
proof -
  have "journal_balanced ((tables w)\<lparr>journal_entries := es\<rparr>) x = journal_balanced (tables w) x"
    if "x \<in> set (journals (tables w))" "j_status x = ''POSTED''" for x
    using assms(3) [OF that]
    by (intro journal_balanced_cong [where j = "j_id x"]) (simp_all add: entries_of_def)
  then show ?thesis
    using assms(1,2) posted_view_entries [OF assms(3)]
    by (simp add: ledger_kept_def posted_or_queued_def)
qed

lemma not_posted_key:
  assumes "posted_or_queued w" and "guard_entry (tables w) j = Inr ()"
    and "x \<in> set (journals (tables w))" and "j_status x = ''POSTED''"
  shows "j_id x \<noteq> j"
  using assms guard_entry_Inr_not_posted by (auto simp: posted_or_queued_def)

lemma update_journal_inv:
  assumes inv: "posted_or_queued w" and old: "row_at j_id k (journals (tables w)) = Some old"
    and guard: "guard_journal_update old (f old) = Inr ()" and key: "\<And>r. j_id (f r) = j_id r"
  shows "ledger_kept w (w\<lparr>tables := (tables w)\<lparr>journals := row_set j_id k f (journals (tables w))\<rparr>,
           deferred := deferred w @ (if mentions \<or> j_status (f old) \<noteq> j_status old then [f old] else [])\<rparr>)"
proof -
  have d: "distinct (map j_id (journals (tables w)))" using inv by (simp add: posted_or_queued_def)
  note rows = in_set_row_set [OF d old, of _ f]
  have o: "old \<in> set (journals (tables w))" "j_id old = k" using row_at_SomeD [OF old] by auto
  let ?new = "w\<lparr>tables := (tables w)\<lparr>journals := row_set j_id k f (journals (tables w))\<rparr>,
      deferred := deferred w @ (if mentions \<or> j_status (f old) \<noteq> j_status old then [f old] else [])\<rparr>"
  let ?ok = "\<lambda>w j. journal_balanced (tables w) j \<or>
      (\<exists>v \<in> set (deferred w). j_id v = j_id j \<and> j_currency v = j_currency j \<and> j_status v = ''POSTED'')"
  have inv': "?ok w j" if "j \<in> set (journals (tables w))" "j_status j = ''POSTED''" for j
    using inv that by (simp add: posted_or_queued_def)
  have grows: "?ok w j \<Longrightarrow> ?ok ?new j" for j by auto
  have "?ok ?new (f old)" if p: "j_status (f old) = ''POSTED''"
  proof (cases "j_status old = ''POSTED''")
    case True
    with guard have cur: "j_currency (f old) = j_currency old"
      by (auto simp: guard_journal_update_def split: if_splits)
    have "?ok ?new old" by (rule grows [OF inv' [OF o(1) True]])
    then show ?thesis
      using balanced_only_key [of "f old" old "tables ?new"] key [of old] cur by presburger
  next
    case False
    with p show ?thesis by auto
  qed
  moreover have "?ok ?new j" if "j \<in> set (journals (tables w))" "j_status j = ''POSTED''" for j
    by (rule grows [OF inv' [OF that]])
  ultimately have "\<forall>j \<in> set (journals (tables ?new)). j_status j = ''POSTED'' \<longrightarrow> ?ok ?new j"
    using rows by (metis (no_types, lifting) db.select_convs(8) db.update_convs(8) db.surjective
        world.select_convs(1) world.update_convs(1) world.surjective world.update_convs(2))
  then have "posted_or_queued ?new"
    using inv by (simp add: posted_or_queued_def map_key_row_set [of j_id f, OF key])
  moreover have "posted_view (tables w) \<subseteq> posted_view (tables ?new)"
  proof
    fix v assume "v \<in> posted_view (tables w)"
    then obtain j where j: "j \<in> set (journals (tables w))" "j_status j = ''POSTED''"
      and v: "v = (j_id j, j_reference j, j_currency j, posted_at j, entries_of (tables w) (j_id j))"
      by (auto simp: posted_view_def)
    define j' where "j' = (if j_id j = k then f j else j)"
    have "j' \<in> set (row_set j_id k f (journals (tables w)))"
      using j by (auto simp: j'_def row_set_def image_iff)
    moreover have "j = old" if "j_id j = k" using d old j(1) that by (metis row_at_Some_iff option.inject)
    then have "j_status j' = ''POSTED'' \<and> v = (j_id j', j_reference j', j_currency j', posted_at j',
        entries_of (tables w) (j_id j'))"
      using j guard v key by (auto simp: j'_def j_reference_def guard_journal_update_def split: if_splits)
    ultimately show "v \<in> posted_view (tables ?new)" by (auto simp: posted_view_def image_iff)
  qed
  ultimately show ?thesis by (simp add: ledger_kept_def)
qed

lemma exec_dml_inv:
  assumes inv: "posted_or_queued w" and "keeps_keys q"
  shows "wp (exec_dml q) (\<lambda>_. ledger_kept w) (\<lambda>_ _. True) w"
proof (cases q)
  case (InsertJournal r)
  with inv show ?thesis
    by (auto simp: ledger_kept_def posted_view_def posted_or_queued_def insert_journal_def wp_simps
        journal_integrity_ok_def)
next
  case (UpdateJournal k f mentions)
  then show ?thesis
    using update_journal_inv [OF inv, of k _ f mentions] assms(2)
    by (auto simp: update_journal_def wp_simps ledger_kept_refl [OF inv] split: option.split sum.split)
next
  case (DeleteJournal k)
  then show ?thesis
    by (simp add: delete_journal_def guard_journal_delete_def wp_simps ledger_kept_refl [OF inv]
        split: option.split)
next
  case (InsertEntry r)
  show ?thesis
  proof (clarsimp simp: InsertEntry insert_entry_def wp_simps split: sum.split)
    let ?es = "journal_entries (tables w)"
    assume g: "guard_entry (tables w) (e_journal_id r) = Inr ()" and ok: "entry_integrity_ok (tables w) r"
    have d: "distinct (map e_id ?es)" using inv by (simp add: posted_or_queued_def)
    show "ledger_kept w (w\<lparr>tables := (tables w)\<lparr>journal_entries := ?es @ [r]\<rparr>\<rparr>)"
    proof (rule ledger_kept_entries [OF inv])
      show "distinct (map e_id (?es @ [r]))" using d ok by (simp add: entry_integrity_ok_def)
      show "filter (\<lambda>e. e_journal_id e = j_id x) (?es @ [r]) = filter (\<lambda>e. e_journal_id e = j_id x) ?es"
        if "x \<in> set (journals (tables w))" "j_status x = ''POSTED''" for x
        using not_posted_key [OF inv g that] by simp
    qed
  qed
next
  case (UpdateEntry k f)
  then have key: "e_journal_id (f r) = e_journal_id r" for r using assms(2) by simp
  show ?thesis
  proof (clarsimp simp: UpdateEntry update_entry_def wp_simps ledger_kept_refl [OF inv] split: option.split sum.split)
    fix old
    let ?es = "journal_entries (tables w)"
    assume old: "row_at e_id k ?es = Some old" and g: "guard_entry (tables w) (e_journal_id (f old)) = Inr ()"
      and free: "\<forall>x \<in> set ?es. e_id x = k \<or> e_id x \<noteq> e_id (f old)"
    have d: "distinct (map e_id ?es)" using inv by (simp add: posted_or_queued_def)
    have only: "e = old" if "e \<in> set ?es" "e_id e = k" for e
      using d old that by (metis row_at_Some_iff option.inject)
    have "distinct (map e_id (row_set e_id k f ?es))"
      using d only free by (auto simp: row_set_def distinct_map inj_on_def)
    then show "ledger_kept w (w\<lparr>tables := (tables w)\<lparr>journal_entries := row_set e_id k f ?es\<rparr>\<rparr>)"
    proof (rule ledger_kept_entries [OF inv])
      fix x assume x: "x \<in> set (journals (tables w))" "j_status x = ''POSTED''"
      have "e_journal_id old \<noteq> j_id x" using not_posted_key [OF inv g x] key by simp
      then show "filter (\<lambda>e. e_journal_id e = j_id x) (row_set e_id k f ?es) =
          filter (\<lambda>e. e_journal_id e = j_id x) ?es"
        using only key by (intro filter_row_set) fastforce+
    qed
  qed
next
  case (DeleteEntry k)
  show ?thesis
  proof (clarsimp simp: DeleteEntry delete_entry_def wp_simps ledger_kept_refl [OF inv] split: option.split sum.split)
    fix old
    let ?es = "journal_entries (tables w)"
    assume old: "row_at e_id k ?es = Some old" and g: "guard_entry (tables w) (e_journal_id old) = Inr ()"
    have d: "distinct (map e_id ?es)" using inv by (simp add: posted_or_queued_def)
    have only: "e = old" if "e \<in> set ?es" "e_id e = k" for e
      using d old that by (metis row_at_Some_iff option.inject)
    show "ledger_kept w (w\<lparr>tables := (tables w)\<lparr>journal_entries := filter (\<lambda>e. e_id e \<noteq> k) ?es\<rparr>\<rparr>)"
    proof (rule ledger_kept_entries [OF inv])
      show "distinct (map e_id (filter (\<lambda>e. e_id e \<noteq> k) ?es))" using d by (rule distinct_map_filter)
      fix x assume x: "x \<in> set (journals (tables w))" "j_status x = ''POSTED''"
      have "e_journal_id old \<noteq> j_id x" using not_posted_key [OF inv g x] by simp
      then show "filter (\<lambda>e. e_journal_id e = j_id x) (filter (\<lambda>e. e_id e \<noteq> k) ?es) =
          filter (\<lambda>e. e_journal_id e = j_id x) ?es"
        using only by (auto simp: intro!: filter_cong)
    qed
  qed
qed

section \<open>Committed transactions\<close>

definition dml_transaction :: "dml list \<Rightarrow> unit db_op" where
  "dml_transaction qs = atomically (for_each qs exec_dml)"

lemma dml_transaction_kept:
  assumes "\<And>q. q \<in> set qs \<Longrightarrow> keeps_keys q" and "posted_or_queued w"
  shows "wp (for_each qs exec_dml) (\<lambda>_. ledger_kept w) (\<lambda>_ _. True) w"
proof (rule wp_for_each)
  fix q v assume q: "q \<in> set qs" and v: "ledger_kept w v"
  then have "wp (exec_dml q) (\<lambda>_. ledger_kept v) (\<lambda>_ _. True) v"
    using assms(1) by (intro exec_dml_inv) (simp_all add: ledger_kept_def)
  then show "wp (exec_dml q) (\<lambda>_. ledger_kept w) (\<lambda>_ _. True) v"
    by (rule wp_mono) (use v ledger_kept_trans in blast)+
qed (simp add: ledger_kept_refl assms(2))

definition ledger_tables_ok :: "db \<Rightarrow> bool" where
  "ledger_tables_ok d \<longleftrightarrow>
     distinct (map j_id (journals d)) \<and> distinct (map e_id (journal_entries d)) \<and> posted_balanced d"

text \<open>At commit the queue has been checked, so what was queued is balanced.\<close>

lemma posted_or_queued_commit:
  "posted_or_queued w \<Longrightarrow> run_deferred (tables w) (deferred w) = Inr () \<Longrightarrow> ledger_tables_ok (tables w)"
  unfolding posted_or_queued_def ledger_tables_ok_def posted_balanced_def run_deferred_Inr
  by (metis balanced_only_key)

lemma posted_or_queued_begin:
  "ledger_tables_ok (tables w) \<Longrightarrow> posted_or_queued (w\<lparr>deferred := []\<rparr>)"
  by (simp add: posted_or_queued_def ledger_tables_ok_def posted_balanced_def)

text \<open>
  C9: whatever SQL a transaction runs on the ledger tables, as long as it rewrites no journal id and
  moves no entry to another journal, after the commit or the rollback every posted journal is
  balanced in its own currency with at least one entry, and every journal that was posted before is
  still there with the same columns and the same entries.
\<close>

theorem posted_journals_immutable_and_balanced:
  assumes "list_all keeps_keys qs" and "ledger_tables_ok (tables w)"
  shows "ledger_tables_ok (tables (snd (dml_transaction qs w))) \<and>
     posted_view (tables w) \<subseteq> posted_view (tables (snd (dml_transaction qs w)))"
  unfolding dml_transaction_def
proof (rule atomically_cases)
  have "wp (for_each qs exec_dml) (\<lambda>_. ledger_kept (w\<lparr>deferred := []\<rparr>)) (\<lambda>_ _. True) (w\<lparr>deferred := []\<rparr>)"
    using assms by (intro dml_transaction_kept posted_or_queued_begin) (auto simp: list_all_iff)
  then show "wp (for_each qs exec_dml)
      (\<lambda>_ w'. run_deferred (tables w') (deferred w') = Inr () \<longrightarrow>
         ledger_tables_ok (tables w') \<and> posted_view (tables w) \<subseteq> posted_view (tables w'))
      (\<lambda>_ _. True) (w\<lparr>deferred := []\<rparr>)"
    by (rule wp_mono) (auto simp: ledger_kept_def intro: posted_or_queued_commit)
qed (use assms in simp)

text \<open>A small ledger: journal 1 is posted with two entries, journal 2 is a draft.\<close>

definition sample_ledger :: db where
  "sample_ledger = empty_db\<lparr>
     ledger_accounts := [\<lparr>la_id = 20, owner_id = 30, la_name = ''customer'', la_currency = ''EUR'',
       normal_balance = ''CREDIT'', la_created_at = 0\<rparr>],
     journals :=
       [\<lparr>j_id = 1, reference_type = ''funding'', reference_id = 40, j_currency = ''EUR'',
         j_status = ''POSTED'', posted_at = Some 0, j_created_at = 0\<rparr>,
        \<lparr>j_id = 2, reference_type = ''manual'', reference_id = 41, j_currency = ''EUR'',
         j_status = ''DRAFT'', posted_at = None, j_created_at = 0\<rparr>],
     journal_entries :=
       [\<lparr>e_id = 10, e_journal_id = 1, ledger_account_id = 20, e_direction = ''DEBIT'',
         e_amount_minor = 5, e_currency = ''EUR'', e_created_at = 0\<rparr>,
        \<lparr>e_id = 11, e_journal_id = 1, ledger_account_id = 20, e_direction = ''CREDIT'',
         e_amount_minor = 5, e_currency = ''EUR'', e_created_at = 0\<rparr>]\<rparr>"

definition sample_ledger_world :: world where
  "sample_ledger_world = initial_world\<lparr>tables := sample_ledger\<rparr>"

lemma sample_ledger_ok: "ledger_tables_ok (tables sample_ledger_world)"
  by (simp add: sample_ledger_world_def sample_ledger_def ledger_tables_ok_def posted_balanced_def
      journal_balanced_def entry_total_def entries_of_def)

lemma posted_journals_immutable_and_balanced_witness:
  "ledger_tables_ok (tables (snd (dml_transaction [DeleteEntry 11, DeleteJournal 2] sample_ledger_world)))"
  using posted_journals_immutable_and_balanced
    [of "[DeleteEntry 11, DeleteJournal 2]" sample_ledger_world] sample_ledger_ok
  by simp

definition move_entry :: "journal_entry \<Rightarrow> journal_entry" where
  "move_entry e = e\<lparr>e_journal_id := 2\<rparr>"

text \<open>
  C10: the hypothesis on moved entries cannot be dropped.  The trigger looks up only
  \<open>new.journal_id\<close>, so one \<open>UPDATE\<close> moves an entry of a posted journal into a draft, the
  transaction commits, and the posted journal is unbalanced.
\<close>

theorem moved_entry_unbalances_posted_journal:
  "fst (dml_transaction [UpdateEntry 11 move_entry] sample_ledger_world) = Inr () \<and>
   ledger_tables_ok (tables sample_ledger_world) \<and>
   \<not> posted_balanced (tables (snd (dml_transaction [UpdateEntry 11 move_entry] sample_ledger_world)))"
proof -
  let ?j = "\<lparr>e_id = 11, e_journal_id = 2, ledger_account_id = 20, e_direction = ''CREDIT'',
         e_amount_minor = 5, e_currency = ''EUR'', e_created_at = 0\<rparr>"
  let ?w = "sample_ledger_world\<lparr>tables := sample_ledger
     \<lparr>journal_entries := [hd (journal_entries sample_ledger), ?j]\<rparr>\<rparr>"
  have "wp (for_each [UpdateEntry 11 move_entry] exec_dml)
      (\<lambda>a w'. a = () \<and> w' = ?w) (\<lambda>_ _. False) (sample_ledger_world\<lparr>deferred := []\<rparr>)"
    by (simp add: update_entry_def wp_simps sample_ledger_world_def sample_ledger_def initial_world_def
        row_simps row_set_def move_entry_def entry_data_ok_def varchar_def int4_def guard_entry_def
        entry_checks_def)
  then have run: "for_each [UpdateEntry 11 move_entry] exec_dml (sample_ledger_world\<lparr>deferred := []\<rparr>) = (Inr (), ?w)"
    by (simp only: wp_eq_result)
  have "deferred ?w = []" by (simp add: sample_ledger_world_def initial_world_def)
  then have "dml_transaction [UpdateEntry 11 move_entry] sample_ledger_world = (Inr (), ?w)"
    using run by (simp add: dml_transaction_def atomically_Inr del: for_each.simps)
  moreover have "\<not> posted_balanced (tables ?w)"
    by (simp add: posted_balanced_def journal_balanced_def entry_total_def sample_ledger_def)
  ultimately show ?thesis using sample_ledger_ok by simp
qed

text \<open>
  A \<open>DELETE\<close> of a journal never removes it: a posted one raises, and a draft is skipped
  because the trigger returns the null \<open>new\<close>.
\<close>

theorem delete_journal_never_deletes:
  "tables (snd (delete_journal k w)) = tables w \<and>
   (fst (delete_journal k w) = Inr () \<longleftrightarrow>
      map_option j_status (row_at j_id k (journals (tables w))) \<noteq> Some ''POSTED'')"
  by (auto simp: delete_journal_def guard_journal_delete_def query_def gets_op_def bind_op_def
      lift_sum_def ret_def split: option.split)

end
