(* ===== verification/Money.thy ===== *)
theory Money
  imports Enums
begin

text \<open>
  \<open>libs/common/forgepay_common/money.py\<close> and \<open>services/payment_service/app/domain/ledger.py\<close>:
  amounts in minor units, ledger lines, the balance check, and the three line builders of the
  domain.  A pydantic model is a record with a constructor that raises \<open>ValidationError\<close>.
\<close>

section \<open>Money\<close>

record money =
  amount_minor :: int
  money_currency :: currency

text \<open>\<open>Money(amount_minor=..., currency=...)\<close> with \<open>Field(gt=0)\<close>.\<close>

definition Money :: "int \<Rightarrow> currency \<Rightarrow> exn + money" where
  "Money n c = (if 0 < n then Inr \<lparr>amount_minor = n, money_currency = c\<rparr> else Inl ValidationError)"

definition ensure_same_currency :: "money \<Rightarrow> money \<Rightarrow> exn + unit" where
  "ensure_same_currency self other =
     (if money_currency self \<noteq> money_currency other
      then Inl (ValueError ''cross-currency movement is not supported'') else Inr ())"

definition money_add :: "money \<Rightarrow> money \<Rightarrow> exn + money" where
  "money_add self other =
     bind_sum (ensure_same_currency self other) (\<lambda>_.
       Money (amount_minor self + amount_minor other) (money_currency self))"

definition money_sub :: "money \<Rightarrow> money \<Rightarrow> exn + money" where
  "money_sub self other =
     bind_sum (ensure_same_currency self other) (\<lambda>_.
       let v = amount_minor self - amount_minor other in
       if v < 0 then Inl (ValueError ''money cannot become negative'')
       else Money v (money_currency self))"

section \<open>Ledger lines\<close>

record ledger_line =
  line_account :: string
  direction :: string
  line_money :: money

text \<open>\<open>LedgerLine(...)\<close> and its validator.\<close>

definition LedgerLine :: "string \<Rightarrow> string \<Rightarrow> money \<Rightarrow> exn + ledger_line" where
  "LedgerLine acc dir m =
     (if dir \<notin> {''DEBIT'', ''CREDIT''} then Inl ValidationError
      else Inr \<lparr>line_account = acc, direction = dir, line_money = m\<rparr>)"

definition direction_sum :: "string \<Rightarrow> ledger_line list \<Rightarrow> int" where
  "direction_sum d lines = sum_where (\<lambda>l. direction l = d) (\<lambda>l. amount_minor (line_money l)) lines"

definition assert_balanced :: "ledger_line list \<Rightarrow> exn + unit" where
  "assert_balanced lines =
     (if length lines < 2 then Inl (ValueError ''a journal needs at least two lines'')
      else if card ((\<lambda>l. money_currency (line_money l)) ` set lines) \<noteq> 1
      then Inl (ValueError ''cross-currency journal entries are rejected'')
      else if direction_sum ''DEBIT'' lines \<noteq> direction_sum ''CREDIT'' lines
      then Inl (ValueError ''journal is not balanced'')
      else Inr ())"

section \<open>Line builders of the domain\<close>

definition two_lines :: "money \<Rightarrow> string \<Rightarrow> string \<Rightarrow> exn + ledger_line list" where
  "two_lines amount debited credited =
     bind_sum (LedgerLine debited ''DEBIT'' amount) (\<lambda>d.
     bind_sum (LedgerLine credited ''CREDIT'' amount) (\<lambda>c.
     bind_sum (assert_balanced [d, c]) (\<lambda>_. Inr [d, c])))"

definition simulated_funding :: "money \<Rightarrow> string \<Rightarrow> string \<Rightarrow> exn + ledger_line list" where
  "simulated_funding amount customer_account funding_account =
     two_lines amount customer_account funding_account"

definition capture :: "money \<Rightarrow> string \<Rightarrow> string \<Rightarrow> exn + ledger_line list" where
  "capture amount customer_account merchant_account =
     two_lines amount merchant_account customer_account"

definition refund :: "money \<Rightarrow> string \<Rightarrow> string \<Rightarrow> exn + ledger_line list" where
  "refund amount merchant_account customer_account =
     two_lines amount customer_account merchant_account"

section \<open>Facts\<close>

lemma two_lines_eq:
  "two_lines m d c =
     Inr [\<lparr>line_account = d, direction = ''DEBIT'', line_money = m\<rparr>,
          \<lparr>line_account = c, direction = ''CREDIT'', line_money = m\<rparr>]"
  by (simp add: two_lines_def LedgerLine_def assert_balanced_def direction_sum_def)

lemmas line_builders = simulated_funding_def capture_def refund_def two_lines_eq

lemma assert_balanced_ok_iff:
  "assert_balanced lines = Inr () \<longleftrightarrow>
     2 \<le> length lines \<and> (\<exists>c. \<forall>l \<in> set lines. money_currency (line_money l) = c) \<and>
     direction_sum ''DEBIT'' lines = direction_sum ''CREDIT'' lines"
proof -
  have "card ((\<lambda>l. money_currency (line_money l)) ` set lines) = 1 \<longleftrightarrow>
      (\<exists>c. \<forall>l \<in> set lines. money_currency (line_money l) = c)" if "2 \<le> length lines"
  proof -
    have "lines \<noteq> []" using that by auto
    then have "(f ` set lines = {c}) \<longleftrightarrow> (\<forall>l \<in> set lines. f l = c)" for f :: "ledger_line \<Rightarrow> currency" and c
      by (cases lines) auto
    then show ?thesis by (simp add: card_1_singleton_iff)
  qed
  then show ?thesis by (auto simp: assert_balanced_def)
qed

lemma money_add_ok_iff:
  "money_add a b = Inr m \<longleftrightarrow>
     money_currency a = money_currency b \<and> 0 < amount_minor a + amount_minor b \<and>
     m = \<lparr>amount_minor = amount_minor a + amount_minor b, money_currency = money_currency a\<rparr>"
  by (auto simp: money_add_def ensure_same_currency_def Money_def)

lemma money_sub_ok_iff:
  "money_sub a b = Inr m \<longleftrightarrow>
     money_currency a = money_currency b \<and> amount_minor b < amount_minor a \<and>
     m = \<lparr>amount_minor = amount_minor a - amount_minor b, money_currency = money_currency a\<rparr>"
  by (auto simp: money_sub_def ensure_same_currency_def Money_def Let_def)

end
