(* ===== verification/Security.thy ===== *)
theory Security
  imports Environment
begin

text \<open>
  \<open>libs/security/forgepay_security\<close>: API keys, request fingerprints, webhook signatures and the
  encryption of webhook secrets, over the hash functions and the cipher of the environment.
\<close>

section \<open>API keys\<close>

definition hash_secret :: "ext \<Rightarrow> string \<Rightarrow> string" where
  "hash_secret ext secret = sha256_hex ext secret"

text \<open>\<open>n\<close> is the draw that \<open>secrets.token_urlsafe\<close> takes.\<close>

definition generate_api_key :: "ext \<Rightarrow> nat \<Rightarrow> bool \<Rightarrow> string \<times> string" where
  "generate_api_key ext n live =
     (let prefix = (if live then ''fg_live'' else ''fg_test'');
          raw = prefix @ ''_'' @ token_urlsafe ext n
      in (raw, hash_secret ext raw))"

text \<open>\<open>hmac.compare_digest\<close> on two strings: \<open>TypeError\<close> unless both are ASCII.\<close>

definition compare_digest :: "string \<Rightarrow> string \<Rightarrow> exn + bool" where
  "compare_digest a b =
     (if list_all (\<lambda>c. of_char c < (128 :: nat)) (a @ b) then Inr (a = b) else Inl TypeError)"

definition verify_secret :: "ext \<Rightarrow> string \<Rightarrow> string \<Rightarrow> exn + bool" where
  "verify_secret ext secret digest = compare_digest (hash_secret ext secret) digest"

section \<open>Fingerprints\<close>

definition canonical_fingerprint :: "ext \<Rightarrow> json \<Rightarrow> string" where
  "canonical_fingerprint ext payload = sha256_hex ext (canonical_json (float_repr ext) payload)"

section \<open>Webhook signatures\<close>

definition signed_message :: "int \<Rightarrow> string \<Rightarrow> string" where
  "signed_message timestamp body = int_str timestamp @ ''.'' @ body"

definition sign_webhook :: "ext \<Rightarrow> string \<Rightarrow> int \<Rightarrow> string \<Rightarrow> string" where
  "sign_webhook ext secret timestamp body =
     ''t='' @ int_str timestamp @ '',v1='' @
     hmac_sha256 ext secret (signed_message timestamp body)"

text \<open>\<open>now\<close> is \<open>int(time.time())\<close>.\<close>

definition verify_webhook ::
  "ext \<Rightarrow> int \<Rightarrow> string \<Rightarrow> string \<Rightarrow> int \<Rightarrow> string \<Rightarrow> int \<Rightarrow> exn + bool" where
  "verify_webhook ext now secret signature timestamp body tolerance_seconds =
     (if tolerance_seconds < \<bar>now - timestamp\<bar> then Inr False
      else compare_digest (sign_webhook ext secret timestamp body) signature)"

text \<open>Hexadecimal digests are ASCII.\<close>

definition ascii_digests :: "ext \<Rightarrow> bool" where
  "ascii_digests ext \<longleftrightarrow> (\<forall>k m. list_all (\<lambda>c. of_char c < (128 :: nat)) (hmac_sha256 ext k m))"

section \<open>Webhook secrets\<close>

definition generate_webhook_secret :: "ext \<Rightarrow> nat \<Rightarrow> string" where
  "generate_webhook_secret ext n = ''whsec_'' @ token_urlsafe ext n"

definition fernet_key :: "ext \<Rightarrow> string \<Rightarrow> string" where
  "fernet_key ext master_key = sha256_b64 ext master_key"

definition encrypt_secret :: "ext \<Rightarrow> nat \<Rightarrow> string \<Rightarrow> string \<Rightarrow> string" where
  "encrypt_secret ext n secret master_key = fernet_encrypt ext (fernet_key ext master_key) n secret"

definition decrypt_secret :: "ext \<Rightarrow> string \<Rightarrow> string \<Rightarrow> exn + string" where
  "decrypt_secret ext ciphertext master_key =
     (case fernet_decrypt ext (fernet_key ext master_key) ciphertext of
        None \<Rightarrow> Inl InvalidToken | Some s \<Rightarrow> Inr s)"

text \<open>Documented behaviour of Fernet: a token decrypts under its key to the plaintext.\<close>

definition fernet_round_trip :: "ext \<Rightarrow> bool" where
  "fernet_round_trip ext \<longleftrightarrow> (\<forall>k n s. fernet_decrypt ext k (fernet_encrypt ext k n s) = Some s)"

section \<open>Facts\<close>

text \<open>
  An authenticator with a freshness window: what was signed is accepted inside the window, nothing is
  accepted outside it, and at most one signature is accepted for a message.
\<close>

locale authenticator =
  fixes sign :: "'k \<Rightarrow> int \<Rightarrow> 'm \<Rightarrow> 's"
    and accepted :: "int \<Rightarrow> 'k \<Rightarrow> 's \<Rightarrow> int \<Rightarrow> 'm \<Rightarrow> int \<Rightarrow> bool"
  assumes accepted_sound: "accepted now k sig ts m tol \<Longrightarrow> \<bar>now - ts\<bar> \<le> tol \<and> sig = sign k ts m"
begin

lemma stale_rejected: "tol < \<bar>now - ts\<bar> \<Longrightarrow> \<not> accepted now k sig ts m tol"
  using accepted_sound by fastforce

lemma accepted_unique: "accepted now k sig ts m tol \<Longrightarrow> accepted now' k sig' ts m tol' \<Longrightarrow> sig = sig'"
  using accepted_sound by metis

lemma forgery_rejected: "sig \<noteq> sign k ts m \<Longrightarrow> \<not> accepted now k sig ts m tol"
  using accepted_sound by blast

end

interpretation webhook_auth: authenticator "sign_webhook ext"
    "\<lambda>now k sig ts m tol. verify_webhook ext now k sig ts m tol = Inr True" for ext
  by unfold_locales (auto simp: verify_webhook_def compare_digest_def split: if_splits)

lemma int_str_ascii: "list_all (\<lambda>c. of_char c < (128 :: nat)) (int_str i)"
proof -
  have "is_number_char c \<Longrightarrow> of_char c < (128 :: nat)" for c
    by (auto simp: is_number_char_def is_decimal_def)
  then show ?thesis using int_str_number [of i] by (auto simp: list_all_iff)
qed

lemma verify_webhook_signed:
  "ascii_digests ext \<Longrightarrow> \<bar>now - ts\<bar> \<le> tol \<Longrightarrow>
     verify_webhook ext now k (sign_webhook ext k ts m) ts m tol = Inr True"
  using int_str_ascii [of ts]
  by (auto simp: verify_webhook_def compare_digest_def sign_webhook_def ascii_digests_def list_all_iff)

lemma decrypt_encrypt:
  "fernet_round_trip ext \<Longrightarrow> decrypt_secret ext (encrypt_secret ext n s mk) mk = Inr s"
  by (simp add: fernet_round_trip_def decrypt_secret_def encrypt_secret_def)

lemma signed_message_inj:
  assumes "signed_message t b = signed_message t' b'"
  shows "t = t' \<and> b = b'"
proof -
  have "int_str t @ CHR ''.'' # b = int_str t' @ CHR ''.'' # b'"
    using assms by (simp add: signed_message_def)
  then show ?thesis
    by (rule int_str_delimited) (simp_all add: is_number_char_def is_decimal_def)
qed

lemma sign_webhook_inj:
  assumes "sign_webhook ext k t b = sign_webhook ext k' t' b'"
  shows "t = t' \<and> hmac_sha256 ext k (signed_message t b) = hmac_sha256 ext k' (signed_message t' b')"
proof -
  have "int_str t @ CHR '','' # (''v1='' @ hmac_sha256 ext k (signed_message t b)) =
        int_str t' @ CHR '','' # (''v1='' @ hmac_sha256 ext k' (signed_message t' b'))"
    using assms by (simp add: sign_webhook_def)
  then have "t = t' \<and> ''v1='' @ hmac_sha256 ext k (signed_message t b) =
        ''v1='' @ hmac_sha256 ext k' (signed_message t' b')"
    by (rule int_str_delimited) (simp_all add: is_number_char_def is_decimal_def)
  then show ?thesis by auto
qed

end
