(* ===== verification/Repositories.thy ===== *)
theory Repositories
  imports LedgerTables Money Security
begin

text \<open>
  \<open>services/payment_service/app/infra/repositories.py\<close>: the queries and the writes shared by the
  services and the workers.  A definition takes the environment \<open>ext\<close> where the code draws an
  identifier or reads the clock; column defaults (\<open>default=uuid4\<close>, \<open>default=utc_now\<close>) are drawn
  where the row is built.  The second half gives one rule per operation for the proofs about the
  services: what holds after it returned, whatever it drew.
\<close>

definition fresh_id :: "ext \<Rightarrow> uuid db_op" where
  "fresh_id ext = draw (uuid4 ext)"

definition now :: "ext \<Rightarrow> int db_op" where
  "now ext = draw (utc_now ext)"

section \<open>Idempotency records\<close>

definition idempotency_row :: "string \<Rightarrow> uuid \<Rightarrow> string \<Rightarrow> int \<Rightarrow> idempotency_record" where
  "idempotency_row key merchant_id fingerprint t =
     \<lparr>i_key = key, i_merchant_id = merchant_id, request_fingerprint = fingerprint,
      response_status = None, response_body = None, resource_id = None, i_created_at = t\<rparr>"

definition claim_idempotency ::
  "ext \<Rightarrow> uuid \<Rightarrow> string \<Rightarrow> string \<Rightarrow> idempotency_record db_op" where
  "claim_idempotency ext merchant_id key fingerprint =
     bind_op (now ext) (\<lambda>t.
     let r = idempotency_row key merchant_id fingerprint t in
     bind_op (raise_if (\<not> idempotency_data_ok r) DataError) (\<lambda>_.
     bind_op (query (\<lambda>d. claim_row i_pk r (idempotency_records d))) (\<lambda>(claimed, table).
     bind_op (execute (\<lambda>d. d\<lparr>idempotency_records := table\<rparr>)) (\<lambda>_.
     case claimed of
       Some record \<Rightarrow> ret record
     | None \<Rightarrow>
         bind_op (query (\<lambda>d. row_at i_pk (key, merchant_id) (idempotency_records d))) (\<lambda>found.
         case found of
           None \<Rightarrow> raise (RuntimeError ''idempotency insert raced without observable row'')
         | Some existing \<Rightarrow>
             if request_fingerprint existing \<noteq> fingerprint
             then raise (IdempotencyConflictError ''same idempotency key used with a different payload'')
             else ret existing)))))"

definition complete_idempotency ::
  "idempotency_record \<Rightarrow> int \<Rightarrow> json \<Rightarrow> uuid \<Rightarrow> unit db_op" where
  "complete_idempotency record status body rid =
     update_row i_pk idempotency_data_ok (\<lambda>_. True) idempotency_records
       (\<lambda>t d. d\<lparr>idempotency_records := t\<rparr>) (i_pk record)
       (\<lambda>r. r\<lparr>response_status := Some status, response_body := Some body, resource_id := Some rid\<rparr>)"

section \<open>Outbox and audit log\<close>

definition new_envelope ::
  "ext \<Rightarrow> event_type \<Rightarrow> uuid \<Rightarrow> string \<Rightarrow> (string \<times> json) list \<Rightarrow> uuid \<Rightarrow> event_envelope db_op" where
  "new_envelope ext etype aggregate_id aggregate_type payload correlation_id =
     bind_op (fresh_id ext) (\<lambda>eid.
     bind_op (now ext) (\<lambda>t.
     ret \<lparr>ev_event_id = eid, ev_event_type = etype, ev_occurred_at = t,
          ev_correlation_id = correlation_id, ev_causation_id = None,
          ev_aggregate_id = aggregate_id, ev_aggregate_type = aggregate_type, ev_version = 1,
          ev_payload = payload\<rparr>))"

definition append_outbox ::
  "ext \<Rightarrow> event_type \<Rightarrow> uuid \<Rightarrow> string \<Rightarrow> (string \<times> json) list \<Rightarrow> uuid \<Rightarrow> outbox_event db_op" where
  "append_outbox ext etype aggregate_id aggregate_type payload correlation_id =
     bind_op (new_envelope ext etype aggregate_id aggregate_type payload correlation_id) (\<lambda>event.
     bind_op (now ext) (\<lambda>t.
     let row = \<lparr>o_event_id = ev_event_id event, o_aggregate_id = aggregate_id,
                o_aggregate_type = aggregate_type, o_event_type = event_type_value etype,
                o_payload = envelope_dump ext event, o_created_at = t, published_at = None,
                retry_count = 0\<rparr> in
     bind_op (insert_outbox row) (\<lambda>_. ret row)))"

definition append_audit ::
  "ext \<Rightarrow> string \<Rightarrow> string \<Rightarrow> string \<Rightarrow> uuid \<Rightarrow> json \<Rightarrow> unit db_op" where
  "append_audit ext actor_text action_text resource_text correlation_id metadata =
     bind_op (fresh_id ext) (\<lambda>i.
     bind_op (now ext) (\<lambda>t.
     insert_audit \<lparr>l_id = i, actor = actor_text, action = action_text, resource = resource_text,
       l_correlation_id = correlation_id, metadata_json = metadata, l_created_at = t\<rparr>))"

section \<open>The ledger\<close>

definition ensure_ledger_account ::
  "ext \<Rightarrow> uuid \<Rightarrow> string \<Rightarrow> string \<Rightarrow> string \<Rightarrow> ledger_account db_op" where
  "ensure_ledger_account ext owner name cur normal =
     bind_op (query (\<lambda>d. row_at la_key (owner, name, cur) (ledger_accounts d))) (\<lambda>existing.
     case existing of
       Some account \<Rightarrow> ret account
     | None \<Rightarrow>
         bind_op (fresh_id ext) (\<lambda>i.
         bind_op (now ext) (\<lambda>t.
         let r = \<lparr>la_id = i, owner_id = owner, la_name = name, la_currency = cur,
                  normal_balance = normal, la_created_at = t\<rparr> in
         bind_op (raise_if (\<not> ledger_account_data_ok r) DataError) (\<lambda>_.
         bind_op (query (\<lambda>d. ledger_account_integrity_ok d r)) (\<lambda>ok.
         bind_op (raise_if (\<not> ok) IntegrityError) (\<lambda>_.
         bind_op (query (\<lambda>d. claim_row la_key r (ledger_accounts d))) (\<lambda>(inserted, table).
         bind_op (execute (\<lambda>d. d\<lparr>ledger_accounts := table\<rparr>)) (\<lambda>_.
         case inserted of
           Some account \<Rightarrow> ret account
         | None \<Rightarrow>
             bind_op (query (\<lambda>d. row_at la_key (owner, name, cur) (ledger_accounts d))) (\<lambda>found.
             case found of
               None \<Rightarrow> raise (RuntimeError ''ledger account upsert failed'')
             | Some account \<Rightarrow> ret account)))))))))"

definition add_line ::
  "ext \<Rightarrow> uuid \<Rightarrow> (string \<times> ledger_account) list \<Rightarrow> ledger_line \<Rightarrow> unit db_op" where
  "add_line ext journal_id accounts_by_name line =
     (case map_of accounts_by_name (line_account line) of
        None \<Rightarrow> raise (KeyError (line_account line))
      | Some account \<Rightarrow>
          bind_op (fresh_id ext) (\<lambda>i.
          bind_op (now ext) (\<lambda>t.
          insert_entry \<lparr>e_id = i, e_journal_id = journal_id, ledger_account_id = la_id account,
            e_direction = direction line, e_amount_minor = amount_minor (line_money line),
            e_currency = currency_value (money_currency (line_money line)), e_created_at = t\<rparr>)))"

definition create_journal ::
  "ext \<Rightarrow> string \<Rightarrow> uuid \<Rightarrow> string \<Rightarrow> (string \<times> ledger_account) list \<Rightarrow> ledger_line list \<Rightarrow> uuid db_op" where
  "create_journal ext rtype rid cur accounts_by_name lines =
     bind_op (fresh_id ext) (\<lambda>i.
     bind_op (now ext) (\<lambda>t.
     bind_op (insert_journal \<lparr>j_id = i, reference_type = rtype, reference_id = rid,
       j_currency = cur, j_status = ''DRAFT'', posted_at = None, j_created_at = t\<rparr>) (\<lambda>_.
     bind_op (for_each lines (add_line ext i accounts_by_name)) (\<lambda>_.
     bind_op (now ext) (\<lambda>posted.
     bind_op (update_journal i (\<lambda>j. j\<lparr>j_status := ''POSTED'', posted_at := Some posted\<rparr>) True) (\<lambda>_.
     ret i))))))"

section \<open>Inbox\<close>

text \<open>The \<open>INSERT ... ON CONFLICT DO NOTHING\<close> on \<open>processed_events\<close>: did it insert?\<close>

definition inbox_claim ::
  "int \<Rightarrow> uuid \<times> string \<Rightarrow> processed_event list \<Rightarrow> bool \<times> processed_event list" where
  "inbox_claim t k table =
     (case claim_row pe_pk \<lparr>pe_event_id = fst k, consumer_name = snd k, processed_at = t\<rparr> table of
        (inserted, table') \<Rightarrow> (inserted \<noteq> None, table'))"

definition mark_event_processed :: "ext \<Rightarrow> uuid \<Rightarrow> string \<Rightarrow> bool db_op" where
  "mark_event_processed ext event_id consumer =
     bind_op (now ext) (\<lambda>t.
     bind_op (raise_if (\<not> varchar 120 consumer) DataError) (\<lambda>_.
     bind_op (query (\<lambda>d. inbox_claim t (event_id, consumer) (processed_events d))) (\<lambda>(inserted, table).
     bind_op (execute (\<lambda>d. d\<lparr>processed_events := table\<rparr>)) (\<lambda>_.
     ret inserted))))"

section \<open>Queries of the payments and of the outbox\<close>

definition payment_for_update :: "uuid \<Rightarrow> uuid \<Rightarrow> db \<Rightarrow> payment option" where
  "payment_for_update payment_id merchant_id d =
     find (\<lambda>p. p_id p = payment_id \<and> p_merchant_id p = merchant_id) (payments d)"

definition pending_outbox :: "nat \<Rightarrow> db \<Rightarrow> outbox_event list" where
  "pending_outbox limit d =
     take limit (sort_key o_created_at (filter (\<lambda>e. published_at e = None) (outbox_events d)))"

definition mark_published :: "ext \<Rightarrow> outbox_event \<Rightarrow> unit db_op" where
  "mark_published ext event =
     bind_op (now ext) (\<lambda>t.
     update_outbox (o_event_id event) (\<lambda>e. e\<lparr>published_at := Some t\<rparr>))"

definition bump_publish_retry :: "outbox_event \<Rightarrow> unit db_op" where
  "bump_publish_retry event =
     update_outbox (o_event_id event) (\<lambda>e. e\<lparr>retry_count := retry_count e + 1\<rparr>)"

section \<open>Claims\<close>

interpretation inbox: claim_once "inbox_claim t" "\<lambda>k table. k \<in> pe_pk ` set table" for t
  by unfold_locales (auto simp: inbox_claim_def claim_row_def pe_pk_def image_iff split: if_splits)

text \<open>The insertion of an idempotency record and of a ledger account keep the same contract.\<close>

definition idempotency_claim ::
  "string \<Rightarrow> int \<Rightarrow> string \<times> uuid \<Rightarrow> idempotency_record list \<Rightarrow> bool \<times> idempotency_record list" where
  "idempotency_claim fingerprint t k table =
     (case claim_row i_pk (idempotency_row (fst k) (snd k) fingerprint t) table of
        (inserted, table') \<Rightarrow> (inserted \<noteq> None, table'))"

interpretation idempotency: claim_once "idempotency_claim fp t" "\<lambda>k table. k \<in> i_pk ` set table" for fp t
  by unfold_locales (auto simp: idempotency_claim_def idempotency_row_def claim_row_def i_pk_def image_iff split: if_splits)

section \<open>Rules\<close>

text \<open>
  The rules describe the world after a successful return.  They have \<open>True\<close> on the exceptional
  side: every caller runs inside a transaction, which rolls back.
\<close>

definition outbox_row_for ::
  "ext \<Rightarrow> event_type \<Rightarrow> uuid \<Rightarrow> string \<Rightarrow> (string \<times> json) list \<Rightarrow> uuid \<Rightarrow> outbox_event \<Rightarrow> bool" where
  "outbox_row_for ext etype aggregate_id aggregate_type payload correlation_id row \<longleftrightarrow>
     o_event_type row = event_type_value etype \<and> o_aggregate_id row = aggregate_id \<and>
     o_aggregate_type row = aggregate_type \<and> published_at row = None \<and> retry_count row = 0 \<and>
     (\<exists>t. o_payload row = envelope_dump ext
        \<lparr>ev_event_id = o_event_id row, ev_event_type = etype, ev_occurred_at = t,
         ev_correlation_id = correlation_id, ev_causation_id = None, ev_aggregate_id = aggregate_id,
         ev_aggregate_type = aggregate_type, ev_version = 1, ev_payload = payload\<rparr>)"

lemma append_outbox_ruleE:
  assumes "\<And>row w'. outbox_row_for ext etype agg atype payload corr row \<Longrightarrow>
      o_event_id row \<notin> o_event_id ` set (outbox_events (tables w)) \<Longrightarrow>
      tables w' = (tables w)\<lparr>outbox_events := outbox_events (tables w) @ [row]\<rparr> \<Longrightarrow>
      deferred w' = deferred w \<Longrightarrow> counters w' = counters w \<Longrightarrow> Q row w'"
    and "\<And>w'. E DataError w'" and "\<And>w'. E IntegrityError w'"
  shows "wp (append_outbox ext etype agg atype payload corr) Q E w"
  by (auto simp: append_outbox_def new_envelope_def fresh_id_def now_def insert_outbox_def wp_simps
      Let_def outbox_integrity_ok_def outbox_row_for_def intro!: assms)

lemmas append_outbox_rule = append_outbox_ruleE [where E = "\<lambda>_ _. True", simplified]

lemma append_audit_rule:
  assumes "\<And>row w'. actor row = a \<Longrightarrow> action row = b \<Longrightarrow> resource row = c \<Longrightarrow>
      tables w' = (tables w)\<lparr>audit_logs := audit_logs (tables w) @ [row]\<rparr> \<Longrightarrow>
      deferred w' = deferred w \<Longrightarrow> counters w' = counters w \<Longrightarrow> Q () w'"
  shows "wp (append_audit ext a b c corr meta) Q (\<lambda>_ _. True) w"
  by (auto simp: append_audit_def fresh_id_def now_def insert_audit_def wp_simps intro!: assms)

text \<open>The row returned carries the key; \<open>extra\<close> is what was inserted.\<close>

lemma ensure_ledger_account_rule:
  assumes "\<And>account extra w'. la_key account = (owner, name, cur) \<Longrightarrow>
      account \<in> set (ledger_accounts (tables w) @ extra) \<Longrightarrow>
      (extra = [] \<or> extra = [account] \<and> la_id account \<notin> la_id ` set (ledger_accounts (tables w)) \<and>
         la_key account \<notin> la_key ` set (ledger_accounts (tables w))) \<Longrightarrow>
      tables w' = (tables w)\<lparr>ledger_accounts := ledger_accounts (tables w) @ extra\<rparr> \<Longrightarrow>
      deferred w' = deferred w \<Longrightarrow> counters w' = counters w \<Longrightarrow> Q account w'"
  shows "wp (ensure_ledger_account ext owner name cur normal) Q (\<lambda>_ _. True) w"
proof (cases "row_at la_key (owner, name, cur) (ledger_accounts (tables w))")
  case None
  then have free: "(owner, name, cur) \<notin> la_key ` set (ledger_accounts (tables w))"
    by (simp add: row_at_None_iff)
  then show ?thesis
    by (auto simp: ensure_ledger_account_def None fresh_id_def now_def wp_simps Let_def claim_row_def
        la_key_def ledger_account_integrity_ok_def intro!: assms)
next
  case (Some account)
  then show ?thesis
    using row_at_SomeD [OF Some]
    by (auto simp: ensure_ledger_account_def wp_simps intro!: assms [of account "[]"])
qed

end
