(* ===== verification/LedgerBook.thy ===== *)
theory LedgerBook
  imports Repositories
begin

text \<open>
  The double-entry book behind the journals.  \<open>posts\<close> describes the rows that a two-line journal
  adds; \<open>create_journal_rule\<close> shows that \<open>create_journal\<close> adds exactly these.  The locale
  \<open>double_entry\<close> is the contract of such a book (a posting raises one balance and lowers
  another), interpreted on the tables, where a balance is what \<open>available_balance\<close> in
  \<open>service.py\<close> computes.
\<close>

section \<open>What a journal adds\<close>

definition posts ::
  "db \<Rightarrow> string \<Rightarrow> uuid \<Rightarrow> string \<Rightarrow> uuid \<Rightarrow> uuid \<Rightarrow> money \<Rightarrow> journal \<Rightarrow> journal_entry \<Rightarrow> journal_entry \<Rightarrow> bool" where
  "posts d rtype rid cur debited credited m j e f \<longleftrightarrow>
     reference_type j = rtype \<and> reference_id j = rid \<and> j_currency j = cur \<and> j_status j = ''POSTED'' \<and>
     j_id j \<notin> j_id ` set (journals d) \<and> j_reference j \<notin> j_reference ` set (journals d) \<and>
     e_id e \<notin> e_id ` set (journal_entries d) \<and> e_id f \<notin> e_id ` set (journal_entries d) \<and>
     e_id e \<noteq> e_id f \<and> e_journal_id e = j_id j \<and> e_journal_id f = j_id j \<and>
     ledger_account_id e = debited \<and> ledger_account_id f = credited \<and>
     debited \<in> la_id ` set (ledger_accounts d) \<and> credited \<in> la_id ` set (ledger_accounts d) \<and>
     e_direction e = ''DEBIT'' \<and> e_direction f = ''CREDIT'' \<and>
     e_amount_minor e = amount_minor m \<and> e_amount_minor f = amount_minor m \<and> 0 < amount_minor m \<and>
     e_currency e = currency_value (money_currency m) \<and> e_currency f = currency_value (money_currency m)"

definition posting :: "journal \<Rightarrow> journal_entry \<Rightarrow> journal_entry \<Rightarrow> db \<Rightarrow> db" where
  "posting j e f d =
     d\<lparr>journals := journals d @ [j], journal_entries := journal_entries d @ [e, f]\<rparr>"

lemma posting_simps [simp]:
  "journals (posting j e f d) = journals d @ [j]"
  "journal_entries (posting j e f d) = journal_entries d @ [e, f]"
  "ledger_accounts (posting j e f d) = ledger_accounts d"
  "payments (posting j e f d) = payments d"
  "refunds (posting j e f d) = refunds d"
  "customers (posting j e f d) = customers d"
  "merchants (posting j e f d) = merchants d"
  "accounts (posting j e f d) = accounts d"
  "outbox_events (posting j e f d) = outbox_events d"
  "idempotency_records (posting j e f d) = idempotency_records d"
  by (simp_all add: posting_def)

lemma j_reference_make [simp]:
  "j_reference \<lparr>j_id = i, reference_type = a, reference_id = b, j_currency = c, j_status = st,
     posted_at = p, j_created_at = t\<rparr> = (a, b)"
  by (simp add: j_reference_def)

lemma create_journal_rule:
  assumes lines: "lines = [\<lparr>line_account = a, direction = ''DEBIT'', line_money = m\<rparr>,
      \<lparr>line_account = b, direction = ''CREDIT'', line_money = m\<rparr>]"
    and names: "map_of names a = Some x" "map_of names b = Some y"
    and post: "\<And>j e f w'. posts (tables w) rtype rid cur (la_id x) (la_id y) m j e f \<Longrightarrow>
      tables w' = posting j e f (tables w) \<Longrightarrow> counters w' = counters w \<Longrightarrow> Q (j_id j) w'"
  shows "wp (create_journal ext rtype rid cur names lines) Q (\<lambda>_ _. True) w"
proof -
  let ?n = "draws w"
  let ?j = "\<lparr>j_id = uuid4 ext ?n, reference_type = rtype, reference_id = rid, j_currency = cur,
      j_status = ''POSTED'', posted_at = Some (utc_now ext (?n + 6)), j_created_at = utc_now ext (?n + 1)\<rparr>"
  let ?e = "\<lparr>e_id = uuid4 ext (?n + 2), e_journal_id = uuid4 ext ?n, ledger_account_id = la_id x,
      e_direction = ''DEBIT'', e_amount_minor = amount_minor m,
      e_currency = currency_value (money_currency m), e_created_at = utc_now ext (?n + 3)\<rparr>"
  let ?f = "\<lparr>e_id = uuid4 ext (?n + 4), e_journal_id = uuid4 ext ?n, ledger_account_id = la_id y,
      e_direction = ''CREDIT'', e_amount_minor = amount_minor m,
      e_currency = currency_value (money_currency m), e_created_at = utc_now ext (?n + 5)\<rparr>"
  note run = create_journal_def insert_journal_def add_line_def insert_entry_def update_journal_def
    fresh_id_def now_def wp_simps names row_simps lines
  have goal: "Q (uuid4 ext ?n) w'" if "posts (tables w) rtype rid cur (la_id x) (la_id y) m ?j ?e ?f"
      "tables w' = posting ?j ?e ?f (tables w)" "counters w' = counters w" for w'
    using post [OF that] by simp
  show ?thesis
    by (clarsimp simp: run row_at_None_iff split: sum.split option.split)
      (auto simp: posts_def posting_def journal_integrity_ok_def entry_integrity_ok_def
        entry_checks_def row_set_absent numeral_eq_Suc row_simps intro!: goal)
qed

section \<open>Balances\<close>

text \<open>Debits minus credits of the entries on a set of accounts.\<close>

definition balance_of :: "db \<Rightarrow> uuid set \<Rightarrow> int" where
  "balance_of d ids =
     sum_where (\<lambda>e. ledger_account_id e \<in> ids \<and> e_direction e = ''DEBIT'') e_amount_minor (journal_entries d) -
     sum_where (\<lambda>e. ledger_account_id e \<in> ids \<and> e_direction e = ''CREDIT'') e_amount_minor (journal_entries d)"

locale double_entry =
  fixes post :: "'a \<Rightarrow> 'a \<Rightarrow> int \<Rightarrow> 's \<Rightarrow> 's" and balance :: "'s \<Rightarrow> 'a set \<Rightarrow> int"
  assumes balance_post: "balance (post a b n s) A =
      balance s A + (if a \<in> A then n else 0) - (if b \<in> A then n else 0)"
begin

lemma conserved: "(a \<in> A) = (b \<in> A) \<Longrightarrow> balance (post a b n s) A = balance s A"
  by (simp add: balance_post)

lemma total_conserved: "balance (post a b n s) UNIV = balance s UNIV"
  by (simp add: conserved)

lemma paid_in: "a \<in> A \<Longrightarrow> b \<notin> A \<Longrightarrow> balance (post a b n s) A = balance s A + n"
  by (simp add: balance_post)

lemma paid_out: "a \<notin> A \<Longrightarrow> b \<in> A \<Longrightarrow> balance (post a b n s) A = balance s A - n"
  by (simp add: balance_post)

lemma covered_nonneg:
  "0 \<le> balance s A \<Longrightarrow> 0 \<le> n \<Longrightarrow> b \<in> A \<longrightarrow> n \<le> balance s A \<Longrightarrow> 0 \<le> balance (post a b n s) A"
  by (auto simp: balance_post)

end

definition post_pair ::
  "journal \<Rightarrow> journal_entry \<Rightarrow> journal_entry \<Rightarrow> uuid \<Rightarrow> uuid \<Rightarrow> int \<Rightarrow> db \<Rightarrow> db" where
  "post_pair j e f debited credited n d =
     posting j (e\<lparr>ledger_account_id := debited, e_direction := ''DEBIT'', e_amount_minor := n\<rparr>)
       (f\<lparr>ledger_account_id := credited, e_direction := ''CREDIT'', e_amount_minor := n\<rparr>) d"

interpretation book: double_entry "post_pair j e f" balance_of for j e f
  by unfold_locales (simp add: post_pair_def balance_of_def)

lemma posts_pair:
  "posts d rtype rid cur debited credited m j e f \<Longrightarrow>
     posting j e f d = post_pair j e f debited credited (amount_minor m) d"
  by (auto simp: posts_def post_pair_def intro!: arg_cong2 [where f = "\<lambda>x y. posting j x y d"])

lemma balance_of_posting:
  "posts d rtype rid cur debited credited m j e f \<Longrightarrow>
     balance_of (posting j e f d) A =
       balance_of d A + (if debited \<in> A then amount_minor m else 0) -
       (if credited \<in> A then amount_minor m else 0)"
  by (simp only: posts_pair book.balance_post)

section \<open>Totals by reference\<close>

text \<open>\<open>journal_entries JOIN journals ON journals.id = journal_entries.journal_id\<close>.\<close>

definition joined_entries :: "db \<Rightarrow> (journal_entry \<times> journal) list" where
  "joined_entries d =
     concat (map (\<lambda>e. map (\<lambda>j. (e, j)) (filter (\<lambda>j. j_id j = e_journal_id e) (journals d))) (journal_entries d))"

text \<open>\<open>coalesce(sum(amount_minor), 0)\<close> of the joined rows with this reference and direction.\<close>

definition reference_total :: "db \<Rightarrow> string \<Rightarrow> uuid \<Rightarrow> string \<Rightarrow> int" where
  "reference_total d rtype rid dir =
     sum_where (\<lambda>(e, j). reference_type j = rtype \<and> reference_id j = rid \<and> e_direction e = dir)
       (\<lambda>(e, j). e_amount_minor e) (joined_entries d)"

definition entries_have_journals :: "db \<Rightarrow> bool" where
  "entries_have_journals d \<longleftrightarrow> e_journal_id ` set (journal_entries d) \<subseteq> j_id ` set (journals d)"

lemma old_entries_elsewhere:
  assumes "posts d rtype rid cur debited credited m j e f" and "entries_have_journals d"
    and "x \<in> set (journal_entries d)"
  shows "j_id j \<noteq> e_journal_id x"
proof -
  have "e_journal_id x \<in> j_id ` set (journals d)"
    using assms(2,3) by (auto simp: entries_have_journals_def)
  moreover have "j_id j \<notin> j_id ` set (journals d)" using assms(1) by (simp add: posts_def)
  ultimately show ?thesis by metis
qed

lemma joined_posting:
  assumes "posts d rtype rid cur debited credited m j e f" and "entries_have_journals d"
  shows "joined_entries (posting j e f d) = joined_entries d @ [(e, j), (f, j)]"
proof -
  have fresh: "j_id j \<notin> j_id ` set (journals d)" and ids: "e_journal_id e = j_id j" "e_journal_id f = j_id j"
    using assms(1) by (auto simp: posts_def)
  have "filter (\<lambda>k. j_id k = e_journal_id x) (journals d @ [j]) = filter (\<lambda>k. j_id k = e_journal_id x) (journals d)"
    if "x \<in> set (journal_entries d)" for x
    using old_entries_elsewhere [OF assms that] by simp
  then have old: "map (\<lambda>x. map (Pair x) (filter (\<lambda>k. j_id k = e_journal_id x) (journals d @ [j]))) (journal_entries d)
      = map (\<lambda>x. map (Pair x) (filter (\<lambda>k. j_id k = e_journal_id x) (journals d))) (journal_entries d)"
    by (intro map_cong) simp_all
  have "filter (\<lambda>k. j_id k = j_id j) (journals d) = []"
    using fresh by (auto simp: filter_empty_conv image_iff)
  then have "filter (\<lambda>k. j_id k = j_id j) (journals d @ [j]) = [j]" by simp
  then show ?thesis using ids by (simp add: joined_entries_def old del: filter_append)
qed

lemma reference_total_posting:
  assumes "posts d rtype rid cur debited credited m j e f" and "entries_have_journals d"
    and "dir \<in> {''DEBIT'', ''CREDIT''}"
  shows "reference_total (posting j e f d) rt ri dir =
     reference_total d rt ri dir + (if rt = rtype \<and> ri = rid then amount_minor m else 0)"
  using assms(1,3) joined_posting [OF assms(1,2)]
  by (auto simp: reference_total_def posts_def)

section \<open>The book invariant\<close>

text \<open>
  Every journal the code creates is posted by the time its transaction commits, references a
  distinct business event, and balances; entries belong to a journal.
\<close>

definition book_ok :: "db \<Rightarrow> bool" where
  "book_ok d \<longleftrightarrow>
     ledger_tables_ok d \<and> entries_have_journals d \<and> distinct (map j_reference (journals d)) \<and>
     (\<forall>j \<in> set (journals d). j_status j = ''POSTED'') \<and>
     distinct (map la_id (ledger_accounts d)) \<and> distinct (map la_key (ledger_accounts d))"

lemma entries_of_posting:
  "posts d rtype rid cur debited credited m j e f \<Longrightarrow> x \<noteq> j_id j \<Longrightarrow>
     entries_of (posting j e f d) x = entries_of d x"
  by (auto simp: entries_of_def posts_def)

lemma book_ok_posting:
  assumes p: "posts d rtype rid (currency_value (money_currency m)) debited credited m j e f" and "book_ok d"
  shows "book_ok (posting j e f d)"
proof -
  have ok: "ledger_tables_ok d" "entries_have_journals d" using assms(2) by (auto simp: book_ok_def)
  have fresh: "j_id j \<notin> j_id ` set (journals d)" using p by (simp add: posts_def)
  have "entries_of d (j_id j) = []"
    using old_entries_elsewhere [OF p ok(2)] by (fastforce simp: entries_of_def filter_empty_conv)
  then have new: "entries_of (posting j e f d) (j_id j) = [e, f]"
    using p by (simp add: entries_of_def posts_def)
  have total: "entry_total b k dir = sum_where (\<lambda>r. e_direction r = dir) e_amount_minor (entries_of b k)" for b k dir
    by (simp add: entry_total_def entries_of_def sum_where_def conj_commute)
  have "journal_balanced (posting j e f d) j"
    using p by (simp add: journal_balanced_def total new) (simp add: posts_def)
  moreover have "journal_balanced (posting j e f d) x" if "x \<in> set (journals d)" for x
  proof -
    have "j_id x \<noteq> j_id j" using fresh that by (metis imageI)
    then have "entries_of (posting j e f d) (j_id x) = entries_of d (j_id x)"
      by (rule entries_of_posting [OF p])
    then have "journal_balanced (posting j e f d) x = journal_balanced d x"
      by (rule journal_balanced_cong) simp
    then show ?thesis using assms(2) that by (simp add: book_ok_def ledger_tables_ok_def posted_balanced_def)
  qed
  ultimately show ?thesis
    using assms(2) p
    by (auto simp: book_ok_def ledger_tables_ok_def posted_balanced_def entries_have_journals_def posts_def)
qed

lemma book_ok_frame:
  assumes ok: "book_ok d" and j: "journals d' = journals d" and e: "journal_entries d' = journal_entries d"
    and "distinct (map la_id (ledger_accounts d'))" and "distinct (map la_key (ledger_accounts d'))"
  shows "book_ok d'"
proof -
  have "journal_balanced d' x = journal_balanced d x" for x
    by (rule journal_balanced_cong [where j = "j_id x"]) (simp_all add: entries_of_def e)
  then show ?thesis
    using assms by (simp add: book_ok_def ledger_tables_ok_def posted_balanced_def entries_have_journals_def)
qed

end
