(* ===== verification/Requests.thy ===== *)
theory Requests
  imports Environment Schema
begin

text \<open>
  The request bodies of \<open>services/payment_service/app/api/schemas.py\<close>, each with its constructor:
  pydantic's \<open>Field\<close> constraints, \<open>ValidationError\<close> (answered with status 422) where they fail.
  \<open>EmailStr\<close> and \<open>HttpUrl\<close> are pydantic's, fields of the environment.
\<close>

record merchant_create =
  mc_name :: string
  mc_risk_level :: int

definition MerchantCreate :: "string \<Rightarrow> int \<Rightarrow> exn + merchant_create" where
  "MerchantCreate name level =
     (if 1 \<le> length name \<and> length name \<le> 200 \<and> 1 \<le> level \<and> level \<le> 5
      then Inr \<lparr>mc_name = name, mc_risk_level = level\<rparr> else Inl ValidationError)"

record customer_create =
  cc_email :: string
  cc_currency :: currency

definition CustomerCreate ::
  "ext \<Rightarrow> string \<Rightarrow> string \<Rightarrow> exn + customer_create" where
  "CustomerCreate ext address cur =
     (case (email_str ext address, currency_of cur) of
        (Some e, Some c) \<Rightarrow> Inr \<lparr>cc_email = e, cc_currency = c\<rparr> | _ \<Rightarrow> Inl ValidationError)"

record fund_request =
  fr_amount_minor :: int
  fr_currency :: currency

definition FundAccountRequest :: "int \<Rightarrow> string \<Rightarrow> exn + fund_request" where
  "FundAccountRequest n cur =
     (case currency_of cur of
        None \<Rightarrow> Inl ValidationError
      | Some c \<Rightarrow> if 0 < n then Inr \<lparr>fr_amount_minor = n, fr_currency = c\<rparr> else Inl ValidationError)"

record payment_request =
  pr_customer_id :: uuid
  pr_amount_minor :: int
  pr_currency :: currency

definition PaymentCreate :: "ext \<Rightarrow> string \<Rightarrow> int \<Rightarrow> string \<Rightarrow> exn + payment_request" where
  "PaymentCreate ext customer n cur =
     (case (read_uuid ext customer, currency_of cur) of
        (Some u, Some c) \<Rightarrow>
          if 0 < n then Inr \<lparr>pr_customer_id = u, pr_amount_minor = n, pr_currency = c\<rparr>
          else Inl ValidationError
      | _ \<Rightarrow> Inl ValidationError)"

text \<open>\<open>request.model_dump(mode="json")\<close>, in field order.\<close>

definition payment_request_dump :: "payment_request \<Rightarrow> json" where
  "payment_request_dump r = JObj
     [(''customer_id'', JStr (uuid_str (pr_customer_id r))),
      (''amount_minor'', JInt (pr_amount_minor r)),
      (''currency'', JStr (currency_value (pr_currency r)))]"

record refund_request =
  rr_amount_minor :: int

definition RefundRequest :: "int \<Rightarrow> exn + refund_request" where
  "RefundRequest n = (if 0 < n then Inr \<lparr>rr_amount_minor = n\<rparr> else Inl ValidationError)"

record webhook_create =
  wc_url :: string
  wc_event_types :: "string list"

definition WebhookEndpointCreate ::
  "ext \<Rightarrow> string \<Rightarrow> string list \<Rightarrow> exn + webhook_create" where
  "WebhookEndpointCreate ext address types =
     (case http_url ext address of
        None \<Rightarrow> Inl ValidationError
      | Some u \<Rightarrow> Inr \<lparr>wc_url = u, wc_event_types = types\<rparr>)"

text \<open>A request value that a constructor built satisfies the constraints.\<close>

lemma MerchantCreate_Inr:
  "MerchantCreate n l = Inr r \<Longrightarrow>
     1 \<le> mc_risk_level r \<and> mc_risk_level r \<le> 5 \<and> mc_name r \<noteq> [] \<and> length (mc_name r) \<le> 200"
  by (auto simp: MerchantCreate_def split: if_splits)

lemma FundAccountRequest_Inr: "FundAccountRequest n c = Inr r \<Longrightarrow> 0 < fr_amount_minor r"
  by (auto simp: FundAccountRequest_def split: option.splits if_splits)

lemma PaymentCreate_Inr: "PaymentCreate ext u n c = Inr r \<Longrightarrow> 0 < pr_amount_minor r"
  by (auto simp: PaymentCreate_def split: option.splits if_splits)

lemma RefundRequest_Inr: "RefundRequest n = Inr r \<Longrightarrow> 0 < rr_amount_minor r"
  by (auto simp: RefundRequest_def split: if_splits)

end
