(* ===== verification/Lifecycle.thy ===== *)
theory Lifecycle
  imports Enums
begin

text \<open>
  \<open>services/payment_service/app/domain/payment.py\<close>: the payment state machine.  \<open>allowed\<close> is
  the table \<open>_ALLOWED\<close>.  The statuses are ordered by \<open>s \<le> t\<close>: some path of allowed transitions
  leads from \<open>s\<close> to \<open>t\<close>.
\<close>

fun allowed :: "payment_status \<Rightarrow> payment_status list" where
  "allowed CREATED = [PENDING, CANCELLED, FAILED]"
| "allowed PENDING = [AUTHORIZED, FAILED, CANCELLED]"
| "allowed AUTHORIZED = [CAPTURED, CANCELLED, FAILED]"
| "allowed CAPTURED = [PARTIALLY_REFUNDED, REFUNDED]"
| "allowed PARTIALLY_REFUNDED = [PARTIALLY_REFUNDED, REFUNDED]"
| "allowed REFUNDED = []"
| "allowed FAILED = []"
| "allowed CANCELLED = []"

definition transition :: "payment_status \<Rightarrow> payment_status \<Rightarrow> exn + payment_status" where
  "transition current target =
     (if target \<notin> set (allowed current) then Inl (PaymentTransitionError current target)
      else Inr target)"

text \<open>\<open>str(exc)\<close> of a \<open>PaymentTransitionError\<close>.\<close>

definition transition_message :: "payment_status \<Rightarrow> payment_status \<Rightarrow> string" where
  "transition_message current target =
     ''cannot transition payment from '' @ status_value current @ '' to '' @ status_value target"

lemma transition_Inr [simp]: "transition s t = Inr u \<longleftrightarrow> t \<in> set (allowed s) \<and> u = t"
  by (auto simp: transition_def)

lemma transition_Inl [simp]:
  "transition s t = Inl e \<longleftrightarrow> t \<notin> set (allowed s) \<and> e = PaymentTransitionError s t"
  by (auto simp: transition_def)

section \<open>The order of the lifecycle\<close>

fun later :: "payment_status \<Rightarrow> payment_status list" where
  "later CREATED = [CREATED, PENDING, AUTHORIZED, CAPTURED, PARTIALLY_REFUNDED, REFUNDED, FAILED, CANCELLED]"
| "later PENDING = [PENDING, AUTHORIZED, CAPTURED, PARTIALLY_REFUNDED, REFUNDED, FAILED, CANCELLED]"
| "later AUTHORIZED = [AUTHORIZED, CAPTURED, PARTIALLY_REFUNDED, REFUNDED, FAILED, CANCELLED]"
| "later CAPTURED = [CAPTURED, PARTIALLY_REFUNDED, REFUNDED]"
| "later PARTIALLY_REFUNDED = [PARTIALLY_REFUNDED, REFUNDED]"
| "later REFUNDED = [REFUNDED]"
| "later FAILED = [FAILED]"
| "later CANCELLED = [CANCELLED]"

instantiation payment_status :: order
begin

definition less_eq_payment_status :: "payment_status \<Rightarrow> payment_status \<Rightarrow> bool" where
  "less_eq_payment_status s t \<longleftrightarrow> t \<in> set (later s)"

definition less_payment_status :: "payment_status \<Rightarrow> payment_status \<Rightarrow> bool" where
  "less_payment_status s t \<longleftrightarrow> s \<noteq> t \<and> t \<in> set (later s)"

instance
proof
  fix s t u :: payment_status
  show "s < t \<longleftrightarrow> s \<le> t \<and> \<not> t \<le> s"
    by (cases s; cases t) (simp_all add: less_payment_status_def less_eq_payment_status_def)
  show "s \<le> s" by (cases s) (simp_all add: less_eq_payment_status_def)
  show "s \<le> u" if "s \<le> t" "t \<le> u"
    using that by (cases s; cases t; cases u) (simp_all add: less_eq_payment_status_def)
  show "s = t" if "s \<le> t" "t \<le> s"
    using that by (cases s; cases t) (simp_all add: less_eq_payment_status_def)
qed

end

text \<open>One transition attempt as the service makes it: refused ones leave the status alone.\<close>

definition attempt :: "payment_status \<Rightarrow> payment_status \<Rightarrow> payment_status" where
  "attempt target current = (case transition current target of Inl _ \<Rightarrow> current | Inr t \<Rightarrow> t)"

lemma allowed_le: "t \<in> set (allowed s) \<Longrightarrow> s \<le> t"
  by (cases s) (auto simp: less_eq_payment_status_def)

interpretation lifecycle: progress_machine attempt "\<lambda>_. True" "(\<le>)"
proof unfold_locales
  show "s \<le> attempt t s" for s t
    by (auto simp: attempt_def allowed_le split: sum.split)
qed auto

lemma later_path: "t \<in> set (later s) \<Longrightarrow> (s, t) \<in> {(a, b). b \<in> set (allowed a)}\<^sup>*"
proof -
  define R where "R = {(a, b). b \<in> set (allowed a)}"
  have edge: "b \<in> set (allowed a) \<Longrightarrow> (a, b) \<in> R" for a b by (simp add: R_def)
  have edges: "(CREATED, CANCELLED) \<in> R" "(CREATED, FAILED) \<in> R" "(PENDING, FAILED) \<in> R"
    "(PENDING, CANCELLED) \<in> R" "(AUTHORIZED, FAILED) \<in> R" "(AUTHORIZED, CANCELLED) \<in> R"
    "(CAPTURED, PARTIALLY_REFUNDED) \<in> R" "(CAPTURED, REFUNDED) \<in> R"
    "(PARTIALLY_REFUNDED, REFUNDED) \<in> R" "(AUTHORIZED, CAPTURED) \<in> R"
    "(PENDING, AUTHORIZED) \<in> R" "(CREATED, PENDING) \<in> R"
    by (simp_all add: R_def)
  have PR: "(PARTIALLY_REFUNDED, x) \<in> R\<^sup>*" if "x \<in> set (later PARTIALLY_REFUNDED)" for x
    using that by (auto intro: r_into_rtrancl edges)
  have CA: "(CAPTURED, x) \<in> R\<^sup>*" if "x \<in> set (later CAPTURED)" for x
    using that by (auto intro: r_into_rtrancl edges)
  have AU: "(AUTHORIZED, x) \<in> R\<^sup>*" if "x \<in> set (later AUTHORIZED)" for x
    using that CA converse_rtrancl_into_rtrancl [OF edge [of CAPTURED AUTHORIZED] CA [of x]]
    by (auto intro: r_into_rtrancl edges)
  have PE: "(PENDING, x) \<in> R\<^sup>*" if "x \<in> set (later PENDING)" for x
    using that converse_rtrancl_into_rtrancl [OF edge [of AUTHORIZED PENDING] AU [of x]]
    by (auto intro: r_into_rtrancl edges)
  have CR: "(CREATED, x) \<in> R\<^sup>*" if "x \<in> set (later CREATED)" for x
    using that converse_rtrancl_into_rtrancl [OF edge [of PENDING CREATED] PE [of x]]
    by (auto intro: r_into_rtrancl edges)
  assume t: "t \<in> set (later s)"
  have "(s, t) \<in> R\<^sup>*"
  proof (cases s)
    case CREATED with t show ?thesis by (blast intro: CR)
  next
    case PENDING with t show ?thesis by (blast intro: PE)
  next
    case AUTHORIZED with t show ?thesis by (blast intro: AU)
  next
    case CAPTURED with t show ?thesis by (blast intro: CA)
  next
    case PARTIALLY_REFUNDED with t show ?thesis by (blast intro: PR)
  qed (use t in auto)
  then show ?thesis by (simp only: R_def)
qed

lemma path_later: "(s, t) \<in> {(a, b). b \<in> set (allowed a)}\<^sup>* \<Longrightarrow> s \<le> t"
  by (induction rule: rtrancl_induct) (auto dest: allowed_le)

lemma le_iff_path: "s \<le> t \<longleftrightarrow> (s, t) \<in> {(a, b). b \<in> set (allowed a)}\<^sup>*"
  using later_path path_later by (auto simp: less_eq_payment_status_def)

end
