(* ===== verification/PyFloat.thy ===== *)
theory PyFloat
  imports Complex_Main
begin

text \<open>
  Python's \<open>float\<close> arithmetic (IEEE 754 binary64, round to nearest, ties to even), on the
  rational values the doubles denote: every operation is the exact rational operation followed by
  the rounding \<open>fl\<close>.  The range modelled is that of normal numbers; the sources only use values
  between \<open>0\<close> and a few hundred, and \<open>int_to_float\<close> says where a conversion of a Python
  integer overflows.  \<open>round2\<close> is \<open>round(x, 2)\<close>, which Python computes correctly rounded.
\<close>

section \<open>Rounding\<close>

text \<open>Round half to even.\<close>

definition rhe :: "rat \<Rightarrow> int" where
  "rhe x =
     (let f = \<lfloor>x\<rfloor>; d = x - of_int f in
      if d < 1 / 2 then f else if 1 / 2 < d then f + 1 else if even f then f else f + 1)"

function bits :: "int \<Rightarrow> nat" where
  "bits n = (if n \<le> 0 then 0 else Suc (bits (n div 2)))"
  by pat_completeness auto
termination
  by (relation "measure nat") auto

declare bits.simps [simp del]

definition pow2 :: "int \<Rightarrow> rat" where
  "pow2 k = (if 0 \<le> k then 2 ^ nat k else 1 / 2 ^ nat (- k))"

text \<open>The binary exponent of a non-zero value.\<close>

definition fexp :: "rat \<Rightarrow> int" where
  "fexp x =
     (let (p, q) = quotient_of \<bar>x\<bar>; k = int (bits p) - int (bits q) in
      if pow2 k \<le> \<bar>x\<bar> then k else k - 1)"

definition fl :: "rat \<Rightarrow> rat" where
  "fl x = (if x = 0 then 0
           else let u = pow2 (fexp x - 52) in of_int (rhe (x / u)) * u)"

definition fadd :: "rat \<Rightarrow> rat \<Rightarrow> rat" where
  "fadd x y = fl (x + y)"

definition fmul :: "rat \<Rightarrow> rat \<Rightarrow> rat" where
  "fmul x y = fl (x * y)"

text \<open>\<open>None\<close> where Python raises \<open>OverflowError\<close>.\<close>

definition int_to_float :: "int \<Rightarrow> rat option" where
  "int_to_float n = (if \<bar>n\<bar> < 2 ^ 1024 - 2 ^ 970 then Some (fl (of_int n)) else None)"

definition round2 :: "rat \<Rightarrow> rat" where
  "round2 x = fl (of_int (rhe (100 * x)) / 100)"

section \<open>Properties of the rounding\<close>

lemma rhe_bounds: "\<lfloor>x\<rfloor> \<le> rhe x \<and> rhe x \<le> \<lfloor>x\<rfloor> + 1"
  by (simp add: rhe_def Let_def)

lemma rhe_of_int [simp]: "rhe (of_int n) = n"
  by (simp add: rhe_def)

lemma rhe_numeral [simp]: "rhe (numeral n) = numeral n"
  using rhe_of_int [of "numeral n"] by simp

lemma rhe_mono: "x \<le> y \<Longrightarrow> rhe x \<le> rhe y"
proof -
  assume le: "x \<le> y"
  then have fl: "\<lfloor>x\<rfloor> \<le> \<lfloor>y\<rfloor>" by (rule floor_mono)
  show ?thesis
  proof (cases "\<lfloor>x\<rfloor> = \<lfloor>y\<rfloor>")
    case True
    with le show ?thesis by (auto simp: rhe_def Let_def)
  next
    case False
    with fl show ?thesis using rhe_bounds [of x] rhe_bounds [of y] by linarith
  qed
qed

lemma rhe_le_int: "x \<le> of_int n \<Longrightarrow> rhe x \<le> n"
  using rhe_mono [of x "of_int n"] by simp

lemma rhe_ge_int: "of_int n \<le> x \<Longrightarrow> n \<le> rhe x"
  using rhe_mono [of "of_int n" x] by simp

lemma pow2_pos [simp]: "0 < pow2 k"
  by (simp add: pow2_def)

lemma pow2_add1: "pow2 (k + 1) = 2 * pow2 k"
proof -
  consider "0 \<le> k" | "k = -1" | "k < -1" by linarith
  then show ?thesis
  proof cases
    case 1
    then show ?thesis by (simp add: pow2_def nat_add_distrib)
  next
    case 2
    then show ?thesis by (simp add: pow2_def)
  next
    case 3
    then have "nat (- k) = Suc (nat (- (k + 1)))" by linarith
    with 3 show ?thesis by (simp add: pow2_def)
  qed
qed

lemma pow2_add_nat: "pow2 (k + int n) = pow2 k * 2 ^ n"
proof (induction n)
  case (Suc n)
  have "pow2 (k + int (Suc n)) = 2 * pow2 (k + int n)"
    using pow2_add1 [of "k + int n"] by (simp add: ac_simps)
  with Suc show ?case by simp
qed simp

lemma pow2_mono: "k \<le> l \<Longrightarrow> pow2 k \<le> pow2 l"
proof -
  assume "k \<le> l"
  then have "pow2 l = pow2 k * 2 ^ nat (l - k)" using pow2_add_nat [of k "nat (l - k)"] by simp
  moreover have "pow2 k * 1 \<le> pow2 k * 2 ^ nat (l - k)"
    by (rule mult_left_mono) (simp_all add: less_imp_le)
  ultimately show ?thesis by simp
qed

lemma pow2_less_imp: "pow2 k < pow2 l \<Longrightarrow> k < l"
  using pow2_mono [of l k] by (meson leD le_less_linear)

lemma bits_bounds: "0 < n \<Longrightarrow> 2 ^ (bits n - 1) \<le> n \<and> n < 2 ^ bits n \<and> 0 < bits n"
proof (induction n rule: bits.induct)
  case (1 n)
  show ?case
  proof (cases "n = 1")
    case True
    then show ?thesis by (simp add: bits.simps)
  next
    case False
    with "1.prems" have pos: "\<not> n \<le> 0" by simp
    from False "1.prems" have half: "0 < n div 2" by linarith
    with "1.IH" [OF pos] have IH: "2 ^ (bits (n div 2) - 1) \<le> n div 2" "n div 2 < 2 ^ bits (n div 2)"
      "0 < bits (n div 2)" by auto
    have n: "bits n = Suc (bits (n div 2))" using "1.prems" by (subst bits.simps) simp
    obtain b where b: "bits (n div 2) = Suc b" using IH(3) gr0_implies_Suc by blast
    from IH(1,2) b have "2 ^ Suc b \<le> n" "n < 2 ^ Suc (Suc b)" by auto
    then show ?thesis by (simp add: n b)
  qed
qed

lemma fexp_bounds:
  assumes "x \<noteq> 0"
  shows "pow2 (fexp x) \<le> \<bar>x\<bar>" and "\<bar>x\<bar> < pow2 (fexp x + 1)"
proof -
  obtain p q where pq: "quotient_of \<bar>x\<bar> = (p, q)" by fastforce
  have q: "0 < q" and x: "\<bar>x\<bar> = of_int p / of_int q"
    using quotient_of_denom_pos [OF pq] quotient_of_div [OF pq] by auto
  have "0 < \<bar>x\<bar>" using assms by simp
  with q have p: "0 < p" by (simp add: x zero_less_divide_iff)
  define bp bq where "bp = bits p" and "bq = bits q"
  have P: "2 ^ (bp - 1) \<le> p" "p < 2 ^ bp" "0 < bp"
    and Q: "2 ^ (bq - 1) \<le> q" "q < 2 ^ bq" "0 < bq"
    using bits_bounds [of p] bits_bounds [of q] p q by (auto simp: bp_def bq_def)
  have "(of_int (2 ^ (bp - 1)) :: rat) \<le> of_int p" "(of_int p :: rat) < of_int (2 ^ bp)"
    using P by (simp_all only: of_int_le_iff of_int_less_iff)
  then have rp: "(2 :: rat) ^ (bp - 1) \<le> of_int p" "(of_int p :: rat) < 2 ^ bp" by simp_all
  have "(of_int (2 ^ (bq - 1)) :: rat) \<le> of_int q" "(of_int q :: rat) < of_int (2 ^ bq)"
    using Q by (simp_all only: of_int_le_iff of_int_less_iff)
  then have rq: "(2 :: rat) ^ (bq - 1) \<le> of_int q" "(of_int q :: rat) < 2 ^ bq" by simp_all
  define k where "k = int bp - int bq"
  have split: "pow2 (k + int bq) = pow2 k * 2 ^ bq" "pow2 (int bp) = 2 ^ bp"
    using pow2_add_nat [of k bq] by (simp_all add: pow2_def)
  have up: "\<bar>x\<bar> < pow2 (k + 1)"
  proof -
    have "of_int p < (2 ^ bp :: rat)" using rp(2) by simp
    also have "\<dots> = pow2 k * 2 ^ bq" using split by (simp add: k_def)
    also have "\<dots> = pow2 (k + 1) * 2 ^ (bq - 1)"
      using Q(3) by (cases bq) (simp_all add: pow2_add1)
    also have "\<dots> \<le> pow2 (k + 1) * of_int q"
      using rq(1) by simp
    finally show ?thesis using q by (simp add: x divide_less_eq)
  qed
  have lo: "pow2 (k - 1) \<le> \<bar>x\<bar>"
  proof -
    have "pow2 (k - 1) * of_int q \<le> pow2 (k - 1) * 2 ^ bq"
      using rq(2) by simp
    also have "\<dots> = 2 ^ (bp - 1)"
    proof -
      have "pow2 k = 2 * pow2 (k - 1)" using pow2_add1 [of "k - 1"] by simp
      then have "2 * (pow2 (k - 1) * 2 ^ bq) = 2 ^ bp" using split by (simp add: k_def)
      also have "(2 :: rat) ^ bp = 2 * 2 ^ (bp - 1)" using P(3) by (cases bp) simp_all
      finally show ?thesis by simp
    qed
    also have "\<dots> \<le> of_int p" using rp(1) by simp
    finally show ?thesis using q by (simp add: x le_divide_eq)
  qed
  have fexp: "fexp x = (if pow2 k \<le> \<bar>x\<bar> then k else k - 1)"
    by (simp add: fexp_def pq k_def bp_def bq_def)
  show "pow2 (fexp x) \<le> \<bar>x\<bar>" "\<bar>x\<bar> < pow2 (fexp x + 1)"
    using up lo by (auto simp: fexp)
qed

lemma fl_0 [simp]: "fl 0 = 0"
  by (simp add: fl_def)

lemma fl_binade:
  assumes "0 < x"
  shows "pow2 (fexp x) \<le> fl x" and "fl x \<le> pow2 (fexp x + 1)"
proof -
  define u where "u = pow2 (fexp x - 52)"
  have u: "0 < u" and u52: "pow2 (fexp x) = 2 ^ 52 * u" "pow2 (fexp x + 1) = 2 ^ 53 * u"
    using pow2_add_nat [of "fexp x - 52" 52] pow2_add_nat [of "fexp x - 52" 53]
    by (simp_all add: u_def ac_simps)
  have "of_int (2 ^ 52) \<le> x / u" "x / u \<le> of_int (2 ^ 53)"
    using fexp_bounds [of x] assms u u52 by (auto simp: field_simps)
  then have "2 ^ 52 \<le> rhe (x / u)" "rhe (x / u) \<le> 2 ^ 53"
    by (blast intro: rhe_ge_int rhe_le_int)+
  then have "(of_int (2 ^ 52) :: rat) \<le> of_int (rhe (x / u))" "of_int (rhe (x / u)) \<le> (of_int (2 ^ 53) :: rat)"
    by (simp_all only: of_int_le_iff)
  with u show "pow2 (fexp x) \<le> fl x" "fl x \<le> pow2 (fexp x + 1)"
    using assms by (simp_all add: fl_def u52 flip: u_def)
qed

lemma fl_pos: "0 < x \<Longrightarrow> 0 < fl x"
  using fl_binade(1) [of x] pow2_pos [of "fexp x"] by linarith

lemma fl_nonneg: "0 \<le> x \<Longrightarrow> 0 \<le> fl x"
  using fl_pos [of x] by (cases "x = 0") auto

text \<open>Rounding is monotone, so a float computation of sums and products is too.\<close>

lemma fl_mono:
  assumes "0 \<le> x" and "x \<le> y"
  shows "fl x \<le> fl y"
proof (cases "x = 0")
  case True
  with assms show ?thesis by (simp add: fl_nonneg)
next
  case False
  with assms have x: "0 < x" and y: "0 < y" by auto
  have "pow2 (fexp x) < pow2 (fexp y + 1)"
    using fexp_bounds [of x] fexp_bounds [of y] x y assms(2) by (auto intro: order_le_less_trans)
  then have le: "fexp x \<le> fexp y" using pow2_less_imp [of "fexp x" "fexp y + 1"] by simp
  show ?thesis
  proof (cases "fexp x = fexp y")
    case True
    have "x / pow2 (fexp x - 52) \<le> y / pow2 (fexp x - 52)"
      using assms(2) by (simp add: divide_right_mono less_imp_le)
    then have "rhe (x / pow2 (fexp x - 52)) \<le> rhe (y / pow2 (fexp x - 52))" by (rule rhe_mono)
    with True x y show ?thesis by (simp add: fl_def Let_def mult_right_mono less_imp_le)
  next
    case False
    with le have "pow2 (fexp x + 1) \<le> pow2 (fexp y)" by (intro pow2_mono) simp
    then show ?thesis using fl_binade(2) [OF x] fl_binade(1) [OF y] by linarith
  qed
qed

text \<open>A rounded value is a float, which rounding leaves alone.\<close>

lemma fl_binade_exact:
  assumes "n \<le> 2 ^ 53" and "2 ^ 52 \<le> n"
  shows "fl (of_int n * pow2 (e - 52)) = of_int n * pow2 (e - 52)"
proof (cases "n = 2 ^ 53")
  case False
  define u where "u = pow2 (e - 52)"
  have u: "0 < u" and b: "pow2 e = 2 ^ 52 * u" "pow2 (e + 1) = 2 ^ 53 * u"
    using pow2_add_nat [of "e - 52" 52] pow2_add_nat [of "e - 52" 53] by (simp_all add: u_def ac_simps)
  have n: "(of_int (2 ^ 52) :: rat) \<le> of_int n" "(of_int n :: rat) < of_int (2 ^ 53)"
    using assms False by (simp_all only: of_int_le_iff of_int_less_iff)
  let ?x = "of_int n * u"
  have x: "0 < ?x" using n(1) u by (intro mult_pos_pos) auto
  have "pow2 e \<le> ?x" "?x < pow2 (e + 1)"
    using n u by (simp_all add: b mult_right_mono)
  moreover have ne: "?x \<noteq> 0" using x by (rule less_imp_neq [symmetric])
  have "pow2 (fexp ?x) \<le> ?x" "?x < pow2 (fexp ?x + 1)"
    using fexp_bounds [OF ne] by (simp_all only: abs_of_pos [OF x])
  ultimately have "pow2 e < pow2 (fexp ?x + 1)" "pow2 (fexp ?x) < pow2 (e + 1)" by linarith+
  then have "fexp ?x = e" by (auto dest!: pow2_less_imp)
  with x u show ?thesis by (simp add: fl_def flip: u_def)
next
  case True
  define u where "u = pow2 (e - 52)"
  have u: "0 < u" and b: "pow2 (e + 1) = 2 ^ 53 * u" "pow2 (e + 1 - 52) = 2 * u"
      "pow2 (e + 1 + 1) = 2 ^ 54 * u"
    using pow2_add_nat [of "e - 52" 53] pow2_add_nat [of "e - 52" 1] pow2_add_nat [of "e - 52" 54]
    by (simp_all add: u_def ac_simps)
  let ?x = "of_int n * u"
  have xe: "?x = pow2 (e + 1)" by (simp add: True b)
  then have x: "0 < ?x" by simp
  have ne: "?x \<noteq> 0" using x by (rule less_imp_neq [symmetric])
  have "pow2 (fexp ?x) \<le> ?x" "?x < pow2 (fexp ?x + 1)"
    using fexp_bounds [OF ne] by (simp_all only: abs_of_pos [OF x])
  moreover have "?x < pow2 (e + 1 + 1)"
    using x unfolding xe pow2_add1 [of "e + 1"] by simp
  ultimately have "pow2 (e + 1) < pow2 (fexp ?x + 1)" "pow2 (fexp ?x) < pow2 (e + 1 + 1)"
    using xe by linarith+
  then have "fexp ?x = e + 1" by (auto dest!: pow2_less_imp)
  moreover have "?x / (2 * u) = of_int (2 ^ 52)" using u by (simp add: True)
  moreover have "pow2 (e - 51) = 2 * u" using b(2) by simp
  ultimately show ?thesis using x u True by (simp add: fl_def Let_def flip: u_def)
qed

lemma fl_idem: "0 \<le> x \<Longrightarrow> fl (fl x) = fl x"
proof (cases "x = 0")
  case False
  assume "0 \<le> x"
  with False have x: "0 < x" by simp
  define u where "u = pow2 (fexp x - 52)"
  have u: "0 < u" and u52: "pow2 (fexp x) = 2 ^ 52 * u" "pow2 (fexp x + 1) = 2 ^ 53 * u"
    using pow2_add_nat [of "fexp x - 52" 52] pow2_add_nat [of "fexp x - 52" 53]
    by (simp_all add: u_def ac_simps)
  have "of_int (2 ^ 52) \<le> x / u" "x / u \<le> of_int (2 ^ 53)"
    using fexp_bounds [of x] x u u52 by (auto simp: field_simps)
  then have "2 ^ 52 \<le> rhe (x / u)" "rhe (x / u) \<le> 2 ^ 53"
    by (blast intro: rhe_ge_int rhe_le_int)+
  then have "fl (of_int (rhe (x / u)) * pow2 (fexp x - 52)) = of_int (rhe (x / u)) * pow2 (fexp x - 52)"
    by (intro fl_binade_exact)
  moreover have "fl x = of_int (rhe (x / u)) * pow2 (fexp x - 52)"
    using x by (simp add: fl_def u_def Let_def)
  ultimately show ?thesis by (simp only:)
qed simp

lemma fl_fadd: "0 \<le> x \<Longrightarrow> 0 \<le> y \<Longrightarrow> fl (fadd x y) = fadd x y"
  by (simp add: fadd_def fl_idem)

lemma fl_le_one: "0 \<le> x \<Longrightarrow> x \<le> 1 \<Longrightarrow> fl x \<le> 1"
proof -
  assume "0 \<le> x" "x \<le> 1"
  then have "fl x \<le> fl 1" by (rule fl_mono)
  also have "fl 1 = 1" by code_simp
  finally show ?thesis .
qed

lemma fadd_mono: "0 \<le> x \<Longrightarrow> 0 \<le> y \<Longrightarrow> x \<le> x' \<Longrightarrow> y \<le> y' \<Longrightarrow> fadd x y \<le> fadd x' y'"
  by (simp add: fadd_def fl_mono)

lemma fadd_nonneg: "0 \<le> x \<Longrightarrow> 0 \<le> y \<Longrightarrow> 0 \<le> fadd x y"
  by (simp add: fadd_def fl_nonneg)

lemma fmul_mono: "0 \<le> x \<Longrightarrow> 0 \<le> y \<Longrightarrow> x \<le> x' \<Longrightarrow> y \<le> y' \<Longrightarrow> fmul x y \<le> fmul x' y'"
  by (simp add: fmul_def fl_mono mult_mono)

lemma fmul_nonneg: "0 \<le> x \<Longrightarrow> 0 \<le> y \<Longrightarrow> 0 \<le> fmul x y"
  by (simp add: fmul_def fl_nonneg)

lemma round2_mono: "0 \<le> x \<Longrightarrow> x \<le> y \<Longrightarrow> round2 x \<le> round2 y"
proof -
  assume x: "0 \<le> x" and xy: "x \<le> y"
  have "0 \<le> rhe (100 * x)" using x by (intro rhe_ge_int) simp
  moreover have "rhe (100 * x) \<le> rhe (100 * y)" using xy by (intro rhe_mono) simp
  ultimately show ?thesis by (simp add: round2_def fl_mono divide_right_mono)
qed

lemma round2_unit: "0 \<le> x \<Longrightarrow> x \<le> 1 \<Longrightarrow> 0 \<le> round2 x \<and> round2 x \<le> 1"
proof -
  assume x: "0 \<le> x" "x \<le> 1"
  have "round2 0 = 0" "round2 1 = 1" by code_simp+
  with x show ?thesis using round2_mono [of 0 x] round2_mono [of x 1] by simp
qed

end
