(* ===== verification/Risk.thy ===== *)
theory Risk
  imports Enums PyFloat
begin

text \<open>
  \<open>services/payment_service/app/domain/risk.py\<close>: the deterministic risk score, computed in
  Python's floating point (theory \<open>PyFloat\<close>).  Decisions are ordered
  \<open>APPROVE < REVIEW < REJECT\<close>.
\<close>

record risk_result =
  score :: rat
  decision :: risk_decision
  reasons :: "string list"

text \<open>The float literals of the module.\<close>

definition f_008 :: rat where "f_008 = fl (8 / 100)"
definition f_005 :: rat where "f_005 = fl (5 / 100)"
definition f_035 :: rat where "f_035 = fl (35 / 100)"
definition f_025 :: rat where "f_025 = fl (25 / 100)"
definition f_020 :: rat where "f_020 = fl (20 / 100)"
definition f_085 :: rat where "f_085 = fl (85 / 100)"
definition f_055 :: rat where "f_055 = fl (55 / 100)"

text \<open>\<open>RiskResult(...)\<close> with \<open>Field(ge=0, le=1)\<close> on the score.\<close>

definition RiskResult :: "rat \<Rightarrow> risk_decision \<Rightarrow> string list \<Rightarrow> exn + risk_result" where
  "RiskResult s d rs =
     (if 0 \<le> s \<and> s \<le> 1 then Inr \<lparr>score = s, decision = d, reasons = rs\<rparr> else Inl ValidationError)"

text \<open>\<open>score >= 0.85\<close> and \<open>score >= 0.55\<close>.\<close>

definition decide :: "rat \<Rightarrow> risk_decision" where
  "decide s = (if f_085 \<le> s then REJECT else if f_055 \<le> s then REVIEW else APPROVE)"

definition known_currency :: "string \<Rightarrow> bool" where
  "known_currency c \<longleftrightarrow> c \<in> {''PLN'', ''EUR'', ''USD''}"

text \<open>The additions to the base score, in the order of the code, and the final cap.\<close>

definition risk_score :: "rat \<Rightarrow> int \<Rightarrow> string \<Rightarrow> bool \<Rightarrow> rat" where
  "risk_score base amount_minor currency country_mismatch =
     (let s0 = min 1 base;
          s1 = (if 100000 \<le> amount_minor then fadd s0 f_035 else s0);
          s2 = (if \<not> known_currency currency then fadd s1 f_025 else s1);
          s3 = (if country_mismatch then fadd s2 f_020 else s2)
      in min s3 1)"

definition risk_reasons :: "int \<Rightarrow> string \<Rightarrow> int \<Rightarrow> bool \<Rightarrow> string list" where
  "risk_reasons amount_minor currency velocity_count country_mismatch =
     (if 100000 \<le> amount_minor then [''HIGH_AMOUNT''] else []) @
     (if 5 \<le> velocity_count then [''HIGH_VELOCITY''] else []) @
     (if \<not> known_currency currency then [''UNUSUAL_CURRENCY''] else []) @
     (if country_mismatch then [''COUNTRY_MISMATCH''] else [])"

definition evaluate_risk :: "int \<Rightarrow> string \<Rightarrow> int \<Rightarrow> int \<Rightarrow> bool \<Rightarrow> exn + risk_result" where
  "evaluate_risk amount_minor currency merchant_risk_level velocity_count country_mismatch =
     (case (int_to_float merchant_risk_level, int_to_float velocity_count) of
        (Some level, Some velocity) \<Rightarrow>
          (let base = fadd (fmul level f_008) (fmul velocity f_005);
               s = risk_score base amount_minor currency country_mismatch
           in RiskResult (round2 s) (decide s)
                (risk_reasons amount_minor currency velocity_count country_mismatch))
      | _ \<Rightarrow> Inl OverflowError)"

section \<open>Facts\<close>

lemmas risk_literals = f_008_def f_005_def f_035_def f_025_def f_020_def f_085_def f_055_def

lemma risk_literals_nonneg:
  "0 \<le> f_008" "0 \<le> f_005" "0 \<le> f_035" "0 \<le> f_025" "0 \<le> f_020"
  by (simp_all add: risk_literals fl_nonneg)

instantiation risk_decision :: linorder
begin

fun severity :: "risk_decision \<Rightarrow> nat" where
  "severity APPROVE = 0"
| "severity REVIEW = 1"
| "severity REJECT = 2"

definition less_eq_risk_decision :: "risk_decision \<Rightarrow> risk_decision \<Rightarrow> bool" where
  "less_eq_risk_decision d e \<longleftrightarrow> severity d \<le> severity e"

definition less_risk_decision :: "risk_decision \<Rightarrow> risk_decision \<Rightarrow> bool" where
  "less_risk_decision d e \<longleftrightarrow> severity d < severity e"

instance
proof
  fix d e :: risk_decision
  show "d = e" if "d \<le> e" "e \<le> d"
    using that by (cases d; cases e) (simp_all add: less_eq_risk_decision_def)
qed (auto simp: less_eq_risk_decision_def less_risk_decision_def)

end

lemma decide_mono: "s \<le> t \<Longrightarrow> decide s \<le> decide t"
proof -
  assume "s \<le> t"
  moreover have "f_055 \<le> f_085" by code_simp
  ultimately show ?thesis by (auto simp: decide_def less_eq_risk_decision_def)
qed

lemma risk_score_unit:
  "0 \<le> base \<Longrightarrow> 0 \<le> risk_score base a c m \<and> risk_score base a c m \<le> 1"
  by (auto simp: risk_score_def Let_def fadd_nonneg risk_literals_nonneg)

lemma fadd_ge: "0 \<le> x \<Longrightarrow> 0 \<le> y \<Longrightarrow> fl x = x \<Longrightarrow> x \<le> fadd x y"
  using fl_mono [of x "x + y"] by (simp add: fadd_def)

lemma fadd_increases: "0 \<le> x \<Longrightarrow> 0 \<le> x' \<Longrightarrow> 0 \<le> y \<Longrightarrow> x \<le> x' \<Longrightarrow> fl x' = x' \<Longrightarrow> x \<le> fadd x' y"
  using fadd_ge [of x' y] by linarith

lemma fl_fl_min: "fl (min 1 (fl x)) = min 1 (fl x)" if "0 \<le> x"
proof -
  have "fl 1 = 1" by code_simp
  moreover have "fl (fl x) = fl x" using that by (rule fl_idem)
  ultimately show ?thesis by (simp add: min_def)
qed

lemma risk_score_mono:
  assumes "0 \<le> b" and "b \<le> b'" and "b' = fl z" and "0 \<le> z" and "a \<le> a'" and "m \<longrightarrow> m'"
  shows "risk_score b a c m \<le> risk_score b' a' c m'"
proof -
  define s0 t0 where "s0 = min 1 b" and "t0 = min 1 b'"
  have s0: "0 \<le> s0" "s0 \<le> t0" "fl t0 = t0"
    using assms by (auto simp: s0_def t0_def fl_fl_min)
  define s1 t1 where "s1 = (if 100000 \<le> a then fadd s0 f_035 else s0)"
    and "t1 = (if 100000 \<le> a' then fadd t0 f_035 else t0)"
  have s1: "0 \<le> s1" "s1 \<le> t1" "fl t1 = t1"
    using s0 assms(5) order_trans [OF s0(2) fadd_ge [of t0 f_035]] risk_literals_nonneg
    by (auto simp: s1_def t1_def fadd_nonneg fadd_mono fl_fadd)
  define s2 t2 where "s2 = (if \<not> known_currency c then fadd s1 f_025 else s1)"
    and "t2 = (if \<not> known_currency c then fadd t1 f_025 else t1)"
  have s2: "0 \<le> s2" "s2 \<le> t2" "fl t2 = t2"
    using s1 risk_literals_nonneg
    by (auto simp: s2_def t2_def fadd_nonneg fadd_mono fl_fadd)
  have "(if m then fadd s2 f_020 else s2) \<le> (if m' then fadd t2 f_020 else t2)"
    using s2 assms(6) order_trans [OF s2(2) fadd_ge [of t2 f_020]] risk_literals_nonneg
    by (auto simp: fadd_mono)
  moreover have "risk_score b a c m = min (if m then fadd s2 f_020 else s2) 1"
    by (simp only: risk_score_def Let_def s0_def s1_def s2_def)
  moreover have "risk_score b' a' c m' = min (if m' then fadd t2 f_020 else t2) 1"
    by (simp only: risk_score_def Let_def t0_def t1_def t2_def)
  ultimately show ?thesis by (auto simp: min_def)
qed

lemma risk_base_mono:
  "0 \<le> l \<Longrightarrow> l \<le> l' \<Longrightarrow> 0 \<le> v \<Longrightarrow> v \<le> v' \<Longrightarrow>
     fadd (fmul l f_008) (fmul v f_005) \<le> fadd (fmul l' f_008) (fmul v' f_005)"
  by (intro fadd_mono fmul_mono fmul_nonneg) (auto simp: risk_literals_nonneg)

lemma risk_base_nonneg: "0 \<le> l \<Longrightarrow> 0 \<le> v \<Longrightarrow> 0 \<le> fadd (fmul l f_008) (fmul v f_005)"
  by (intro fadd_nonneg fmul_nonneg) (auto simp: risk_literals_nonneg)

lemma int_to_float_Some:
  "int_to_float n = Some x \<longleftrightarrow> \<bar>n\<bar> < 2 ^ 1024 - 2 ^ 970 \<and> x = fl (of_int n)"
  by (auto simp: int_to_float_def)

lemma evaluate_risk_Inr:
  "0 \<le> level \<Longrightarrow> 0 \<le> velocity \<Longrightarrow>
     level < 2 ^ 1024 - 2 ^ 970 \<Longrightarrow> velocity < 2 ^ 1024 - 2 ^ 970 \<Longrightarrow>
     evaluate_risk a c level velocity m =
       (let s = risk_score (fadd (fmul (fl (of_int level)) f_008) (fmul (fl (of_int velocity)) f_005)) a c m
        in Inr \<lparr>score = round2 s, decision = decide s, reasons = risk_reasons a c velocity m\<rparr>)"
  using risk_score_unit [OF risk_base_nonneg [OF fl_nonneg fl_nonneg]] round2_unit
  by (simp add: evaluate_risk_def int_to_float_def RiskResult_def Let_def)

text \<open>
  The highest score \<open>create_payment\<close> can reach: risk level 5, a high amount, no velocity.
\<close>

lemma highest_payment_risk:
  "decide (risk_score (fadd (fmul (fl 5) f_008) (fmul (fl 0) f_005)) 100000 ''PLN'' False) = REVIEW"
  by code_simp

lemma risk_score_currency: "known_currency c \<Longrightarrow> known_currency d \<Longrightarrow> risk_score b a c m = risk_score b a d m"
  by (simp add: risk_score_def)

lemma risk_score_amount: "100000 \<le> a \<Longrightarrow> risk_score b a c m = risk_score b 100000 c m"
  by (simp add: risk_score_def)

lemma evaluate_risk_payment:
  assumes "1 \<le> level" and "level \<le> 5" and "known_currency c"
  shows "\<exists>r. evaluate_risk a c level 0 False = Inr r \<and> decision r \<le> REVIEW"
proof -
  have lv: "fl (of_int level) \<le> fl 5" using assms by (intro fl_mono) auto
  have small: "(5 :: int) < 2 ^ 1024 - 2 ^ 970" by simp
  let ?base = "\<lambda>l. fadd (fmul l f_008) (fmul (fl 0) f_005)"
  have "risk_score (?base (fl (of_int level))) a c False \<le> risk_score (?base (fl 5)) (max a 100000) c False"
    using assms lv
    by (intro risk_score_mono risk_base_mono risk_base_nonneg)
      (auto simp: fl_nonneg fadd_def risk_literals_nonneg intro!: add_nonneg_nonneg fmul_nonneg)
  also have "\<dots> = risk_score (?base (fl 5)) 100000 ''PLN'' False"
    using assms(3) risk_score_currency [of c "''PLN''"] risk_score_amount [of "max a 100000"]
    by (simp add: known_currency_def)
  finally have "decide (risk_score (?base (fl (of_int level))) a c False)
      \<le> decide (risk_score (?base (fl 5)) 100000 ''PLN'' False)"
    by (rule decide_mono)
  then have "decide (risk_score (?base (fl (of_int level))) a c False) \<le> REVIEW"
    by (simp only: highest_payment_risk)
  moreover have "level < 2 ^ 1024 - 2 ^ 970" using assms(2) small by (rule order_le_less_trans)
  ultimately show ?thesis
    using assms(1) evaluate_risk_Inr [of level 0 a c False] by (simp add: Let_def)
qed

end
