(* ===== verification/PaymentService.thy ===== *)
theory PaymentService
  imports LedgerBook Requests Lifecycle Risk
begin

text \<open>
  \<open>services/payment_service/app/service.py\<close>, from \<open>payment_response\<close> to \<open>refund_payment\<close>:
  one definition per function, the guards and the writes in the order of the code.  The functions
  run inside the transaction their caller opened.
\<close>

section \<open>Responses\<close>

definition payment_response :: "payment \<Rightarrow> json" where
  "payment_response p = JObj
     [(''payment_id'', JStr (uuid_str (p_id p))),
      (''status'', JStr (p_status p)),
      (''amount_minor'', JInt (p_amount_minor p)),
      (''currency'', JStr (p_currency p)),
      (''captured_amount_minor'', JInt (captured_amount_minor p)),
      (''refunded_amount_minor'', JInt (refunded_amount_minor p))]"

definition merchant_ref :: "uuid \<Rightarrow> string" where
  "merchant_ref m = ''merchant:'' @ uuid_str m"

definition risk_dump :: "risk_result \<Rightarrow> json" where
  "risk_dump r = JObj
     [(''score'', JFloat (score r)), (''decision'', JStr (decision_value (decision r))),
      (''reasons'', JList (map JStr (reasons r)))]"

section \<open>Merchants, customers and funding\<close>

definition merchant_scopes :: "string list" where
  "merchant_scopes = [''payments:read'', ''payments:write'', ''refunds:write'', ''webhooks:manage'']"

definition create_merchant :: "ext \<Rightarrow> merchant_create \<Rightarrow> uuid \<Rightarrow> json db_op" where
  "create_merchant ext request correlation_id =
     bind_op (draw (\<lambda>n. generate_api_key ext n False)) (\<lambda>(raw_key, digest).
     bind_op (fresh_id ext) (\<lambda>mid.
     bind_op (now ext) (\<lambda>t.
     bind_op (insert_merchant \<lparr>m_id = mid, m_name = mc_name request,
       m_risk_level = mc_risk_level request, m_created_at = t\<rparr>) (\<lambda>_.
     bind_op (fresh_id ext) (\<lambda>kid.
     bind_op (now ext) (\<lambda>t'.
     bind_op (insert_api_key \<lparr>k_id = kid, k_merchant_id = mid, key_hash = digest,
       scopes = merchant_scopes, revoked_at = None, k_created_at = t'\<rparr>) (\<lambda>_.
     bind_op (append_audit ext (merchant_ref mid) ''api_key.created'' (merchant_ref mid) correlation_id
       (JObj [(''scopes'', JList (map JStr merchant_scopes))])) (\<lambda>_.
     ret (JObj [(''merchant_id'', JStr (uuid_str mid)), (''api_key'', JStr raw_key)])))))))))"

definition create_customer :: "ext \<Rightarrow> uuid \<Rightarrow> customer_create \<Rightarrow> uuid \<Rightarrow> json db_op" where
  "create_customer ext merchant_id request correlation_id =
     bind_op (fresh_id ext) (\<lambda>cid.
     bind_op (now ext) (\<lambda>t.
     bind_op (insert_customer \<lparr>c_id = cid, c_merchant_id = merchant_id, email = cc_email request,
       c_created_at = t\<rparr>) (\<lambda>_.
     bind_op (fresh_id ext) (\<lambda>aid.
     bind_op (now ext) (\<lambda>t'.
     bind_op (insert_account \<lparr>a_id = aid, a_customer_id = cid,
       a_currency = currency_value (cc_currency request), a_created_at = t'\<rparr>) (\<lambda>_.
     bind_op (append_audit ext (merchant_ref merchant_id) ''customer.created''
       (''customer:'' @ uuid_str cid) correlation_id
       (JObj [(''account_currency'', JStr (currency_value (cc_currency request)))])) (\<lambda>_.
     ret (JObj [(''customer_id'', JStr (uuid_str cid)), (''account_id'', JStr (uuid_str aid))]))))))))"

text \<open>\<open>row is None or row.merchant_id != merchant_id\<close>.\<close>

definition not_owned :: "('r \<Rightarrow> uuid) \<Rightarrow> 'r option \<Rightarrow> uuid \<Rightarrow> bool" where
  "not_owned merchant_of row merchant_id =
     (case row of None \<Rightarrow> True | Some r \<Rightarrow> merchant_of r \<noteq> merchant_id)"

lemma not_owned_False [simp]: "\<not> not_owned f row m \<longleftrightarrow> (\<exists>r. row = Some r \<and> f r = m)"
  by (auto simp: not_owned_def split: option.split)

definition account_not_found :: exn where
  "account_not_found = BusinessError ''ACCOUNT_NOT_FOUND'' ''Account was not found.''"

definition fund_account :: "ext \<Rightarrow> uuid \<Rightarrow> uuid \<Rightarrow> fund_request \<Rightarrow> uuid \<Rightarrow> json db_op" where
  "fund_account ext merchant_id account_id request correlation_id =
     bind_op (query (\<lambda>d. row_at a_id account_id (accounts d))) (\<lambda>found.
     case found of
       None \<Rightarrow> raise account_not_found
     | Some account \<Rightarrow>
     bind_op (query (\<lambda>d. row_at c_id (a_customer_id account) (customers d))) (\<lambda>customer.
     bind_op (raise_if (not_owned c_merchant_id customer merchant_id) account_not_found) (\<lambda>_.
     bind_op (raise_if (a_currency account \<noteq> currency_value (fr_currency request))
       (BusinessError ''CURRENCY_MISMATCH'' ''Funding currency must match the account currency.'')) (\<lambda>_.
     bind_op (ensure_ledger_account ext (a_customer_id account) ''customer_cash'' (a_currency account)
       ''DEBIT'') (\<lambda>customer_cash.
     bind_op (ensure_ledger_account ext merchant_id ''simulated_provider_funding'' (a_currency account)
       ''CREDIT'') (\<lambda>funding_source.
     bind_op (lift_sum (Money (fr_amount_minor request) (fr_currency request))) (\<lambda>amount.
     bind_op (lift_sum (simulated_funding amount ''customer_cash'' ''simulated_provider_funding'')) (\<lambda>lines.
     bind_op (create_journal ext ''account_funding'' (a_id account) (a_currency account)
       [(''customer_cash'', customer_cash), (''simulated_provider_funding'', funding_source)] lines) (\<lambda>jid.
     bind_op (append_audit ext (merchant_ref merchant_id) ''account.funded''
       (''account:'' @ uuid_str (a_id account)) correlation_id
       (JObj [(''amount_minor'', JInt (fr_amount_minor request)),
              (''currency'', JStr (currency_value (fr_currency request)))])) (\<lambda>_.
     ret (JObj [(''journal_id'', JStr (uuid_str jid))])))))))))))"

text \<open>The customer's cash accounts in a currency, and what they hold.\<close>

definition cash_account_ids :: "db \<Rightarrow> uuid \<Rightarrow> string \<Rightarrow> uuid list" where
  "cash_account_ids d owner cur =
     map la_id (filter (\<lambda>a. la_name a = ''customer_cash'')
       (filter (\<lambda>a. owner_id a = owner \<and> la_currency a = cur) (ledger_accounts d)))"

definition available_balance :: "db \<Rightarrow> uuid \<Rightarrow> string \<Rightarrow> int" where
  "available_balance d owner cur =
     (let ids = cash_account_ids d owner cur in
      if ids = [] then 0
      else
        sum_where (\<lambda>e. ledger_account_id e \<in> set ids \<and> e_direction e = ''DEBIT'') e_amount_minor
          (journal_entries d) -
        sum_where (\<lambda>e. ledger_account_id e \<in> set ids \<and> e_direction e = ''CREDIT'') e_amount_minor
          (journal_entries d))"

section \<open>Creating a payment\<close>

text \<open>The row of a new payment, with the column defaults.\<close>

definition new_payment :: "uuid \<Rightarrow> uuid \<Rightarrow> payment_request \<Rightarrow> payment_status \<Rightarrow> int \<Rightarrow> int \<Rightarrow> payment" where
  "new_payment pid merchant_id request status t t' =
     \<lparr>p_id = pid, p_merchant_id = merchant_id, p_customer_id = pr_customer_id request,
      p_amount_minor = pr_amount_minor request, p_currency = currency_value (pr_currency request),
      p_status = status_value status, captured_amount_minor = 0, refunded_amount_minor = 0,
      provider_reference = None, p_version = 1, p_created_at = t, p_updated_at = t'\<rparr>"

text \<open>The second half of \<open>create_payment\<close>, after the risk evaluation.\<close>

definition persist_payment ::
  "ext \<Rightarrow> uuid \<Rightarrow> payment_request \<Rightarrow> idempotency_record \<Rightarrow> risk_result \<Rightarrow> uuid \<Rightarrow> (int \<times> json) db_op" where
  "persist_payment ext merchant_id request record risk correlation_id =
     (let status = (if decision risk \<noteq> REJECT then PENDING else FAILED) in
     bind_op (fresh_id ext) (\<lambda>pid.
     bind_op (now ext) (\<lambda>t.
     bind_op (now ext) (\<lambda>t'.
     let payment = new_payment pid merchant_id request status t t' in
     bind_op (insert_payment payment) (\<lambda>_.
     bind_op (append_outbox ext (if status \<noteq> FAILED then PAYMENT_CREATED else PAYMENT_FAILED) pid ''payment''
       [(''payment_id'', JStr (uuid_str pid)), (''status'', JStr (p_status payment)),
        (''risk'', risk_dump risk)] correlation_id) (\<lambda>_.
     bind_op (append_audit ext (merchant_ref merchant_id) ''payment.created''
       (''payment:'' @ uuid_str pid) correlation_id (JObj [(''risk'', risk_dump risk)])) (\<lambda>_.
     let body = payment_response payment in
     bind_op (complete_idempotency record 201 body pid) (\<lambda>_.
     bind_op (count_metric (\<lambda>c. c\<lparr>payments_created_total := payments_created_total c + 1\<rparr>)) (\<lambda>_.
     bind_op (if status = FAILED
              then count_metric (\<lambda>c. c\<lparr>payments_failed_total := payments_failed_total c + 1\<rparr>)
              else ret ()) (\<lambda>_.
     ret (201, body)))))))))))"

definition create_payment ::
  "ext \<Rightarrow> uuid \<Rightarrow> payment_request \<Rightarrow> string \<Rightarrow> uuid \<Rightarrow> (int \<times> json) db_op" where
  "create_payment ext merchant_id request idempotency_key correlation_id =
     (let fingerprint = canonical_fingerprint ext (payment_request_dump request) in
     bind_op (catch_op (claim_idempotency ext merchant_id idempotency_key fingerprint)
       (\<lambda>e. case e of
          IdempotencyConflictError msg \<Rightarrow> raise (BusinessError ''IDEMPOTENCY_CONFLICT'' msg)
        | _ \<Rightarrow> raise e)) (\<lambda>record.
     case (response_body record, response_status record) of
       (Some body, Some status) \<Rightarrow> ret (status, body)
     | _ \<Rightarrow>
     bind_op (query (\<lambda>d. row_at c_id (pr_customer_id request) (customers d))) (\<lambda>customer.
     bind_op (raise_if (not_owned c_merchant_id customer merchant_id)
       (BusinessError ''CUSTOMER_NOT_FOUND'' ''Customer was not found for this merchant.'')) (\<lambda>_.
     bind_op (query (\<lambda>d. row_at m_id merchant_id (merchants d))) (\<lambda>found.
     case found of
       None \<Rightarrow> raise (BusinessError ''MERCHANT_NOT_FOUND'' ''Merchant was not found.'')
     | Some merchant \<Rightarrow>
     bind_op (lift_sum (evaluate_risk (pr_amount_minor request) (currency_value (pr_currency request))
       (m_risk_level merchant) 0 False)) (\<lambda>risk.
     persist_payment ext merchant_id request record risk correlation_id))))))"

section \<open>Authorisation, capture, cancellation and refund\<close>

definition payment_not_found :: exn where
  "payment_not_found = BusinessError ''PAYMENT_NOT_FOUND'' ''Payment was not found.''"

definition customer_not_found :: exn where
  "customer_not_found = BusinessError ''CUSTOMER_NOT_FOUND'' ''Customer was not found.''"

text \<open>\<open>transition(PaymentStatus(payment.status), target)\<close>.\<close>

definition check_transition :: "payment \<Rightarrow> payment_status \<Rightarrow> exn + payment_status" where
  "check_transition p target = bind_sum (PaymentStatus (p_status p)) (\<lambda>s. transition s target)"

definition payment_event_payload :: "payment \<Rightarrow> (string \<times> json) list" where
  "payment_event_payload p =
     [(''payment_id'', JStr (uuid_str (p_id p))), (''amount_minor'', JInt (p_amount_minor p)),
      (''currency'', JStr (p_currency p))]"

definition audit_payment :: "ext \<Rightarrow> uuid \<Rightarrow> string \<Rightarrow> payment \<Rightarrow> uuid \<Rightarrow> unit db_op" where
  "audit_payment ext merchant_id action_text p correlation_id =
     append_audit ext (merchant_ref merchant_id) action_text (''payment:'' @ uuid_str (p_id p))
       correlation_id (JObj [])"

definition authorize_payment :: "ext \<Rightarrow> uuid \<Rightarrow> uuid \<Rightarrow> uuid \<Rightarrow> json db_op" where
  "authorize_payment ext merchant_id payment_id correlation_id =
     bind_op (query (payment_for_update payment_id merchant_id)) (\<lambda>found.
     case found of
       None \<Rightarrow> raise payment_not_found
     | Some payment \<Rightarrow>
     bind_op (lift_sum (check_transition payment AUTHORIZED)) (\<lambda>_.
     bind_op (query (\<lambda>d. row_at c_id (p_customer_id payment) (customers d))) (\<lambda>found'.
     case found' of
       None \<Rightarrow> raise customer_not_found
     | Some customer \<Rightarrow>
     bind_op (query (\<lambda>d. available_balance d (c_id customer) (p_currency payment))) (\<lambda>balance.
     if balance < p_amount_minor payment then
       bind_op (update_payment (p_id payment) (\<lambda>p. p\<lparr>p_status := status_value FAILED\<rparr>)) (\<lambda>_.
       bind_op (append_outbox ext PAYMENT_FAILED (p_id payment) ''payment''
         [(''payment_id'', JStr (uuid_str (p_id payment))), (''reason'', JStr ''INSUFFICIENT_FUNDS'')]
         correlation_id) (\<lambda>_.
       bind_op (count_metric (\<lambda>c. c\<lparr>payments_failed_total := payments_failed_total c + 1\<rparr>)) (\<lambda>_.
       raise (PersistedBusinessError ''INSUFFICIENT_FUNDS'' ''Available balance is insufficient.''))))
     else
       bind_op (now ext) (\<lambda>t.
       let change = (\<lambda>p. p\<lparr>p_status := status_value AUTHORIZED, p_updated_at := t\<rparr>) in
       bind_op (update_payment (p_id payment) change) (\<lambda>_.
       bind_op (append_outbox ext PAYMENT_AUTHORIZED (p_id payment) ''payment''
         (payment_event_payload payment) correlation_id) (\<lambda>_.
       bind_op (audit_payment ext merchant_id ''payment.authorized'' payment correlation_id) (\<lambda>_.
       ret (payment_response (change payment))))))))))"

definition capture_payment :: "ext \<Rightarrow> uuid \<Rightarrow> uuid \<Rightarrow> uuid \<Rightarrow> json db_op" where
  "capture_payment ext merchant_id payment_id correlation_id =
     bind_op (query (payment_for_update payment_id merchant_id)) (\<lambda>found.
     case found of
       None \<Rightarrow> raise payment_not_found
     | Some payment \<Rightarrow>
     bind_op (lift_sum (check_transition payment CAPTURED)) (\<lambda>_.
     bind_op (query (\<lambda>d. row_at c_id (p_customer_id payment) (customers d))) (\<lambda>found'.
     case found' of
       None \<Rightarrow> raise customer_not_found
     | Some customer \<Rightarrow>
     bind_op (query (\<lambda>d. available_balance d (c_id customer) (p_currency payment))) (\<lambda>balance.
     bind_op (raise_if (balance < p_amount_minor payment)
       (BusinessError ''INSUFFICIENT_FUNDS'' ''Available balance is insufficient.'')) (\<lambda>_.
     bind_op (ensure_ledger_account ext (c_id customer) ''customer_cash'' (p_currency payment) ''DEBIT'') (\<lambda>customer_cash.
     bind_op (ensure_ledger_account ext merchant_id ''merchant_receivable'' (p_currency payment) ''CREDIT'') (\<lambda>merchant_receivable.
     bind_op (lift_sum (Currency (p_currency payment))) (\<lambda>cur.
     bind_op (lift_sum (Money (p_amount_minor payment) cur)) (\<lambda>amount.
     bind_op (catch_op
       (bind_op (lift_sum (capture amount ''customer_cash'' ''merchant_receivable'')) (\<lambda>lines.
        create_journal ext ''payment_capture'' (p_id payment) (p_currency payment)
          [(''customer_cash'', customer_cash), (''merchant_receivable'', merchant_receivable)] lines))
       (\<lambda>e. if e = IntegrityError
            then raise (BusinessError ''PAYMENT_ALREADY_CAPTURED'' ''Payment has already been captured.'')
            else raise e)) (\<lambda>_.
     bind_op (now ext) (\<lambda>t.
     let change = (\<lambda>p. p\<lparr>p_status := status_value CAPTURED,
                          captured_amount_minor := p_amount_minor p, p_updated_at := t\<rparr>) in
     bind_op (update_payment (p_id payment) change) (\<lambda>_.
     bind_op (append_outbox ext PAYMENT_CAPTURED (p_id payment) ''payment''
       (payment_event_payload payment) correlation_id) (\<lambda>_.
     bind_op (audit_payment ext merchant_id ''payment.captured'' payment correlation_id) (\<lambda>_.
     ret (payment_response (change payment))))))))))))))))"

definition cancel_payment :: "ext \<Rightarrow> uuid \<Rightarrow> uuid \<Rightarrow> uuid \<Rightarrow> json db_op" where
  "cancel_payment ext merchant_id payment_id correlation_id =
     bind_op (query (payment_for_update payment_id merchant_id)) (\<lambda>found.
     case found of
       None \<Rightarrow> raise payment_not_found
     | Some payment \<Rightarrow>
     bind_op (lift_sum (check_transition payment CANCELLED)) (\<lambda>_.
     bind_op (now ext) (\<lambda>t.
     let change = (\<lambda>p. p\<lparr>p_status := status_value CANCELLED, p_updated_at := t\<rparr>) in
     bind_op (update_payment (p_id payment) change) (\<lambda>_.
     bind_op (append_outbox ext PAYMENT_CANCELLED (p_id payment) ''payment'' [] correlation_id) (\<lambda>_.
     ret (payment_response (change payment)))))))"

definition refundable :: "payment_status \<Rightarrow> bool" where
  "refundable status \<longleftrightarrow> status \<in> {CAPTURED, PARTIALLY_REFUNDED}"

text \<open>The status after a refund: is everything captured now refunded?\<close>

definition refund_status :: "int \<Rightarrow> int \<Rightarrow> payment_status" where
  "refund_status refunded captured = (if refunded = captured then REFUNDED else PARTIALLY_REFUNDED)"

definition refund_payment :: "ext \<Rightarrow> uuid \<Rightarrow> uuid \<Rightarrow> refund_request \<Rightarrow> uuid \<Rightarrow> json db_op" where
  "refund_payment ext merchant_id payment_id request correlation_id =
     bind_op (query (payment_for_update payment_id merchant_id)) (\<lambda>found.
     case found of
       None \<Rightarrow> raise payment_not_found
     | Some payment \<Rightarrow>
     bind_op (lift_sum (PaymentStatus (p_status payment))) (\<lambda>status.
     bind_op (raise_if (\<not> refundable status)
       (BusinessError ''PAYMENT_NOT_REFUNDABLE'' ''Only captured payments can be refunded.'')) (\<lambda>_.
     let remaining = captured_amount_minor payment - refunded_amount_minor payment in
     bind_op (raise_if (remaining < rr_amount_minor request)
       (BusinessError ''REFUND_EXCEEDS_CAPTURE'' ''Refund amount exceeds captured amount.'')) (\<lambda>_.
     bind_op (query (\<lambda>d. row_at c_id (p_customer_id payment) (customers d))) (\<lambda>found'.
     case found' of
       None \<Rightarrow> raise customer_not_found
     | Some customer \<Rightarrow>
     bind_op (ensure_ledger_account ext (c_id customer) ''customer_cash'' (p_currency payment) ''DEBIT'') (\<lambda>customer_cash.
     bind_op (ensure_ledger_account ext merchant_id ''merchant_receivable'' (p_currency payment) ''CREDIT'') (\<lambda>merchant_receivable.
     bind_op (fresh_id ext) (\<lambda>rid.
     bind_op (now ext) (\<lambda>t.
     bind_op (insert_refund \<lparr>r_id = rid, r_payment_id = p_id payment,
       r_amount_minor = rr_amount_minor request, r_currency = p_currency payment,
       r_status = ''SUCCEEDED'', r_created_at = t\<rparr>) (\<lambda>_.
     bind_op (lift_sum (Currency (p_currency payment))) (\<lambda>cur.
     bind_op (lift_sum (Money (rr_amount_minor request) cur)) (\<lambda>amount.
     bind_op (lift_sum (refund amount ''merchant_receivable'' ''customer_cash'')) (\<lambda>lines.
     bind_op (create_journal ext ''payment_refund'' rid (p_currency payment)
       [(''customer_cash'', customer_cash), (''merchant_receivable'', merchant_receivable)] lines) (\<lambda>_.
     let refunded = refunded_amount_minor payment + rr_amount_minor request;
         change = (\<lambda>p. p\<lparr>refunded_amount_minor := refunded,
           p_status := status_value (refund_status refunded (captured_amount_minor payment))\<rparr>) in
     bind_op (update_payment (p_id payment) change) (\<lambda>_.
     bind_op (append_outbox ext PAYMENT_REFUNDED (p_id payment) ''payment''
       [(''payment_id'', JStr (uuid_str (p_id payment))), (''refund_id'', JStr (uuid_str rid)),
        (''amount_minor'', JInt (rr_amount_minor request))] correlation_id) (\<lambda>_.
     ret (payment_response (change payment))))))))))))))))))"

end
