(* ===== verification/Books.thy ===== *)
theory Books
  imports PaymentService
begin

text \<open>
  The invariant that ties payments, refunds and the ledger together, and its preservation by each
  write the payment functions make.  Lemmas here are about tables; theory \<open>PaymentProofs\<close> lifts
  them to the functions of \<open>service.py\<close>.
\<close>

section \<open>The invariant\<close>

text \<open>The amounts a payment has in each state of its lifecycle.\<close>

fun status_amounts :: "payment_status \<Rightarrow> int \<Rightarrow> int \<Rightarrow> int \<Rightarrow> bool" where
  "status_amounts CAPTURED amt cap ref \<longleftrightarrow> cap = amt \<and> ref = 0"
| "status_amounts PARTIALLY_REFUNDED amt cap ref \<longleftrightarrow> cap = amt \<and> 0 < ref \<and> ref < amt"
| "status_amounts REFUNDED amt cap ref \<longleftrightarrow> cap = amt \<and> ref = amt"
| "status_amounts _ amt cap ref \<longleftrightarrow> cap = 0 \<and> ref = 0"

definition payment_ok :: "payment \<Rightarrow> bool" where
  "payment_ok p \<longleftrightarrow>
     0 < p_amount_minor p \<and>
     (case (status_of (p_status p), currency_of (p_currency p)) of
        (Some st, Some _) \<Rightarrow>
          status_amounts st (p_amount_minor p) (captured_amount_minor p) (refunded_amount_minor p)
      | _ \<Rightarrow> False)"

definition refunds_of :: "db \<Rightarrow> uuid \<Rightarrow> int" where
  "refunds_of d pid = sum_where (\<lambda>r. r_payment_id r = pid) r_amount_minor (refunds d)"

definition payment_agrees :: "db \<Rightarrow> payment \<Rightarrow> bool" where
  "payment_agrees d p \<longleftrightarrow>
     reference_total d ''payment_capture'' (p_id p) ''CREDIT'' = captured_amount_minor p \<and>
     refunds_of d (p_id p) = refunded_amount_minor p"

definition refund_agrees :: "db \<Rightarrow> refund_row \<Rightarrow> bool" where
  "refund_agrees d r \<longleftrightarrow> reference_total d ''payment_refund'' (r_id r) ''CREDIT'' = r_amount_minor r"

definition references_ok :: "db \<Rightarrow> bool" where
  "references_ok d \<longleftrightarrow>
     (\<forall>j \<in> set (journals d).
        (reference_type j = ''payment_capture'' \<longrightarrow> reference_id j \<in> p_id ` set (payments d)) \<and>
        (reference_type j = ''payment_refund'' \<longrightarrow> reference_id j \<in> r_id ` set (refunds d))) \<and>
     ledger_account_id ` set (journal_entries d) \<subseteq> la_id ` set (ledger_accounts d) \<and>
     r_payment_id ` set (refunds d) \<subseteq> p_id ` set (payments d)"

definition cash_nonnegative :: "db \<Rightarrow> bool" where
  "cash_nonnegative d \<longleftrightarrow> (\<forall>owner cur. 0 \<le> available_balance d owner cur)"

definition books_ok :: "db \<Rightarrow> bool" where
  "books_ok d \<longleftrightarrow>
     book_ok d \<and> references_ok d \<and> cash_nonnegative d \<and>
     distinct (map p_id (payments d)) \<and> distinct (map r_id (refunds d)) \<and>
     (\<forall>p \<in> set (payments d). payment_ok p \<and> payment_agrees d p) \<and>
     (\<forall>r \<in> set (refunds d). refund_agrees d r)"

text \<open>The tables the invariant reads.\<close>

definition books :: "db \<Rightarrow> payment list \<times> refund_row list \<times> ledger_account list \<times> journal list \<times> journal_entry list" where
  "books d = (payments d, refunds d, ledger_accounts d, journals d, journal_entries d)"

lemmas books_defs = books_ok_def book_ok_def ledger_tables_ok_def posted_balanced_def
  journal_balanced_def entry_total_def entries_of_def entries_have_journals_def references_ok_def
  cash_nonnegative_def available_balance_def cash_account_ids_def payment_agrees_def refund_agrees_def
  refunds_of_def reference_total_def joined_entries_def

lemma books_ok_cong: "books d' = books d \<Longrightarrow> books_ok d' = books_ok d"
proof -
  assume "books d' = books d"
  then have same: "payments d' = payments d" "refunds d' = refunds d" "journals d' = journals d"
    "ledger_accounts d' = ledger_accounts d" "journal_entries d' = journal_entries d"
    by (auto simp: books_def)
  show ?thesis unfolding books_defs same ..
qed

lemma books_ok_empty: "books_ok empty_db"
  by (simp add: books_defs empty_db_def)

section \<open>Balances of customers\<close>

lemma available_balance_eq: "available_balance d ow c = balance_of d (set (cash_account_ids d ow c))"
  by (simp add: available_balance_def balance_of_def Let_def sum_where_none)

lemma in_cash_account_ids:
  assumes "distinct (map la_id (ledger_accounts d))" and "a \<in> set (ledger_accounts d)"
  shows "la_id a \<in> set (cash_account_ids d ow c) \<longleftrightarrow> la_key a = (ow, ''customer_cash'', c)"
proof -
  have "b = a" if "b \<in> set (ledger_accounts d)" "la_id b = la_id a" for b
    using assms that by (auto simp: distinct_map dest: inj_onD)
  then show ?thesis using assms(2) by (auto simp: cash_account_ids_def la_key_def image_iff)
qed

lemma cash_account_ids_posting [simp]: "cash_account_ids (posting j e f d) ow c = cash_account_ids d ow c"
  by (simp add: cash_account_ids_def)

text \<open>A posting that credits at most what a customer has leaves every balance nonnegative.\<close>

lemma cash_posting:
  assumes "cash_nonnegative d" and "posts d rtype rid cur (la_id x) (la_id y) m j e f"
    and "distinct (map la_id (ledger_accounts d))"
    and "x \<in> set (ledger_accounts d)" and "y \<in> set (ledger_accounts d)"
    and "\<And>ow c. la_key y = (ow, ''customer_cash'', c) \<Longrightarrow> amount_minor m \<le> available_balance d ow c"
  shows "cash_nonnegative (posting j e f d)"
  unfolding cash_nonnegative_def
proof (intro allI)
  fix ow c
  have "0 < amount_minor m" using assms(2) by (simp add: posts_def)
  moreover have "0 \<le> available_balance d ow c" using assms(1) by (simp add: cash_nonnegative_def)
  ultimately show "0 \<le> available_balance (posting j e f d) ow c"
    using assms(6) [of ow c]
    by (simp add: available_balance_eq balance_of_posting [OF assms(2)]
        in_cash_account_ids [OF assms(3,4)] in_cash_account_ids [OF assms(3,5)])
qed

section \<open>New ledger accounts\<close>

lemma balance_of_cong:
  "journal_entries d' = journal_entries d \<Longrightarrow> (\<And>e. e \<in> set (journal_entries d) \<Longrightarrow> (ledger_account_id e \<in> A) = (ledger_account_id e \<in> B))
     \<Longrightarrow> balance_of d' A = balance_of d B"
  unfolding balance_of_def by (auto intro!: arg_cong2 [where f = "(-)"] sum_where_cong)

lemma available_balance_new_account:
  assumes "references_ok d" and "la_id a \<notin> la_id ` set (ledger_accounts d)"
  shows "available_balance (d\<lparr>ledger_accounts := ledger_accounts d @ [a]\<rparr>) ow c = available_balance d ow c"
proof -
  have "ledger_account_id e \<noteq> la_id a" if "e \<in> set (journal_entries d)" for e
    using assms that unfolding references_ok_def by (metis image_eqI subsetD)
  then show ?thesis
    unfolding available_balance_eq by (intro balance_of_cong) (auto simp: cash_account_ids_def)
qed

lemma books_ok_new_account:
  assumes ok: "books_ok d"
    and a: "la_id a \<notin> la_id ` set (ledger_accounts d)" "la_key a \<notin> la_key ` set (ledger_accounts d)"
  shows "books_ok (d\<lparr>ledger_accounts := ledger_accounts d @ [a]\<rparr>)"
proof -
  let ?d = "d\<lparr>ledger_accounts := ledger_accounts d @ [a]\<rparr>"
  have refs: "references_ok d" using ok by (simp add: books_ok_def)
  have "book_ok ?d" using ok a by - (rule book_ok_frame [of d], auto simp: books_ok_def book_ok_def)
  moreover have "cash_nonnegative ?d"
    using ok by (simp add: cash_nonnegative_def available_balance_new_account [OF refs a(1)] books_ok_def)
  moreover have "references_ok ?d" using refs by (auto simp: references_ok_def)
  moreover have "payment_agrees ?d p = payment_agrees d p" "refund_agrees ?d r = refund_agrees d r" for p r
    by (simp_all add: payment_agrees_def refund_agrees_def refunds_of_def reference_total_def joined_entries_def)
  ultimately show ?thesis using ok by (simp add: books_ok_def)
qed

section \<open>Writes to payments\<close>

text \<open>
  Between the posting and the update of the payment the two disagree about that payment only:
  \<open>books_but k\<close> is the invariant without the agreement of payment \<open>k\<close>.
\<close>

definition books_but :: "uuid \<Rightarrow> db \<Rightarrow> bool" where
  "books_but k d \<longleftrightarrow>
     book_ok d \<and> references_ok d \<and> cash_nonnegative d \<and>
     distinct (map p_id (payments d)) \<and> distinct (map r_id (refunds d)) \<and>
     (\<forall>p \<in> set (payments d). payment_ok p \<and> (p_id p \<noteq> k \<longrightarrow> payment_agrees d p)) \<and>
     (\<forall>r \<in> set (refunds d). refund_agrees d r)"

lemma books_but_weaken: "books_ok d \<Longrightarrow> books_but k d"
  by (simp add: books_ok_def books_but_def)

lemma books_ok_payment: "books_ok d \<Longrightarrow> p \<in> set (payments d) \<Longrightarrow> payment_ok p \<and> payment_agrees d p"
  by (simp add: books_ok_def)

lemma payments_frame:
  "book_ok (d\<lparr>payments := t\<rparr>) = book_ok d"
  "cash_nonnegative (d\<lparr>payments := t\<rparr>) = cash_nonnegative d"
  "refund_agrees (d\<lparr>payments := t\<rparr>) r = refund_agrees d r"
  "payment_agrees (d\<lparr>payments := t\<rparr>) p = payment_agrees d p"
  by (simp_all add: books_defs Let_def)

lemma books_ok_set_payment:
  assumes but: "books_but k d" and p: "row_at p_id k (payments d) = Some p"
    and id: "\<And>r. p_id (f r) = p_id r" and ok: "payment_ok (f p)" "payment_agrees d (f p)"
  shows "books_ok (d\<lparr>payments := row_set p_id k f (payments d)\<rparr>)"
proof -
  have dist: "distinct (map p_id (payments d))" using but by (simp add: books_but_def)
  have ids: "map p_id (row_set p_id k f (payments d)) = map p_id (payments d)"
    by (rule map_key_row_set) (rule id)
  then have "p_id ` set (row_set p_id k f (payments d)) = p_id ` set (payments d)"
    by (metis list.set_map)
  then have "references_ok (d\<lparr>payments := row_set p_id k f (payments d)\<rparr>)"
    using but by (simp add: books_but_def references_ok_def)
  then show ?thesis
    using but ok ids dist
    by (auto simp: books_ok_def books_but_def payments_frame in_set_row_set [OF dist p])
qed

lemma reference_total_absent:
  assumes "\<And>j. j \<in> set (journals d) \<Longrightarrow> reference_type j = rtype \<Longrightarrow> reference_id j \<noteq> rid"
  shows "reference_total d rtype rid dir = 0"
  unfolding reference_total_def using assms by (intro sum_where_none) (auto simp: joined_entries_def)

lemma books_ok_new_payment:
  assumes ok: "books_ok d" and fresh: "p_id p \<notin> p_id ` set (payments d)" and p: "payment_ok p"
    and zero: "captured_amount_minor p = 0" "refunded_amount_minor p = 0"
  shows "books_ok (d\<lparr>payments := payments d @ [p]\<rparr>)"
proof -
  have refs: "references_ok d" using ok by (simp add: books_ok_def)
  have "reference_total d ''payment_capture'' (p_id p) ''CREDIT'' = 0"
    using refs fresh by (intro reference_total_absent) (metis references_ok_def)
  moreover have "refunds_of d (p_id p) = 0"
    unfolding refunds_of_def
  proof (rule sum_where_none)
    fix r assume "r \<in> set (refunds d)"
    then have "r_payment_id r \<in> p_id ` set (payments d)" using refs by (auto simp: references_ok_def)
    then show "r_payment_id r \<noteq> p_id p" using fresh by metis
  qed
  ultimately have "payment_agrees d p" using zero by (simp add: payment_agrees_def)
  moreover have "references_ok (d\<lparr>payments := payments d @ [p]\<rparr>)"
    using refs by (auto simp: references_ok_def)
  ultimately show ?thesis using ok fresh p by (simp add: books_ok_def payments_frame)
qed

section \<open>Postings\<close>

text \<open>The part of the invariant that every posting of the service keeps.\<close>

lemma posting_refs:
  assumes "references_ok d" and "posts d rtype rid cur debited credited m j e f"
    and "rtype = ''payment_capture'' \<Longrightarrow> rid \<in> p_id ` set (payments d)"
    and "rtype = ''payment_refund'' \<Longrightarrow> rid \<in> r_id ` set (refunds d)"
  shows "references_ok (posting j e f d)"
  using assms by (auto simp: references_ok_def posts_def)

lemma refunds_of_posting [simp]: "refunds_of (posting j e f d) k = refunds_of d k"
  by (simp add: refunds_of_def)

text \<open>Funding: a journal that no payment and no refund refers to.\<close>

lemma books_ok_funding:
  assumes ok: "books_ok d"
    and post: "posts d ''account_funding'' rid jc (la_id x) (la_id y) m j e f"
    and jc: "jc = currency_value (money_currency m)"
    and xy: "x \<in> set (ledger_accounts d)" "y \<in> set (ledger_accounts d)" and y: "la_name y \<noteq> ''customer_cash''"
  shows "books_ok (posting j e f d)"
proof -
  have parts: "book_ok d" "references_ok d" "cash_nonnegative d" "distinct (map la_id (ledger_accounts d))"
    "entries_have_journals d"
    using ok by (auto simp: books_ok_def book_ok_def)
  have "cash_nonnegative (posting j e f d)"
    by (rule cash_posting [OF parts(3) post parts(4) xy]) (use y in \<open>auto simp: la_key_def\<close>)
  moreover have "references_ok (posting j e f d)" by (rule posting_refs [OF parts(2) post]) simp_all
  moreover have "payment_agrees (posting j e f d) p = payment_agrees d p"
    "refund_agrees (posting j e f d) r = refund_agrees d r" for p r
    by (simp_all add: payment_agrees_def refund_agrees_def reference_total_posting [OF post parts(5)])
  ultimately show ?thesis using ok book_ok_posting [OF post [unfolded jc] parts(1)] by (simp add: books_ok_def)
qed

lemma books_but_capture:
  assumes ok: "books_ok d"
    and post: "posts d ''payment_capture'' k jc (la_id x) (la_id y) m j e f"
    and jc: "jc = currency_value (money_currency m)"
    and xy: "x \<in> set (ledger_accounts d)" "y \<in> set (ledger_accounts d)"
    and y: "la_key y = (owner, ''customer_cash'', cur)" "amount_minor m \<le> available_balance d owner cur"
    and k: "k \<in> p_id ` set (payments d)"
  shows "books_but k (posting j e f d)"
proof -
  have parts: "book_ok d" "references_ok d" "cash_nonnegative d" "distinct (map la_id (ledger_accounts d))"
    "entries_have_journals d"
    using ok by (auto simp: books_ok_def book_ok_def)
  have "cash_nonnegative (posting j e f d)"
    by (rule cash_posting [OF parts(3) post parts(4) xy]) (use y in auto)
  moreover have "references_ok (posting j e f d)" by (rule posting_refs [OF parts(2) post]) (simp_all add: k)
  moreover have "p_id p \<noteq> k \<Longrightarrow> payment_agrees (posting j e f d) p = payment_agrees d p"
    "refund_agrees (posting j e f d) r = refund_agrees d r" for p r
    by (auto simp: payment_agrees_def refund_agrees_def reference_total_posting [OF post parts(5)])
  ultimately show ?thesis
    using ok book_ok_posting [OF post [unfolded jc] parts(1)] by (auto simp: books_ok_def books_but_def)
qed

text \<open>A refund: its row, then its journal.\<close>

lemma books_but_refund:
  assumes ok: "books_ok d" and fresh: "r_id r \<notin> r_id ` set (refunds d)"
    and k: "r_payment_id r \<in> p_id ` set (payments d)"
    and d': "d' = d\<lparr>refunds := refunds d @ [r]\<rparr>"
    and post: "posts d' ''payment_refund'' (r_id r) jc (la_id x) (la_id y) m j e f"
    and jc: "jc = currency_value (money_currency m)"
    and xy: "x \<in> set (ledger_accounts d)" "y \<in> set (ledger_accounts d)" and y: "la_name y \<noteq> ''customer_cash''"
    and amount: "amount_minor m = r_amount_minor r"
  shows "books_but (r_payment_id r) (posting j e f d') \<and>
     refunds_of (posting j e f d') (r_payment_id r) = refunds_of d (r_payment_id r) + r_amount_minor r"
proof -
  have same: "journals d' = journals d" "journal_entries d' = journal_entries d"
    "ledger_accounts d' = ledger_accounts d" "payments d' = payments d" by (simp_all add: d')
  have old: "book_ok d" "references_ok d" "cash_nonnegative d" using ok by (auto simp: books_ok_def)
  have parts: "book_ok d'" "references_ok d'" "cash_nonnegative d'"
    "distinct (map la_id (ledger_accounts d'))" "entries_have_journals d'"
  proof -
    show b: "book_ok d'" using old(1) by - (rule book_ok_frame, auto simp: same book_ok_def)
    show "references_ok d'" using old(2) k by (auto simp: references_ok_def d')
    show "cash_nonnegative d'" using old(3) by (simp add: cash_nonnegative_def available_balance_eq
        balance_of_def cash_account_ids_def same)
    show "distinct (map la_id (ledger_accounts d'))" "entries_have_journals d'"
      using b by (auto simp: book_ok_def)
  qed
  have total: "reference_total d' t i dir = reference_total d t i dir" for t i dir
    by (simp add: reference_total_def joined_entries_def same)
  have "reference_total d ''payment_refund'' (r_id r) ''CREDIT'' = 0"
    using old(2) fresh by (intro reference_total_absent) (metis references_ok_def)
  then have "refund_agrees (posting j e f d') r"
    by (simp add: refund_agrees_def reference_total_posting [OF post parts(5)] total amount)
  moreover have "refund_agrees (posting j e f d') s" if "s \<in> set (refunds d)" for s
  proof -
    have "r_id s \<noteq> r_id r" using fresh that by (metis imageI)
    then show ?thesis using ok that
      by (simp add: refund_agrees_def reference_total_posting [OF post parts(5)] total books_ok_def)
  qed
  moreover have "payment_agrees (posting j e f d') p = payment_agrees d p" if "p_id p \<noteq> r_payment_id r" for p
  proof -
    have "refunds_of d' (p_id p) = refunds_of d (p_id p)" using that by (auto simp: refunds_of_def d')
    then show ?thesis by (simp add: payment_agrees_def reference_total_posting [OF post parts(5)] total)
  qed
  moreover have "cash_nonnegative (posting j e f d')"
    by (rule cash_posting [OF parts(3) post parts(4)]) (use xy y in \<open>auto simp: same la_key_def\<close>)
  moreover have "references_ok (posting j e f d')"
    by (rule posting_refs [OF parts(2) post]) (simp_all add: d')
  ultimately show ?thesis
    using ok fresh book_ok_posting [OF post [unfolded jc] parts(1)]
    by (auto simp: books_ok_def books_but_def same refunds_of_def d')
qed

end
