(* ===== verification/PaymentProofs.thy ===== *)
theory PaymentProofs
  imports Books
begin

text \<open>
  The functions of \<open>service.py\<close> on merchants, customers, accounts and payments keep the invariant
  of theory \<open>Books\<close>.  Each proof executes the function symbolically (\<open>wp_simps\<close>), enters the
  repository operations by their rules, and closes with the table lemma of the write.
\<close>

section \<open>Steps\<close>

text \<open>A step that leaves the tables of the invariant alone.\<close>

definition same_books :: "world \<Rightarrow> world \<Rightarrow> bool" where
  "same_books w w' \<longleftrightarrow> books (tables w') = books (tables w)"

lemma books_ok_same: "same_books w w' \<Longrightarrow> books_ok (tables w) \<Longrightarrow> books_ok (tables w')"
  unfolding same_books_def using books_ok_cong by blast

lemma books_frame [simp]:
  "books (d\<lparr>outbox_events := x\<rparr>) = books d" "books (d\<lparr>audit_logs := y\<rparr>) = books d"
  "books (d\<lparr>idempotency_records := z\<rparr>) = books d" "books (d\<lparr>merchants := a\<rparr>) = books d"
  "books (d\<lparr>api_keys := b\<rparr>) = books d" "books (d\<lparr>customers := c\<rparr>) = books d"
  "books (d\<lparr>accounts := e\<rparr>) = books d" "books (d\<lparr>webhook_endpoints := f\<rparr>) = books d"
  "books (d\<lparr>webhook_secrets := g\<rparr>) = books d" "books (d\<lparr>webhook_deliveries := h\<rparr>) = books d"
  "books (d\<lparr>processed_events := i\<rparr>) = books d"
  by (simp_all add: books_def)

lemma books_ok_frame [simp]:
  "books_ok (d\<lparr>outbox_events := x\<rparr>) = books_ok d" "books_ok (d\<lparr>audit_logs := y\<rparr>) = books_ok d"
  "books_ok (d\<lparr>idempotency_records := z\<rparr>) = books_ok d" "books_ok (d\<lparr>merchants := a\<rparr>) = books_ok d"
  "books_ok (d\<lparr>api_keys := b\<rparr>) = books_ok d" "books_ok (d\<lparr>customers := c\<rparr>) = books_ok d"
  "books_ok (d\<lparr>accounts := e\<rparr>) = books_ok d" "books_ok (d\<lparr>webhook_endpoints := f\<rparr>) = books_ok d"
  "books_ok (d\<lparr>webhook_secrets := g\<rparr>) = books_ok d" "books_ok (d\<lparr>webhook_deliveries := h\<rparr>) = books_ok d"
  "books_ok (d\<lparr>processed_events := i\<rparr>) = books_ok d"
  by (rule books_ok_cong, simp)+

lemma ensure_ledger_account_books:
  assumes ok: "books_ok (tables w)"
    and Q: "\<And>account las w'. books_ok (tables w') \<Longrightarrow> la_key account = (owner, name, cur) \<Longrightarrow>
      account \<in> set las \<Longrightarrow> set (ledger_accounts (tables w)) \<subseteq> set las \<Longrightarrow>
      tables w' = (tables w)\<lparr>ledger_accounts := las\<rparr> \<Longrightarrow>
      (\<And>ow c. available_balance (tables w') ow c = available_balance (tables w) ow c) \<Longrightarrow> Q account w'"
  shows "wp (ensure_ledger_account ext owner name cur normal) Q (\<lambda>_ _. True) w"
proof (rule ensure_ledger_account_rule)
  fix account extra and w' :: world
  assume key: "la_key account = (owner, name, cur)" and mem: "account \<in> set (ledger_accounts (tables w) @ extra)"
    and extra: "extra = [] \<or> extra = [account] \<and> la_id account \<notin> la_id ` set (ledger_accounts (tables w)) \<and>
      la_key account \<notin> la_key ` set (ledger_accounts (tables w))"
    and w': "tables w' = (tables w)\<lparr>ledger_accounts := ledger_accounts (tables w) @ extra\<rparr>"
  have refs: "references_ok (tables w)" using ok by (simp add: books_ok_def)
  have "books_ok (tables w')" using extra ok books_ok_new_account [OF ok, of account] by (auto simp: w')
  moreover have "available_balance (tables w') ow c = available_balance (tables w) ow c" for ow c
    using extra available_balance_new_account [OF refs, of account ow c] by (auto simp: w')
  ultimately show "Q account w'" using key mem w' by (intro Q) auto
qed

section \<open>Functions that do not write the books\<close>

lemma create_merchant_books:
  "wp (create_merchant ext req corr) (\<lambda>_ w'. same_books w w') (\<lambda>_ _. True) w"
  unfolding create_merchant_def fresh_id_def now_def insert_merchant_def insert_api_key_def
  by (auto simp: wp_simps same_books_def Let_def split: prod.split intro!: append_audit_rule)

lemma create_customer_books:
  "wp (create_customer ext mid req corr) (\<lambda>_ w'. same_books w w') (\<lambda>_ _. True) w"
  unfolding create_customer_def fresh_id_def now_def insert_customer_def insert_account_def
  by (auto simp: wp_simps same_books_def intro!: append_audit_rule)

section \<open>Funding\<close>

lemma fund_account_books:
  assumes "books_ok (tables w)"
  shows "wp (fund_account ext mid aid req corr) (\<lambda>_ w'. books_ok (tables w')) (\<lambda>_ _. True) w"
  unfolding fund_account_def
  apply (clarsimp simp: wp_simps split: option.split)
  apply (rule ensure_ledger_account_books [OF assms])
  apply (clarsimp simp: wp_simps)
  apply (rule ensure_ledger_account_books, simp)
  apply (clarsimp simp: wp_simps Money_def line_builders)
  apply (rule create_journal_rule, rule refl, simp, simp)
  apply (clarsimp simp: wp_simps)
  apply (rule append_audit_rule)
  apply (clarsimp simp: wp_simps)
  apply (rule books_ok_funding, assumption, assumption)
  apply (auto simp: la_key_def)
  done

section \<open>Payments\<close>

lemma claim_idempotency_rule:
  assumes "\<And>r t w'. tables w' = (tables w)\<lparr>idempotency_records := t\<rparr> \<Longrightarrow> Q r w'"
    and "\<And>e w'. E e w'"
  shows "wp (claim_idempotency ext mid key fp) Q E w"
proof (cases "(key, mid) \<in> i_pk ` set (idempotency_records (tables w))")
  case True
  then show ?thesis
    using assms(2)
    by (auto simp: claim_idempotency_def now_def wp_simps Let_def claim_row_def idempotency_row_def i_pk_def
        split: option.split intro!: assms(1) [where t = "idempotency_records (tables w)"])
next
  case False
  then show ?thesis
    using assms(2)
    by (auto simp: claim_idempotency_def now_def wp_simps Let_def claim_row_def idempotency_row_def i_pk_def
        split: option.split intro!: assms(1))
qed

lemma payment_ok_new:
  "0 < p_amount_minor p \<Longrightarrow> p_currency p = currency_value c \<Longrightarrow> p_status p = status_value st \<Longrightarrow>
     st \<in> {CREATED, PENDING, AUTHORIZED, FAILED, CANCELLED} \<Longrightarrow>
     captured_amount_minor p = 0 \<Longrightarrow> refunded_amount_minor p = 0 \<Longrightarrow> payment_ok p"
  by (auto simp: payment_ok_def)

lemma persist_payment_books:
  assumes ok: "books_ok (tables w)" and amount: "0 < pr_amount_minor req"
  shows "wp (persist_payment ext mid req record risk corr) (\<lambda>_ w'. books_ok (tables w')) (\<lambda>_ _. True) w"
proof -
  have new: "books_ok ((tables w)\<lparr>payments := payments (tables w) @ [new_payment i mid req st t t']\<rparr>)"
    if "payment_integrity_ok (tables w) (new_payment i mid req st t t')" "st = PENDING \<or> st = FAILED" for i st t t'
    using that amount
    by (intro books_ok_new_payment [OF ok] payment_ok_new [where c = "pr_currency req" and st = st])
      (auto simp: payment_integrity_ok_def new_payment_def)
  show ?thesis
    unfolding persist_payment_def Let_def fresh_id_def now_def insert_payment_def complete_idempotency_def
    by (auto simp: wp_simps new split: option.split intro!: append_outbox_rule append_audit_rule)
qed

lemma create_payment_books:
  assumes "books_ok (tables w)" and "0 < pr_amount_minor req"
  shows "wp (create_payment ext mid req key corr) (\<lambda>_ w'. books_ok (tables w')) (\<lambda>_ _. True) w"
  unfolding create_payment_def Let_def
  apply (clarsimp simp: wp_simps)
  apply (rule claim_idempotency_rule)
   apply (clarsimp simp: wp_simps assms persist_payment_books split: option.split sum.split)
  apply (simp add: wp_simps split: exn.split)
  done

lemma payment_for_update_SomeD:
  "payment_for_update pid mid d = Some p \<Longrightarrow> p \<in> set (payments d) \<and> p_id p = pid \<and> p_merchant_id p = mid"
  by (auto simp: payment_for_update_def find_Some_iff)

lemma payment_row:
  "books_ok d \<Longrightarrow> payment_for_update pid mid d = Some p \<Longrightarrow> row_at p_id (p_id p) (payments d) = Some p"
  by (auto simp: books_ok_def row_at_Some_iff dest: payment_for_update_SomeD)

lemma check_transition_Inr:
  "check_transition p t = Inr s \<longleftrightarrow> s = t \<and> (\<exists>st. p_status p = status_value st \<and> t \<in> set (allowed st))"
  by (auto simp: check_transition_def bind_sum_eq_Inr PaymentStatus_Inr)

text \<open>A payment that may still be authorised, cancelled or failed has captured nothing.\<close>

lemma payment_ok_uncaptured:
  "payment_ok p \<Longrightarrow> p_status p = status_value st \<Longrightarrow> t \<in> set (allowed st) \<Longrightarrow>
     t \<in> {PENDING, AUTHORIZED, CAPTURED, FAILED, CANCELLED} \<Longrightarrow>
     captured_amount_minor p = 0 \<and> refunded_amount_minor p = 0 \<and> 0 < p_amount_minor p \<and>
     (\<exists>c. p_currency p = currency_value c)"
  by (cases st) (auto simp: payment_ok_def currency_of_Some split: option.splits)

lemma books_ok_set_status:
  assumes ok: "books_ok d" and p: "payment_for_update pid mid d = Some p"
    and t: "check_transition p t = Inr s" "t \<in> {AUTHORIZED, FAILED, CANCELLED}"
    and f: "\<And>r. p_id (f r) = p_id r" "p_status (f p) = status_value t" "p_amount_minor (f p) = p_amount_minor p"
      "p_currency (f p) = p_currency p" "captured_amount_minor (f p) = captured_amount_minor p"
      "refunded_amount_minor (f p) = refunded_amount_minor p"
  shows "books_ok (d\<lparr>payments := row_set p_id (p_id p) f (payments d)\<rparr>)"
proof -
  have pd: "p \<in> set (payments d)" using payment_for_update_SomeD [OF p] by simp
  have p_ok: "payment_ok p" "payment_agrees d p" using books_ok_payment [OF ok pd] by auto
  obtain st where st: "p_status p = status_value st" "t \<in> set (allowed st)"
    using t(1) by (auto simp: check_transition_Inr)
  have "captured_amount_minor p = 0 \<and> refunded_amount_minor p = 0 \<and> 0 < p_amount_minor p \<and>
      (\<exists>c. p_currency p = currency_value c)"
    by (rule payment_ok_uncaptured [OF p_ok(1) st]) (use t(2) in auto)
  then have "payment_ok (f p)" using f t(2) by (auto simp: payment_ok_def)
  moreover have "payment_agrees d (f p)" using p_ok(2) f by (simp add: payment_agrees_def)
  ultimately show ?thesis
    by (intro books_ok_set_payment [OF books_but_weaken [OF ok] payment_row [OF ok p]] f(1))
qed

lemma cancel_payment_books:
  assumes ok: "books_ok (tables w)"
  shows "wp (cancel_payment ext mid pid corr) (\<lambda>_ w'. books_ok (tables w')) (\<lambda>_ _. True) w"
  unfolding cancel_payment_def Let_def now_def update_payment_def
  by (auto simp: wp_simps payment_row [OF ok, of pid mid] split: option.split sum.split
      intro!: append_outbox_rule books_ok_set_status [OF ok])

definition books_if_persisted :: "exn \<Rightarrow> world \<Rightarrow> bool" where
  "books_if_persisted e w \<longleftrightarrow> (\<forall>c m. e = PersistedBusinessError c m \<longrightarrow> books_ok (tables w))"

lemma books_if_persisted_simps [simp]:
  "books_ok (tables w) \<Longrightarrow> books_if_persisted e w"
  "books_if_persisted DataError w" "books_if_persisted IntegrityError w"
  "books_if_persisted (PersistedBusinessError c m) w = books_ok (tables w)"
  by (simp_all add: books_if_persisted_def)

lemma authorizable_can_fail:
  "check_transition p AUTHORIZED = Inr s \<Longrightarrow> check_transition p FAILED = Inr FAILED"
proof -
  assume "check_transition p AUTHORIZED = Inr s"
  then obtain st where "p_status p = status_value st" "AUTHORIZED \<in> set (allowed st)"
    by (auto simp: check_transition_Inr)
  then show ?thesis by (cases st) (auto simp: check_transition_Inr)
qed

lemma authorize_payment_books:
  assumes ok: "books_ok (tables w)"
  shows "wp (authorize_payment ext mid pid corr) (\<lambda>_ w'. books_ok (tables w')) books_if_persisted w"
proof -
  have failed: "books_ok ((tables w)\<lparr>payments :=
      row_set p_id (p_id p) (\<lambda>p. p\<lparr>p_status := status_value FAILED\<rparr>) (payments (tables w))\<rparr>)"
    if "payment_for_update pid mid (tables w) = Some p" "check_transition p AUTHORIZED = Inr s" for p s
    by (rule books_ok_set_status [OF ok that(1) authorizable_can_fail [OF that(2)]]) simp_all
  have authorized: "books_ok ((tables w)\<lparr>payments := row_set p_id (p_id p)
      (\<lambda>p. p\<lparr>p_status := status_value AUTHORIZED, p_updated_at := t\<rparr>) (payments (tables w))\<rparr>)"
    if "payment_for_update pid mid (tables w) = Some p" "check_transition p AUTHORIZED = Inr s" for p s t
    by (rule books_ok_set_status [OF ok that]) simp_all
  show ?thesis
    unfolding authorize_payment_def Let_def now_def audit_payment_def update_payment_def
    by (auto simp: wp_simps ok payment_row [OF ok, of pid mid] append_audit_def fresh_id_def now_def
        insert_audit_def failed authorized split: option.split sum.split intro!: append_outbox_ruleE)
qed

text \<open>Capture: the journal and the update of the payment, on the tables.\<close>

lemma books_ok_capture:
  assumes ok: "books_ok d" and post: "posts d ''payment_capture'' k cur (la_id x) (la_id y) m j e f"
    and ps: "ps = payments d" and p: "row_at p_id k ps = Some p"
    and t: "check_transition p CAPTURED = Inr s"
    and m: "amount_minor m = p_amount_minor p" "cur = currency_value (money_currency m)"
      "p_currency p = cur"
    and xy: "x \<in> set (ledger_accounts d)" "y \<in> set (ledger_accounts d)"
    and y: "la_key y = (owner, ''customer_cash'', cur)"
      "p_amount_minor p \<le> available_balance d owner cur"
  shows "books_ok ((posting j e f d)\<lparr>payments := row_set p_id k
     (\<lambda>p. p\<lparr>p_status := status_value CAPTURED, captured_amount_minor := p_amount_minor p, p_updated_at := u\<rparr>)
     ps\<rparr>)"
proof -
  have pd: "p \<in> set (payments d)" "p_id p = k" using row_at_SomeD [OF p] ps by auto
  obtain st where st: "p_status p = status_value st" "CAPTURED \<in> set (allowed st)"
    using t by (auto simp: check_transition_Inr)
  have p_ok: "payment_ok p" "payment_agrees d p" using books_ok_payment [OF ok pd(1)] by auto
  have zero: "captured_amount_minor p = 0" "refunded_amount_minor p = 0" "0 < p_amount_minor p"
    using payment_ok_uncaptured [OF p_ok(1) st] by auto
  have have_j: "entries_have_journals d" using ok by (simp add: books_ok_def book_ok_def)
  have but: "books_but k (posting j e f d)"
    by (rule books_but_capture [OF ok post m(2) xy y(1)]) (use m(1) y(2) pd in auto)
  let ?f = "\<lambda>p. p\<lparr>p_status := status_value CAPTURED, captured_amount_minor := p_amount_minor p, p_updated_at := u\<rparr>"
  have "payment_ok (?f p)" using zero m by (simp add: payment_ok_def)
  moreover have "payment_agrees (posting j e f d) (?f p)"
    using p_ok(2) zero pd(2) m(1)
    by (simp add: payment_agrees_def reference_total_posting [OF post have_j])
  ultimately show ?thesis
    using books_ok_set_payment [OF but, of p ?f] p ps by simp
qed

lemma create_journal_ruleE:
  assumes "wp (create_journal ext rtype rid cur names lines) Q (\<lambda>_ _. True) w" and "\<And>e w'. E e w'"
  shows "wp (create_journal ext rtype rid cur names lines) Q E w"
  using assms(1) by (rule wp_mono) (use assms(2) in auto)

lemma capture_payment_books:
  assumes ok: "books_ok (tables w)"
  shows "wp (capture_payment ext mid pid corr) (\<lambda>_ w'. books_ok (tables w')) (\<lambda>_ _. True) w"
  unfolding capture_payment_def Let_def now_def
  apply (clarsimp simp: wp_simps split: option.split sum.split)
  apply (rule ensure_ledger_account_books [OF ok])
  apply (clarsimp simp: wp_simps)
  apply (rule ensure_ledger_account_books, simp)
  apply (clarsimp simp: wp_simps Money_def line_builders Currency_Inr split: sum.split)
  apply (rule create_journal_ruleE)
   apply (rule create_journal_rule, rule refl, simp, simp)
   apply (clarsimp simp: wp_simps update_payment_def payment_row [OF ok, of pid mid] audit_payment_def)
   apply (rule append_outbox_rule)
   apply (clarsimp simp: wp_simps)
   apply (rule append_audit_rule)
   apply (clarsimp simp: wp_simps)
   apply (rule books_ok_capture, assumption, simp)
           apply (auto simp: payment_row [OF ok, of pid mid] wp_raise)
  done

text \<open>Refund: its row, its journal and the update of the payment, on the tables.\<close>

lemma payment_ok_refunded:
  assumes "payment_ok p" and "p_status p = status_value st" and "refundable st"
    and "0 < n" and "n \<le> captured_amount_minor p - refunded_amount_minor p"
  shows "payment_ok (p\<lparr>refunded_amount_minor := refunded_amount_minor p + n,
     p_status := status_value (refund_status (refunded_amount_minor p + n) (captured_amount_minor p))\<rparr>)"
  using assms by (auto simp: payment_ok_def refundable_def refund_status_def split: option.splits)

lemma books_ok_refund:
  assumes post: "posts d' ''payment_refund'' i cur (la_id x) (la_id y) m j e f"
    and ok: "books_ok d" and d': "d' = d\<lparr>refunds := refunds d @ [r]\<rparr>"
    and i: "i = r_id r" and fresh: "r_id r \<notin> r_id ` set (refunds d)"
    and ps: "ps = payments d" and p: "row_at p_id k ps = Some p" and r: "r_payment_id r = k"
    and st: "p_status p = status_value st" "refundable st"
    and n: "r_amount_minor r = n" "0 < n" "n \<le> captured_amount_minor p - refunded_amount_minor p"
    and m: "amount_minor m = n" "cur = currency_value (money_currency m)"
    and xy: "x \<in> set (ledger_accounts d)" "y \<in> set (ledger_accounts d)" "la_name y \<noteq> ''customer_cash''"
  shows "books_ok ((posting j e f d')\<lparr>payments := row_set p_id k
     (\<lambda>q. q\<lparr>refunded_amount_minor := refunded_amount_minor p + n,
       p_status := status_value (refund_status (refunded_amount_minor p + n) (captured_amount_minor p))\<rparr>) ps\<rparr>)"
proof -
  let ?f = "\<lambda>q. q\<lparr>refunded_amount_minor := refunded_amount_minor p + n,
       p_status := status_value (refund_status (refunded_amount_minor p + n) (captured_amount_minor p))\<rparr>"
  have pd: "p \<in> set (payments d)" "p_id p = k" using row_at_SomeD [OF p] ps by auto
  have p_ok: "payment_ok p" "payment_agrees d p" using books_ok_payment [OF ok pd(1)] by auto
  have "r_payment_id r \<in> p_id ` set (payments d)" using pd r by auto
  then have "books_but (r_payment_id r) (posting j e f d') \<and>
      refunds_of (posting j e f d') (r_payment_id r) = refunds_of d (r_payment_id r) + r_amount_minor r"
    by (intro books_but_refund [OF ok fresh _ d' post [unfolded i] m(2) xy]) (simp_all add: m n)
  then have but: "books_but k (posting j e f d')"
    and sum: "refunds_of (posting j e f d') k = refunds_of d k + n"
    using r n(1) by auto
  have "entries_have_journals d'" using ok by (simp add: books_ok_def book_ok_def d' entries_have_journals_def)
  then have "reference_total (posting j e f d') ''payment_capture'' k ''CREDIT'' = reference_total d ''payment_capture'' k ''CREDIT''"
    by (simp add: reference_total_posting [OF post]) (simp add: reference_total_def joined_entries_def d')
  then have "payment_agrees (posting j e f d') (?f p)"
    using p_ok(2) pd(2) sum unfolding payment_agrees_def by simp
  moreover have "payment_ok (?f p)" by (rule payment_ok_refunded [OF p_ok(1) st n(2,3)])
  ultimately show ?thesis
    using books_ok_set_payment [OF but, of p ?f] p ps by (simp add: d')
qed

lemma refund_integrity_fresh: "refund_integrity_ok d r \<Longrightarrow> r_id r \<notin> r_id ` set (refunds d)"
  by (simp add: refund_integrity_ok_def)

lemma la_key_name: "la_key a = (ow, n, c) \<Longrightarrow> la_name a = n"
  by (simp add: la_key_def)

lemma refund_payment_books:
  assumes ok: "books_ok (tables w)"
  shows "wp (refund_payment ext mid pid req corr) (\<lambda>_ w'. books_ok (tables w')) (\<lambda>_ _. True) w"
  unfolding refund_payment_def Let_def now_def fresh_id_def
  apply (clarsimp simp: wp_simps PaymentStatus_Inr split: option.split sum.split)
  apply (rule ensure_ledger_account_books [OF ok])
  apply (clarsimp simp: wp_simps)
  apply (rule ensure_ledger_account_books, simp)
  apply (clarsimp simp: wp_simps insert_refund_def Money_def line_builders Currency_Inr split: sum.split)
  apply (rule create_journal_rule, rule refl, simp, simp)
  apply (clarsimp simp: wp_simps update_payment_def payment_row [OF ok, of pid mid])
  apply (rule append_outbox_rule)
  apply (clarsimp simp: wp_simps)
  apply (rule books_ok_refund, assumption, assumption, (simp; fail))
                apply (auto simp: payment_row [OF ok, of pid mid] dest: refund_integrity_fresh la_key_name)
  done

end
