(* ===== verification/WebhookService.thy ===== *)
theory WebhookService
  imports PaymentService
begin

text \<open>
  The webhook half of \<open>services/payment_service/app/service.py\<close>: registration of endpoints, rotation
  and look-up of signing secrets, and the fan-out of a payment event to the endpoints subscribed to
  it, with the facts about active secrets and deliveries.
\<close>

section \<open>Endpoints and secrets\<close>

definition register_webhook :: "ext \<Rightarrow> uuid \<Rightarrow> webhook_create \<Rightarrow> uuid \<Rightarrow> json db_op" where
  "register_webhook ext merchant_id request correlation_id =
     bind_op (draw (generate_webhook_secret ext)) (\<lambda>secret.
     bind_op (fresh_id ext) (\<lambda>eid.
     bind_op (now ext) (\<lambda>t.
     bind_op (insert_endpoint \<lparr>w_id = eid, w_merchant_id = merchant_id, url = wc_url request,
       w_secret_hash = hash_secret ext secret, event_types = wc_event_types request, enabled = True,
       w_created_at = t\<rparr>) (\<lambda>_.
     bind_op (draw (\<lambda>n. encrypt_secret ext n secret (webhook_secret_master_key ext))) (\<lambda>ciphertext.
     bind_op (fresh_id ext) (\<lambda>sid.
     bind_op (now ext) (\<lambda>t'.
     bind_op (insert_secret \<lparr>s_id = sid, s_endpoint_id = eid, s_version = 1,
       secret_ciphertext = ciphertext, s_secret_hash = hash_secret ext secret, active = True,
       s_created_at = t', retired_at = None\<rparr>) (\<lambda>_.
     bind_op (append_audit ext (merchant_ref merchant_id) ''webhook.created''
       (''webhook_endpoint:'' @ uuid_str eid) correlation_id
       (JObj [(''event_types'', JList (map JStr (wc_event_types request)))])) (\<lambda>_.
     ret (JObj [(''endpoint_id'', JStr (uuid_str eid)), (''signing_secret'', JStr secret)]))))))))))"

definition active_secret_of :: "db \<Rightarrow> uuid \<Rightarrow> webhook_secret option" where
  "active_secret_of d eid = find (\<lambda>s. s_endpoint_id s = eid \<and> active s) (webhook_secrets d)"

text \<open>\<open>coalesce(max(version), 0)\<close> over the secrets of an endpoint.\<close>

definition latest_version :: "db \<Rightarrow> uuid \<Rightarrow> int" where
  "latest_version d eid =
     (let vs = map s_version (filter (\<lambda>s. s_endpoint_id s = eid) (webhook_secrets d)) in
      if vs = [] then 0 else Max (set vs))"

definition rotate_webhook_secret :: "ext \<Rightarrow> uuid \<Rightarrow> uuid \<Rightarrow> uuid \<Rightarrow> json db_op" where
  "rotate_webhook_secret ext merchant_id endpoint_id correlation_id =
     bind_op (query (\<lambda>d. row_at w_id endpoint_id (webhook_endpoints d))) (\<lambda>endpoint.
     bind_op (raise_if (not_owned w_merchant_id endpoint merchant_id)
       (BusinessError ''WEBHOOK_ENDPOINT_NOT_FOUND'' ''Webhook endpoint was not found.'')) (\<lambda>_.
     bind_op (query (\<lambda>d. active_secret_of d endpoint_id)) (\<lambda>active_secret.
     bind_op (query (\<lambda>d. latest_version d endpoint_id)) (\<lambda>latest.
     bind_op (case active_secret of
         None \<Rightarrow> ret ()
       | Some s \<Rightarrow> bind_op (now ext) (\<lambda>t.
           update_secret (s_id s) (\<lambda>s. s\<lparr>active := False, retired_at := Some t\<rparr>))) (\<lambda>_.
     bind_op (draw (generate_webhook_secret ext)) (\<lambda>secret.
     bind_op (update_endpoint endpoint_id (\<lambda>e. e\<lparr>w_secret_hash := hash_secret ext secret\<rparr>)) (\<lambda>_.
     bind_op (draw (\<lambda>n. encrypt_secret ext n secret (webhook_secret_master_key ext))) (\<lambda>ciphertext.
     bind_op (fresh_id ext) (\<lambda>sid.
     bind_op (now ext) (\<lambda>t'.
     bind_op (insert_secret \<lparr>s_id = sid, s_endpoint_id = endpoint_id, s_version = latest + 1,
       secret_ciphertext = ciphertext, s_secret_hash = hash_secret ext secret, active = True,
       s_created_at = t', retired_at = None\<rparr>) (\<lambda>_.
     bind_op (append_audit ext (merchant_ref merchant_id) ''webhook.secret_rotated''
       (''webhook_endpoint:'' @ uuid_str endpoint_id) correlation_id
       (JObj [(''version'', JInt (latest + 1))])) (\<lambda>_.
     ret (JObj [(''endpoint_id'', JStr (uuid_str endpoint_id)), (''signing_secret'', JStr secret)])))))))))))))"

definition active_webhook_secret :: "ext \<Rightarrow> uuid \<Rightarrow> string db_op" where
  "active_webhook_secret ext endpoint_id =
     bind_op (query (\<lambda>d. active_secret_of d endpoint_id)) (\<lambda>found.
     case found of
       None \<Rightarrow> raise (BusinessError ''WEBHOOK_SECRET_NOT_FOUND'' ''Webhook signing secret was not found.'')
     | Some s \<Rightarrow> lift_sum (decrypt_secret ext (secret_ciphertext s) (webhook_secret_master_key ext)))"

section \<open>Fan-out of an event\<close>

text \<open>\<open>payload[k]\<close> on a decoded JSON value.\<close>

definition json_get :: "string \<Rightarrow> json \<Rightarrow> exn + json" where
  "json_get k j =
     (case j of
        JObj kvs \<Rightarrow> (case dict_get k kvs of None \<Rightarrow> Inl (KeyError k) | Some v \<Rightarrow> Inr v)
      | _ \<Rightarrow> Inl TypeError)"

text \<open>\<open>UUID(text)\<close>.\<close>

definition UUID :: "string \<Rightarrow> exn + uuid" where
  "UUID s =
     (case uuid_parse s of None \<Rightarrow> Inl (ValueError ''badly formed hexadecimal UUID string'')
      | Some u \<Rightarrow> Inr u)"

definition event_payment_id :: "ext \<Rightarrow> json \<Rightarrow> exn + uuid" where
  "event_payment_id ext payload =
     bind_sum (json_get ''payload'' payload) (\<lambda>inner.
     bind_sum (json_get ''payment_id'' inner) (\<lambda>v. UUID (json_str ext v)))"

definition add_delivery :: "ext \<Rightarrow> uuid \<Rightarrow> string \<Rightarrow> webhook_endpoint \<Rightarrow> unit db_op" where
  "add_delivery ext event_id etype endpoint =
     (if etype \<in> set (event_types endpoint) then
        bind_op (fresh_id ext) (\<lambda>i.
        bind_op (now ext) (\<lambda>t.
        insert_delivery \<lparr>d_id = i, d_endpoint_id = w_id endpoint, d_event_id = event_id,
          d_status = ''PENDING'', attempts = 0, next_attempt_at = None, last_error = None,
          d_created_at = t\<rparr>))
      else ret ())"

definition process_payment_event_for_webhooks ::
  "ext \<Rightarrow> uuid \<Rightarrow> string \<Rightarrow> json \<Rightarrow> bool db_op" where
  "process_payment_event_for_webhooks ext event_id etype payload =
     bind_op (mark_event_processed ext event_id ''webhook-service'') (\<lambda>claimed.
     if \<not> claimed then ret False
     else
       bind_op (lift_sum (event_payment_id ext payload)) (\<lambda>payment_id.
       bind_op (query (\<lambda>d. row_at p_id payment_id (payments d))) (\<lambda>found.
       case found of
         None \<Rightarrow> ret True
       | Some payment \<Rightarrow>
           bind_op (query (\<lambda>d. filter (\<lambda>e. w_merchant_id e = p_merchant_id payment \<and> enabled e)
                                 (webhook_endpoints d))) (\<lambda>endpoints.
           bind_op (for_each endpoints (add_delivery ext event_id etype)) (\<lambda>_.
           ret True)))))"

definition sign_delivery_body :: "ext \<Rightarrow> string \<Rightarrow> int \<Rightarrow> string \<Rightarrow> string" where
  "sign_delivery_body ext secret timestamp body = sign_webhook ext secret timestamp body"

end
