(* ===== verification/Api.thy ===== *)
theory Api
  imports PaymentProofs WebhookService
begin

text \<open>
  \<open>services/payment_service/app/main.py\<close> with \<open>api/auth.py\<close> and \<open>api/errors.py\<close>: authentication,
  scopes, one route per endpoint with its transaction, and the exception handlers.  FastAPI resolves
  the dependency \<open>require_api_key\<close>, then reports validation errors of path, header and body
  (status 422), then calls the route.  A \<open>request\<close> carries the fields before validation.
\<close>

section \<open>Errors\<close>

definition api_error :: "int \<Rightarrow> string \<Rightarrow> string \<Rightarrow> uuid \<Rightarrow> exn" where
  "api_error status_code code message correlation_id = HTTPException status_code code message correlation_id"

text \<open>The JSON body of an \<open>api_error\<close>.\<close>

definition error_detail :: "string \<Rightarrow> string \<Rightarrow> uuid \<Rightarrow> json" where
  "error_detail code message correlation_id =
     JObj [(''error'', JObj [(''code'', JStr code), (''message'', JStr message),
       (''correlation_id'', JStr (uuid_str correlation_id))])]"

definition business_error_handler :: "uuid \<Rightarrow> string \<Rightarrow> string \<Rightarrow> exn" where
  "business_error_handler correlation_id code message = api_error 409 code message correlation_id"

definition transition_error_handler :: "uuid \<Rightarrow> payment_status \<Rightarrow> payment_status \<Rightarrow> exn" where
  "transition_error_handler correlation_id current target =
     api_error 409 ''ILLEGAL_PAYMENT_TRANSITION'' (transition_message current target) correlation_id"

text \<open>The handler registered for the class of an exception, or the exception itself.\<close>

fun handle_exception :: "uuid \<Rightarrow> exn \<Rightarrow> exn" where
  "handle_exception corr (BusinessError code message) = business_error_handler corr code message"
| "handle_exception corr (PersistedBusinessError code message) = business_error_handler corr code message"
| "handle_exception corr (PaymentTransitionError s t) = transition_error_handler corr s t"
| "handle_exception corr e = e"

section \<open>Authentication\<close>

record principal =
  pl_merchant_id :: uuid
  pl_scopes :: "string list"

definition require_scope :: "principal \<Rightarrow> string \<Rightarrow> uuid \<Rightarrow> exn + unit" where
  "require_scope self scope correlation_id =
     (if scope \<notin> set (pl_scopes self)
      then Inl (api_error 403 ''INSUFFICIENT_SCOPE'' ''API key does not have required scope.'' correlation_id)
      else Inr ())"

definition require_api_key :: "ext \<Rightarrow> uuid \<Rightarrow> string option \<Rightarrow> principal db_op" where
  "require_api_key ext correlation_id authorization =
     (case authorization of
        None \<Rightarrow> raise (api_error 401 ''UNAUTHENTICATED'' ''Missing bearer API key.'' correlation_id)
      | Some header \<Rightarrow>
          bind_op (raise_if (\<not> startswith ''Bearer '' header)
            (api_error 401 ''UNAUTHENTICATED'' ''Missing bearer API key.'' correlation_id)) (\<lambda>_.
          let digest = hash_secret ext (strip (removeprefix ''Bearer '' header)) in
          bind_op (query (\<lambda>d. find (\<lambda>k. key_hash k = digest \<and> revoked_at k = None) (api_keys d))) (\<lambda>found.
          case found of
            None \<Rightarrow> raise (api_error 401 ''UNAUTHENTICATED'' ''Invalid API key.'' correlation_id)
          | Some k \<Rightarrow> ret \<lparr>pl_merchant_id = k_merchant_id k, pl_scopes = scopes k\<rparr>)))"

section \<open>Requests and routes\<close>

datatype request =
    CreateMerchant string int
  | CreateCustomer string string
  | FundAccount string int string
  | CreatePayment "string option" string int string
  | GetPayment string
  | Authorize string
  | Capture string
  | Cancel string
  | RefundPayment string int
  | RegisterWebhook string "string list"
  | RotateSecret string
  | ReplayDelivery string

text \<open>A path parameter of type \<open>UUID\<close> and the required header \<open>Idempotency-Key\<close>.\<close>

definition path_uuid :: "ext \<Rightarrow> string \<Rightarrow> exn + uuid" where
  "path_uuid ext s = (case read_uuid ext s of None \<Rightarrow> Inl ValidationError | Some u \<Rightarrow> Inr u)"

definition required_header :: "string option \<Rightarrow> exn + string" where
  "required_header h = (case h of None \<Rightarrow> Inl ValidationError | Some s \<Rightarrow> Inr s)"

definition create_merchant_route :: "ext \<Rightarrow> uuid \<Rightarrow> string \<Rightarrow> int \<Rightarrow> json db_op" where
  "create_merchant_route ext corr name level =
     bind_op (lift_sum (MerchantCreate name level)) (\<lambda>body.
     atomically (create_merchant ext body corr))"

definition create_customer_route ::
  "ext \<Rightarrow> uuid \<Rightarrow> string option \<Rightarrow> string \<Rightarrow> string \<Rightarrow> json db_op" where
  "create_customer_route ext corr auth address cur =
     bind_op (require_api_key ext corr auth) (\<lambda>principal.
     bind_op (lift_sum (CustomerCreate ext address cur)) (\<lambda>body.
     bind_op (lift_sum (require_scope principal ''payments:write'' corr)) (\<lambda>_.
     atomically (create_customer ext (pl_merchant_id principal) body corr))))"

definition fund_account_route ::
  "ext \<Rightarrow> uuid \<Rightarrow> string option \<Rightarrow> string \<Rightarrow> int \<Rightarrow> string \<Rightarrow> json db_op" where
  "fund_account_route ext corr auth account n cur =
     bind_op (require_api_key ext corr auth) (\<lambda>principal.
     bind_op (lift_sum (path_uuid ext account)) (\<lambda>account_id.
     bind_op (lift_sum (FundAccountRequest n cur)) (\<lambda>body.
     bind_op (lift_sum (require_scope principal ''payments:write'' corr)) (\<lambda>_.
     atomically (fund_account ext (pl_merchant_id principal) account_id body corr)))))"

text \<open>The route answers with the status that \<open>create_payment\<close> returns.\<close>

definition create_payment_route ::
  "ext \<Rightarrow> uuid \<Rightarrow> string option \<Rightarrow> string option \<Rightarrow> string \<Rightarrow> int \<Rightarrow> string \<Rightarrow> (int \<times> json) db_op" where
  "create_payment_route ext corr auth key customer n cur =
     bind_op (require_api_key ext corr auth) (\<lambda>principal.
     bind_op (lift_sum (required_header key)) (\<lambda>idempotency_key.
     bind_op (lift_sum (PaymentCreate ext customer n cur)) (\<lambda>body.
     bind_op (lift_sum (require_scope principal ''payments:write'' corr)) (\<lambda>_.
     atomically (create_payment ext (pl_merchant_id principal) body idempotency_key corr)))))"

definition get_payment_route :: "ext \<Rightarrow> uuid \<Rightarrow> string option \<Rightarrow> string \<Rightarrow> json db_op" where
  "get_payment_route ext corr auth pid =
     bind_op (require_api_key ext corr auth) (\<lambda>principal.
     bind_op (lift_sum (path_uuid ext pid)) (\<lambda>payment_id.
     bind_op (lift_sum (require_scope principal ''payments:read'' corr)) (\<lambda>_.
     bind_op (query (\<lambda>d. row_at p_id payment_id (payments d))) (\<lambda>found.
     case found of
       None \<Rightarrow> raise (api_error 404 ''PAYMENT_NOT_FOUND'' ''Payment was not found.'' corr)
     | Some payment \<Rightarrow>
         bind_op (raise_if (p_merchant_id payment \<noteq> pl_merchant_id principal)
           (api_error 404 ''PAYMENT_NOT_FOUND'' ''Payment was not found.'' corr)) (\<lambda>_.
         ret (payment_response payment))))))"

text \<open>
  The block of the authorize route: a \<open>PersistedBusinessError\<close> is caught inside the transaction, which
  then commits, and is answered afterwards.
\<close>

definition authorize_block :: "ext \<Rightarrow> uuid \<Rightarrow> uuid \<Rightarrow> uuid \<Rightarrow> (exn + json) db_op" where
  "authorize_block ext merchant_id payment_id corr =
     catch_op (bind_op (authorize_payment ext merchant_id payment_id corr) (\<lambda>body. ret (Inr body)))
       (\<lambda>e. case e of
          PersistedBusinessError code message \<Rightarrow> ret (Inl e)
        | _ \<Rightarrow> raise e)"

definition persisted_answer :: "uuid \<Rightarrow> exn + json \<Rightarrow> exn + json" where
  "persisted_answer corr r =
     (case r of
        Inl (PersistedBusinessError code message) \<Rightarrow> Inl (api_error 409 code message corr)
      | Inl _ \<Rightarrow> Inl (RuntimeError ''authorize route exited without response'')
      | Inr body \<Rightarrow> Inr body)"

definition authorize_route :: "ext \<Rightarrow> uuid \<Rightarrow> string option \<Rightarrow> string \<Rightarrow> json db_op" where
  "authorize_route ext corr auth pid =
     bind_op (require_api_key ext corr auth) (\<lambda>principal.
     bind_op (lift_sum (path_uuid ext pid)) (\<lambda>payment_id.
     bind_op (lift_sum (require_scope principal ''payments:write'' corr)) (\<lambda>_.
     bind_op (atomically (authorize_block ext (pl_merchant_id principal) payment_id corr)) (\<lambda>r.
     lift_sum (persisted_answer corr r)))))"

definition capture_route :: "ext \<Rightarrow> uuid \<Rightarrow> string option \<Rightarrow> string \<Rightarrow> json db_op" where
  "capture_route ext corr auth pid =
     bind_op (require_api_key ext corr auth) (\<lambda>principal.
     bind_op (lift_sum (path_uuid ext pid)) (\<lambda>payment_id.
     bind_op (lift_sum (require_scope principal ''payments:write'' corr)) (\<lambda>_.
     atomically (capture_payment ext (pl_merchant_id principal) payment_id corr))))"

definition cancel_route :: "ext \<Rightarrow> uuid \<Rightarrow> string option \<Rightarrow> string \<Rightarrow> json db_op" where
  "cancel_route ext corr auth pid =
     bind_op (require_api_key ext corr auth) (\<lambda>principal.
     bind_op (lift_sum (path_uuid ext pid)) (\<lambda>payment_id.
     bind_op (lift_sum (require_scope principal ''payments:write'' corr)) (\<lambda>_.
     atomically (cancel_payment ext (pl_merchant_id principal) payment_id corr))))"

definition refund_route :: "ext \<Rightarrow> uuid \<Rightarrow> string option \<Rightarrow> string \<Rightarrow> int \<Rightarrow> json db_op" where
  "refund_route ext corr auth pid n =
     bind_op (require_api_key ext corr auth) (\<lambda>principal.
     bind_op (lift_sum (path_uuid ext pid)) (\<lambda>payment_id.
     bind_op (lift_sum (RefundRequest n)) (\<lambda>body.
     bind_op (lift_sum (require_scope principal ''refunds:write'' corr)) (\<lambda>_.
     atomically (refund_payment ext (pl_merchant_id principal) payment_id body corr)))))"

definition register_webhook_route ::
  "ext \<Rightarrow> uuid \<Rightarrow> string option \<Rightarrow> string \<Rightarrow> string list \<Rightarrow> json db_op" where
  "register_webhook_route ext corr auth address types =
     bind_op (require_api_key ext corr auth) (\<lambda>principal.
     bind_op (lift_sum (WebhookEndpointCreate ext address types)) (\<lambda>body.
     bind_op (lift_sum (require_scope principal ''webhooks:manage'' corr)) (\<lambda>_.
     atomically (register_webhook ext (pl_merchant_id principal) body corr))))"

definition rotate_webhook_secret_route :: "ext \<Rightarrow> uuid \<Rightarrow> string option \<Rightarrow> string \<Rightarrow> json db_op" where
  "rotate_webhook_secret_route ext corr auth eid =
     bind_op (require_api_key ext corr auth) (\<lambda>principal.
     bind_op (lift_sum (path_uuid ext eid)) (\<lambda>endpoint_id.
     bind_op (lift_sum (require_scope principal ''webhooks:manage'' corr)) (\<lambda>_.
     atomically (rotate_webhook_secret ext (pl_merchant_id principal) endpoint_id corr))))"

definition delivery_not_found :: "uuid \<Rightarrow> exn" where
  "delivery_not_found corr =
     api_error 404 ''WEBHOOK_DELIVERY_NOT_FOUND'' ''Webhook delivery was not found.'' corr"

definition replay_delivery :: "ext \<Rightarrow> uuid \<Rightarrow> uuid \<Rightarrow> uuid \<Rightarrow> json db_op" where
  "replay_delivery ext merchant_id delivery_id corr =
     bind_op (query (\<lambda>d. row_at d_id delivery_id (webhook_deliveries d))) (\<lambda>found.
     case found of
       None \<Rightarrow> raise (delivery_not_found corr)
     | Some delivery \<Rightarrow>
     bind_op (query (\<lambda>d. row_at w_id (d_endpoint_id delivery) (webhook_endpoints d))) (\<lambda>endpoint.
     bind_op (raise_if (not_owned w_merchant_id endpoint merchant_id)
       (delivery_not_found corr)) (\<lambda>_.
     bind_op (update_delivery delivery_id (\<lambda>r. r\<lparr>d_status := ''PENDING'', next_attempt_at := None,
       last_error := Some ''manual replay requested''\<rparr>)) (\<lambda>_.
     bind_op (append_audit ext (merchant_ref merchant_id) ''webhook.delivery_replayed''
       (''webhook_delivery:'' @ uuid_str delivery_id) corr
       (JObj [(''attempts'', JInt (attempts delivery))])) (\<lambda>_.
     ret (JObj [(''delivery_id'', JStr (uuid_str delivery_id)), (''status'', JStr ''PENDING'')]))))))"

definition replay_webhook_delivery_route :: "ext \<Rightarrow> uuid \<Rightarrow> string option \<Rightarrow> string \<Rightarrow> json db_op" where
  "replay_webhook_delivery_route ext corr auth did =
     bind_op (require_api_key ext corr auth) (\<lambda>principal.
     bind_op (lift_sum (path_uuid ext did)) (\<lambda>delivery_id.
     bind_op (lift_sum (require_scope principal ''webhooks:manage'' corr)) (\<lambda>_.
     atomically (replay_delivery ext (pl_merchant_id principal) delivery_id corr))))"

definition with_status :: "int \<Rightarrow> json db_op \<Rightarrow> (int \<times> json) db_op" where
  "with_status status m = bind_op m (\<lambda>body. ret (status, body))"

text \<open>The routing table.\<close>

fun route :: "ext \<Rightarrow> uuid \<Rightarrow> string option \<Rightarrow> request \<Rightarrow> (int \<times> json) db_op" where
  "route ext corr auth (CreateMerchant name level) = with_status 201 (create_merchant_route ext corr name level)"
| "route ext corr auth (CreateCustomer address cur) = with_status 201 (create_customer_route ext corr auth address cur)"
| "route ext corr auth (FundAccount account n cur) = with_status 201 (fund_account_route ext corr auth account n cur)"
| "route ext corr auth (CreatePayment key customer n cur) = create_payment_route ext corr auth key customer n cur"
| "route ext corr auth (GetPayment pid) = with_status 200 (get_payment_route ext corr auth pid)"
| "route ext corr auth (Authorize pid) = with_status 200 (authorize_route ext corr auth pid)"
| "route ext corr auth (Capture pid) = with_status 200 (capture_route ext corr auth pid)"
| "route ext corr auth (Cancel pid) = with_status 200 (cancel_route ext corr auth pid)"
| "route ext corr auth (RefundPayment pid n) = with_status 200 (refund_route ext corr auth pid n)"
| "route ext corr auth (RegisterWebhook address types) = with_status 201 (register_webhook_route ext corr auth address types)"
| "route ext corr auth (RotateSecret eid) = with_status 200 (rotate_webhook_secret_route ext corr auth eid)"
| "route ext corr auth (ReplayDelivery did) = with_status 200 (replay_webhook_delivery_route ext corr auth did)"

text \<open>
  \<open>CorrelationMiddleware.dispatch\<close>: the correlation id of the request, from its header or fresh.  An
  empty header counts as absent; a malformed one raises.
\<close>

definition correlation_id_of :: "ext \<Rightarrow> string option \<Rightarrow> uuid db_op" where
  "correlation_id_of ext raw =
     (case raw of
        None \<Rightarrow> fresh_id ext
      | Some s \<Rightarrow> if s = [] then fresh_id ext else lift_sum (UUID s))"

text \<open>One request: the answer, or the exception that leaves the application (status 500).\<close>

definition serve :: "ext \<Rightarrow> string option \<Rightarrow> string option \<Rightarrow> request \<Rightarrow> (int \<times> json) db_op" where
  "serve ext raw auth req =
     bind_op (correlation_id_of ext raw) (\<lambda>corr.
     catch_op (route ext corr auth req) (\<lambda>e. raise (handle_exception corr e)))"

text \<open>
  The status line of an outcome.  The only \<open>ValidationError\<close>s that reach it come from the request
  constructors (\<open>RequestValidationError\<close> in FastAPI): the service builds its \<open>Money\<close> from amounts
  that were validated to be positive.
\<close>

fun http_status :: "exn + (int \<times> json) \<Rightarrow> int" where
  "http_status (Inr (status, body)) = status"
| "http_status (Inl (HTTPException status code message corr)) = status"
| "http_status (Inl ValidationError) = 422"
| "http_status (Inl e) = 500"

end
