(* ===== verification/Workers.thy ===== *)
theory Workers
  imports WebhookService
begin

text \<open>
  \<open>services/payment_service/app/workers\<close>: the outbox publisher, the event consumer, the webhook
  dispatcher and the reconciliation.  The broker and the merchants' servers are arguments: \<open>broker\<close>
  says which messages Kafka accepts in this round, \<open>reply\<close> what a webhook request returns (a status
  code, or the text of an \<open>httpx.HTTPError\<close>).  What was sent is logged in the fields \<open>topic\<close> and
  \<open>requests\<close> of the world, which no rollback takes back.
\<close>

section \<open>Outbox publisher\<close>

record broker =
  broker_up :: bool
  accepts :: "message \<Rightarrow> bool"

definition event_message :: "ext \<Rightarrow> outbox_event \<Rightarrow> message" where
  "event_message ext event =
     \<lparr>msg_key = uuid_str (o_event_id event),
      msg_value = default_json (float_repr ext) (o_payload event)\<rparr>"

definition send_and_wait :: "broker \<Rightarrow> message \<Rightarrow> unit db_op" where
  "send_and_wait k m =
     (if accepts k m then modify_op (\<lambda>w. w\<lparr>topic := topic w @ [m]\<rparr>) else raise KafkaError)"

text \<open>The loop body: 1 if the event was published, 0 if the broker refused it.\<close>

definition publish_event :: "ext \<Rightarrow> broker \<Rightarrow> outbox_event \<Rightarrow> nat db_op" where
  "publish_event ext k event =
     catch_op
       (bind_op (send_and_wait k (event_message ext event)) (\<lambda>_.
        bind_op (mark_published ext event) (\<lambda>_. ret 1)))
       (\<lambda>e. if e = KafkaError
            then
              bind_op (count_metric (\<lambda>c. c\<lparr>outbox_publish_failures_total := outbox_publish_failures_total c + 1\<rparr>)) (\<lambda>_.
              bind_op (bump_publish_retry event) (\<lambda>_. ret 0))
            else raise e)"

fun publish_rows :: "ext \<Rightarrow> broker \<Rightarrow> outbox_event list \<Rightarrow> nat \<Rightarrow> nat db_op" where
  "publish_rows ext k [] count = ret count"
| "publish_rows ext k (event # rows) count =
     bind_op (publish_event ext k event) (\<lambda>n. publish_rows ext k rows (count + n))"

definition publish_batch :: "ext \<Rightarrow> broker \<Rightarrow> nat db_op" where
  "publish_batch ext k =
     bind_op (query (pending_outbox 100)) (\<lambda>rows.
     bind_op (count_metric (\<lambda>c. c\<lparr>outbox_pending_total := length rows\<rparr>)) (\<lambda>_.
     publish_rows ext k rows 0))"

definition publish_once :: "ext \<Rightarrow> broker \<Rightarrow> nat db_op" where
  "publish_once ext k = (if \<not> broker_up k then ret 0 else atomically (publish_batch ext k))"

section \<open>Event consumer\<close>

definition decode_event_payload :: "ext \<Rightarrow> string \<Rightarrow> exn + json" where
  "decode_event_payload ext raw =
     (case json_loads ext raw of
        None \<Rightarrow> Inl (ValueError ''invalid JSON'')
      | Some payload \<Rightarrow>
          (case validate_envelope ext payload of
             None \<Rightarrow> Inl ValidationError
           | Some envelope \<Rightarrow>
               if ev_version envelope \<noteq> 1
               then Inl (ValueError (''unsupported event version '' @ int_str (ev_version envelope)))
               else Inr (envelope_dump ext envelope)))"

text \<open>
  One iteration: a message that does not decode is discarded, another one is processed in a
  transaction; an exception there leaves the loop.  Returning means that the offset is committed.
\<close>

definition consume_message :: "ext \<Rightarrow> message \<Rightarrow> unit db_op" where
  "consume_message ext m =
     (case decode_event_payload ext (msg_value m) of
        Inl _ \<Rightarrow> ret ()
      | Inr payload \<Rightarrow>
          bind_op (lift_sum (bind_sum (json_get ''event_id'' payload) (\<lambda>v. UUID (json_str ext v)))) (\<lambda>event_id.
          bind_op (lift_sum (bind_sum (json_get ''event_type'' payload) (\<lambda>v. Inr (json_str ext v)))) (\<lambda>etype.
          bind_op (atomically (process_payment_event_for_webhooks ext event_id etype payload)) (\<lambda>_.
          ret ()))))"

text \<open>\<open>consume_forever\<close> on the messages of the topic from the committed offset: the new offset.\<close>

fun consume :: "ext \<Rightarrow> message list \<Rightarrow> nat \<Rightarrow> world \<Rightarrow> (exn option \<times> nat) \<times> world" where
  "consume ext [] offset w = ((None, offset), w)"
| "consume ext (m # ms) offset w =
     (case consume_message ext m w of
        (Inl e, w') \<Rightarrow> ((Some e, offset), w')
      | (Inr _, w') \<Rightarrow> consume ext ms (Suc offset) w')"

section \<open>Webhook dispatcher\<close>

text \<open>\<open>float(min(300.0, (2**attempts) + random.uniform(0, 1)))\<close>.\<close>

definition next_delay :: "rat \<Rightarrow> int \<Rightarrow> exn + rat" where
  "next_delay r n =
     (case int_to_float (2 ^ nat n) of
        None \<Rightarrow> Inl OverflowError
      | Some x \<Rightarrow> Inr (min 300 (fadd x r)))"

text \<open>\<open>timedelta(seconds=x)\<close> in microseconds, for \<open>0 \<le> x\<close>.\<close>

definition timedelta_us :: "rat \<Rightarrow> int" where
  "timedelta_us x = \<lfloor>x\<rfloor> * 1000000 + rhe (fmul (x - of_int \<lfloor>x\<rfloor>) 1000000)"

definition set_delivery :: "webhook_delivery \<Rightarrow> (webhook_delivery \<Rightarrow> webhook_delivery) \<Rightarrow> unit db_op" where
  "set_delivery delivery f = update_delivery (d_id delivery) f"

definition count_failure :: "unit db_op" where
  "count_failure =
     count_metric (\<lambda>c. c\<lparr>webhook_delivery_failures_total := webhook_delivery_failures_total c + 1\<rparr>)"

text \<open>
  The query has no \<open>ORDER BY\<close>: which of the due rows it returns, and in which order, is up to the database.
\<close>

definition due_deliveries :: "ext \<Rightarrow> nat \<Rightarrow> int \<Rightarrow> db \<Rightarrow> webhook_delivery list" where
  "due_deliveries ext n t d =
     take 25 (sort_key (\<lambda>r. scan_rank ext n (d_id r)) (filter (\<lambda>r. d_status r \<in> {''PENDING'', ''RETRY''} \<and>
       (case next_attempt_at r of None \<Rightarrow> True | Some u \<Rightarrow> u \<le> t)) (webhook_deliveries d)))"

definition delivery_correlation_id :: "ext \<Rightarrow> db \<Rightarrow> webhook_delivery \<Rightarrow> string" where
  "delivery_correlation_id ext d delivery =
     (case row_at o_event_id (d_event_id delivery) (outbox_events d) of
        Some event \<Rightarrow>
          (case o_payload event of
             JObj kvs \<Rightarrow> json_str ext (case dict_get ''correlation_id'' kvs of None \<Rightarrow> JNull | Some v \<Rightarrow> v)
           | _ \<Rightarrow> uuid_str (d_event_id delivery))
      | None \<Rightarrow> uuid_str (d_event_id delivery))"

definition delivery_body :: "ext \<Rightarrow> webhook_delivery \<Rightarrow> string" where
  "delivery_body ext delivery =
     dumps (float_repr ext) '','' '':'' (JObj [(''event_id'', JStr (uuid_str (d_event_id delivery)))])"

text \<open>The retry time: \<open>utc_now() + timedelta(seconds=next_delay(attempts))\<close>.\<close>

definition retry_at :: "ext \<Rightarrow> int \<Rightarrow> int db_op" where
  "retry_at ext n =
     bind_op (now ext) (\<lambda>t.
     bind_op (draw (jitter ext)) (\<lambda>r.
     bind_op (lift_sum (next_delay r n)) (\<lambda>delay.
     ret (t + timedelta_us delay))))"

text \<open>The branches on a response, and on an \<open>httpx.HTTPError\<close>.  \<open>n\<close> is the new attempt count.\<close>

definition on_response :: "ext \<Rightarrow> webhook_delivery \<Rightarrow> int \<Rightarrow> int \<Rightarrow> nat db_op" where
  "on_response ext delivery n status =
     (if 200 \<le> status \<and> status < 300 then
        bind_op (set_delivery delivery (\<lambda>r. r\<lparr>attempts := n, d_status := ''SUCCEEDED''\<rparr>)) (\<lambda>_. ret 1)
      else if webhook_max_attempts ext \<le> n \<or> status < 500 then
        bind_op (set_delivery delivery (\<lambda>r. r\<lparr>attempts := n, d_status := ''DEAD_LETTER'',
          last_error := Some (''http '' @ int_str status)\<rparr>)) (\<lambda>_.
        bind_op count_failure (\<lambda>_. ret 0))
      else
        bind_op count_failure (\<lambda>_.
        bind_op (retry_at ext n) (\<lambda>t.
        bind_op (set_delivery delivery (\<lambda>r. r\<lparr>attempts := n, d_status := ''RETRY'',
          next_attempt_at := Some t\<rparr>)) (\<lambda>_. ret 0))))"

definition on_http_error :: "ext \<Rightarrow> webhook_delivery \<Rightarrow> int \<Rightarrow> string \<Rightarrow> nat db_op" where
  "on_http_error ext delivery n msg =
     bind_op count_failure (\<lambda>_.
     if webhook_max_attempts ext \<le> n then
       bind_op (set_delivery delivery (\<lambda>r. r\<lparr>attempts := n, d_status := ''DEAD_LETTER'',
         last_error := Some msg\<rparr>)) (\<lambda>_. ret 0)
     else
       bind_op (retry_at ext n) (\<lambda>t.
       bind_op (set_delivery delivery (\<lambda>r. r\<lparr>attempts := n, d_status := ''RETRY'',
         next_attempt_at := Some t, last_error := Some msg\<rparr>)) (\<lambda>_. ret 0)))"

definition post_webhook :: "(webhook_post \<Rightarrow> string + int) \<Rightarrow> webhook_post \<Rightarrow> (string + int) db_op" where
  "post_webhook reply p =
     bind_op (count_metric (\<lambda>c. c\<lparr>webhook_delivery_total := webhook_delivery_total c + 1\<rparr>)) (\<lambda>_.
     bind_op (modify_op (\<lambda>w. w\<lparr>requests := requests w @ [p]\<rparr>)) (\<lambda>_.
     ret (reply p)))"

definition dispatch_delivery ::
  "ext \<Rightarrow> (webhook_post \<Rightarrow> string + int) \<Rightarrow> webhook_delivery \<Rightarrow> nat db_op" where
  "dispatch_delivery ext reply delivery =
     bind_op (query (\<lambda>d. row_at w_id (d_endpoint_id delivery) (webhook_endpoints d))) (\<lambda>found.
     case found of
       None \<Rightarrow> bind_op (set_delivery delivery (\<lambda>r. r\<lparr>d_status := ''DEAD_LETTER''\<rparr>)) (\<lambda>_. ret 0)
     | Some endpoint \<Rightarrow>
     bind_op (query (\<lambda>d. delivery_correlation_id ext d delivery)) (\<lambda>corr.
     let body = delivery_body ext delivery; n = attempts delivery + 1 in
     bind_op (active_webhook_secret ext (w_id endpoint)) (\<lambda>secret.
     bind_op (draw (unix_time ext)) (\<lambda>timestamp.
     bind_op (post_webhook reply
       \<lparr>post_url = url endpoint, post_body = body,
        post_signature = sign_delivery_body ext secret timestamp body,
        post_timestamp = int_str timestamp, post_correlation_id = corr\<rparr>) (\<lambda>response.
     case response of
       Inr status \<Rightarrow> on_response ext delivery n status
     | Inl msg \<Rightarrow> on_http_error ext delivery n msg)))))"

fun dispatch_all ::
  "ext \<Rightarrow> (webhook_post \<Rightarrow> string + int) \<Rightarrow> webhook_delivery list \<Rightarrow> nat \<Rightarrow> nat db_op" where
  "dispatch_all ext reply [] sent = ret sent"
| "dispatch_all ext reply (delivery # rows) sent =
     bind_op (dispatch_delivery ext reply delivery) (\<lambda>n. dispatch_all ext reply rows (sent + n))"

definition dispatch_batch :: "ext \<Rightarrow> (webhook_post \<Rightarrow> string + int) \<Rightarrow> nat db_op" where
  "dispatch_batch ext reply =
     bind_op (now ext) (\<lambda>t.
     bind_op (gets_op draws) (\<lambda>n.
     bind_op (query (due_deliveries ext n t)) (\<lambda>rows.
     dispatch_all ext reply rows 0)))"

definition dispatch_once :: "ext \<Rightarrow> (webhook_post \<Rightarrow> string + int) \<Rightarrow> nat db_op" where
  "dispatch_once ext reply = atomically (dispatch_batch ext reply)"

section \<open>Reconciliation\<close>

definition reconcile_payment :: "db \<Rightarrow> payment \<Rightarrow> json list" where
  "reconcile_payment d p =
     (let captures = reference_total d ''payment_capture'' (p_id p) ''CREDIT'' in
      if p_status p = ''CAPTURED'' \<and> captures \<noteq> captured_amount_minor p
      then [JObj [(''payment_id'', JStr (uuid_str (p_id p))),
                  (''issue'', JStr ''CAPTURED_PAYMENT_LEDGER_MISMATCH''),
                  (''payment_captured'', JInt (captured_amount_minor p)),
                  (''ledger_captured'', JInt captures)]]
      else [])"

text \<open>The findings of the report that \<open>reconcile_once\<close> writes.\<close>

definition reconcile_once :: "db \<Rightarrow> json list" where
  "reconcile_once d = concat (map (reconcile_payment d) (payments d))"

end
