(* ===== verification/System.thy ===== *)
theory System
  imports Api Workers
begin

text \<open>
  The running system: API requests and worker rounds as actions on one world.  \<open>keeps I m\<close> says that
  a computation preserves a predicate of worlds whether it returns or raises; the collection
  \<open>keeps_intros\<close> takes routes and workers apart down to their transactions.
\<close>

named_theorems keeps_intros \<open>rules that decompose the preservation of an invariant\<close>

section \<open>Preservation\<close>

definition keeps :: "(world \<Rightarrow> bool) \<Rightarrow> 'a db_op \<Rightarrow> bool" where
  "keeps I m \<longleftrightarrow> (\<forall>w. I w \<longrightarrow> I (snd (m w)))"

lemma keepsD: "keeps I m \<Longrightarrow> I w \<Longrightarrow> I (snd (m w))"
  by (simp add: keeps_def)

lemma keeps_ret [keeps_intros]: "keeps I (ret a)"
  by (simp add: keeps_def ret_def)

lemma keeps_raise [keeps_intros]: "keeps I (raise e)"
  by (simp add: keeps_def raise_def)

lemma keeps_lift_sum [keeps_intros]: "keeps I (lift_sum r)"
  by (simp add: keeps_def lift_sum_def)

lemma keeps_raise_if [keeps_intros]: "keeps I (raise_if c e)"
  by (simp add: keeps_def raise_if_def)

lemma keeps_gets [keeps_intros]: "keeps I (gets_op f)"
  by (simp add: keeps_def gets_op_def)

lemma keeps_query [keeps_intros]: "keeps I (query f)"
  by (simp add: keeps_def query_def gets_op_def)

lemma keeps_bind: "keeps I m \<Longrightarrow> (\<And>a. keeps I (f a)) \<Longrightarrow> keeps I (bind_op m f)"
  by (auto simp: keeps_def bind_op_def split: prod.splits sum.splits)

lemma keeps_bind_lift [keeps_intros]:
  "(\<And>a. r = Inr a \<Longrightarrow> keeps I (f a)) \<Longrightarrow> keeps I (bind_op (lift_sum r) f)"
  by (auto simp: keeps_def bind_op_def lift_sum_def split: sum.splits)

lemma keeps_catch [keeps_intros]: "keeps I m \<Longrightarrow> (\<And>e. keeps I (h e)) \<Longrightarrow> keeps I (catch_op m h)"
  by (auto simp: keeps_def catch_op_def split: prod.splits sum.splits)

lemma keeps_option [keeps_intros]:
  "keeps I m \<Longrightarrow> (\<And>x. keeps I (f x)) \<Longrightarrow> keeps I (case v of None \<Rightarrow> m | Some x \<Rightarrow> f x)"
  by (cases v) auto

lemma keeps_if [keeps_intros]: "keeps I m \<Longrightarrow> keeps I n \<Longrightarrow> keeps I (if c then m else n)"
  by simp

text \<open>A transaction keeps what its body establishes on return and what the rollback leaves.\<close>

lemma keeps_atomically:
  assumes "\<And>w. I w \<Longrightarrow> wp m (\<lambda>_ v. I (v\<lparr>deferred := []\<rparr>)) (\<lambda>_ _. True) (w\<lparr>deferred := []\<rparr>)"
    and "\<And>w v. I w \<Longrightarrow> I (rollback w v)"
  shows "keeps I (atomically m)"
  unfolding keeps_def
proof (intro allI impI)
  fix w assume I: "I w"
  show "I (snd (atomically m w))"
    using assms(1) [OF I] assms(2) [OF I]
    by (auto simp: wp_def atomically_def split: prod.splits sum.splits)
qed

text \<open>Predicates of the tables alone.\<close>

definition on_tables :: "(db \<Rightarrow> bool) \<Rightarrow> world \<Rightarrow> bool" where
  "on_tables P w \<longleftrightarrow> P (tables w)"

lemma keeps_transaction:
  "(\<And>w. P (tables w) \<Longrightarrow> wp m (\<lambda>_ v. P (tables v)) (\<lambda>_ _. True) w) \<Longrightarrow> keeps (on_tables P) (atomically m)"
  by (rule keeps_atomically) (auto simp: on_tables_def rollback_def)

lemma keeps_draw [keeps_intros]: "keeps (on_tables P) (draw g)"
  by (simp add: keeps_def draw_def on_tables_def)

lemma keeps_now [keeps_intros]: "keeps (on_tables P) (now ext)" "keeps (on_tables P) (fresh_id ext)"
  by (simp_all add: now_def fresh_id_def keeps_draw)

lemma keeps_require_api_key [keeps_intros]: "keeps I (require_api_key ext corr auth)"
  unfolding require_api_key_def Let_def by (intro keeps_intros keeps_bind)

section \<open>Actions\<close>

datatype action =
    Serve "string option" "string option" request
  | Publish broker
  | Consume "message list"
  | Dispatch "webhook_post \<Rightarrow> string + int"

text \<open>The world after an action, whatever its outcome.\<close>

fun perform :: "ext \<Rightarrow> action \<Rightarrow> world \<Rightarrow> world" where
  "perform ext (Serve raw auth req) w = snd (serve ext raw auth req w)"
| "perform ext (Publish k) w = snd (publish_once ext k w)"
| "perform ext (Consume ms) w = snd (consume ext ms 0 w)"
| "perform ext (Dispatch reply) w = snd (dispatch_once ext reply w)"

definition run :: "ext \<Rightarrow> action list \<Rightarrow> world \<Rightarrow> world" where
  "run ext as w = fold (perform ext) as w"

lemma keeps_consume:
  assumes "\<And>m. keeps I (consume_message ext m)" and "I w"
  shows "I (snd (consume ext ms n w))"
  using assms(2)
proof (induction ms arbitrary: n w)
  case Nil
  then show ?case by simp
next
  case (Cons m ms)
  then show ?case
    using keepsD [OF assms(1), of w m] by (auto split: prod.split sum.split)
qed

section \<open>Invariants of the tables\<close>

text \<open>
  The contract of an invariant: every transaction of the service keeps it.  Then every request keeps
  it; if the transactions of the workers keep it too, every action and every run does.
\<close>

locale request_invariant =
  fixes ext :: ext and P :: "db \<Rightarrow> bool"
  assumes tx_create_merchant: "P (tables w) \<Longrightarrow> wp (create_merchant ext mreq corr) (\<lambda>_ v. P (tables v)) (\<lambda>_ _. True) w"
    and tx_create_customer: "P (tables w) \<Longrightarrow> wp (create_customer ext m creq corr) (\<lambda>_ v. P (tables v)) (\<lambda>_ _. True) w"
    and tx_fund_account: "P (tables w) \<Longrightarrow> wp (fund_account ext m a freq corr) (\<lambda>_ v. P (tables v)) (\<lambda>_ _. True) w"
    and tx_create_payment: "P (tables w) \<Longrightarrow> 0 < pr_amount_minor preq \<Longrightarrow>
      wp (create_payment ext m preq key corr) (\<lambda>_ v. P (tables v)) (\<lambda>_ _. True) w"
    and tx_authorize: "P (tables w) \<Longrightarrow> wp (authorize_block ext m p corr) (\<lambda>_ v. P (tables v)) (\<lambda>_ _. True) w"
    and tx_capture: "P (tables w) \<Longrightarrow> wp (capture_payment ext m p corr) (\<lambda>_ v. P (tables v)) (\<lambda>_ _. True) w"
    and tx_cancel: "P (tables w) \<Longrightarrow> wp (cancel_payment ext m p corr) (\<lambda>_ v. P (tables v)) (\<lambda>_ _. True) w"
    and tx_refund: "P (tables w) \<Longrightarrow> wp (refund_payment ext m p rreq corr) (\<lambda>_ v. P (tables v)) (\<lambda>_ _. True) w"
    and tx_register: "P (tables w) \<Longrightarrow> wp (register_webhook ext m wreq corr) (\<lambda>_ v. P (tables v)) (\<lambda>_ _. True) w"
    and tx_rotate: "P (tables w) \<Longrightarrow> wp (rotate_webhook_secret ext m e corr) (\<lambda>_ v. P (tables v)) (\<lambda>_ _. True) w"
    and tx_replay: "P (tables w) \<Longrightarrow> wp (replay_delivery ext m d corr) (\<lambda>_ v. P (tables v)) (\<lambda>_ _. True) w"
begin

lemmas requests_keep = tx_create_merchant tx_create_customer tx_fund_account tx_create_payment
  tx_authorize tx_capture tx_cancel tx_refund tx_register tx_rotate tx_replay

lemma keeps_route: "keeps (on_tables P) (route ext corr auth req)"
  by (cases req; simp only: route.simps with_status_def create_merchant_route_def
      create_customer_route_def fund_account_route_def create_payment_route_def get_payment_route_def
      authorize_route_def capture_route_def cancel_route_def refund_route_def
      register_webhook_route_def rotate_webhook_secret_route_def replay_webhook_delivery_route_def)
    (intro keeps_intros keeps_bind keeps_transaction requests_keep PaymentCreate_Inr; assumption)+

lemma keeps_serve: "keeps (on_tables P) (serve ext raw auth req)"
  unfolding serve_def correlation_id_of_def
  by (intro keeps_bind keeps_intros keeps_route)

end

locale transaction_invariant = request_invariant +
  assumes tx_publish: "P (tables w) \<Longrightarrow> wp (publish_batch ext k) (\<lambda>_ v. P (tables v)) (\<lambda>_ _. True) w"
    and tx_process: "P (tables w) \<Longrightarrow>
      wp (process_payment_event_for_webhooks ext i t j) (\<lambda>_ v. P (tables v)) (\<lambda>_ _. True) w"
    and tx_dispatch: "P (tables w) \<Longrightarrow> wp (dispatch_batch ext reply) (\<lambda>_ v. P (tables v)) (\<lambda>_ _. True) w"
begin

lemmas transactions = requests_keep tx_publish tx_process tx_dispatch

lemma keeps_publish: "keeps (on_tables P) (publish_once ext k)"
  unfolding publish_once_def by (intro keeps_intros keeps_transaction tx_publish)

lemma keeps_dispatch: "keeps (on_tables P) (dispatch_once ext reply)"
  unfolding dispatch_once_def by (intro keeps_transaction tx_dispatch)

lemma keeps_consume_message: "keeps (on_tables P) (consume_message ext msg)"
  unfolding consume_message_def
  by (cases "decode_event_payload ext (msg_value msg)")
    (auto intro!: keeps_intros keeps_bind keeps_transaction tx_process)

lemma perform_keeps: "on_tables P w \<Longrightarrow> on_tables P (perform ext a w)"
  by (cases a) (auto intro: keepsD keeps_serve keeps_publish keeps_dispatch keeps_consume keeps_consume_message)

end

sublocale transaction_invariant \<subseteq> machine: invariant_machine "perform ext" "on_tables P"
  by unfold_locales (rule perform_keeps)

text \<open>A predicate that none of the tables an operation writes can affect is kept by it.\<close>

lemma wp_same_books:
  "wp m (\<lambda>_ v. same_books w v) (\<lambda>_ _. True) w \<Longrightarrow> books_ok (tables w) \<Longrightarrow>
     wp m (\<lambda>_ v. books_ok (tables v)) (\<lambda>_ _. True) w"
  by (erule wp_mono) (auto dest: books_ok_same)

lemma authorize_block_books:
  assumes "books_ok (tables w)"
  shows "wp (authorize_block ext m p corr) (\<lambda>_ v. books_ok (tables v)) (\<lambda>_ _. True) w"
  unfolding authorize_block_def wp_catch wp_bind wp_ret
  by (rule wp_mono [OF authorize_payment_books [OF assms]])
    (auto simp: wp_simps books_if_persisted_def split: exn.split)

lemma register_webhook_books:
  "wp (register_webhook ext m req corr) (\<lambda>_ v. same_books w v) (\<lambda>_ _. True) w"
  unfolding register_webhook_def fresh_id_def now_def insert_endpoint_def insert_secret_def
  by (auto simp: wp_simps same_books_def intro!: append_audit_rule)

lemma rotate_webhook_secret_books:
  "wp (rotate_webhook_secret ext m e corr) (\<lambda>_ v. same_books w v) (\<lambda>_ _. True) w"
  unfolding rotate_webhook_secret_def fresh_id_def now_def update_secret_def update_endpoint_def insert_secret_def
  by (auto simp: wp_simps same_books_def split: option.split intro!: append_audit_rule)

lemma replay_delivery_books:
  "wp (replay_delivery ext m d corr) (\<lambda>_ v. same_books w v) (\<lambda>_ _. True) w"
  unfolding replay_delivery_def update_delivery_def
  by (auto simp: wp_simps same_books_def split: option.split intro!: append_audit_rule)

lemma for_each_books:
  assumes "\<And>x v. wp (f x) (\<lambda>_ u. same_books v u) (\<lambda>_ _. True) v"
    and "\<And>v. books (tables v) = books (tables w) \<Longrightarrow> Q () v"
  shows "wp (for_each xs f) Q (\<lambda>_ _. True) w"
proof -
  have "wp (for_each xs f) (\<lambda>_ v. same_books w v) (\<lambda>_ _. True) w"
  proof (rule wp_for_each)
    fix x s assume "same_books w s"
    then show "wp (f x) (\<lambda>_. same_books w) (\<lambda>_ _. True) s"
      by (intro wp_mono [OF assms(1)]) (auto simp: same_books_def)
  qed (simp add: same_books_def)
  then show ?thesis by (rule wp_mono) (auto simp: same_books_def intro: assms(2))
qed

lemma process_event_books:
  "wp (process_payment_event_for_webhooks ext i t j) (\<lambda>_ v. same_books w v) (\<lambda>_ _. True) w"
proof -
  have add: "wp (add_delivery ext i t e) (\<lambda>_ v. same_books u v) (\<lambda>_ _. True) u" for e u
    unfolding add_delivery_def fresh_id_def now_def insert_delivery_def
    by (auto simp: wp_simps same_books_def)
  show ?thesis
    unfolding process_payment_event_for_webhooks_def mark_event_processed_def now_def same_books_def
    by (auto simp: wp_simps split: prod.split option.split sum.split intro!: for_each_books [OF add])
qed

section \<open>Workers\<close>

lemma publish_event_books:
  "wp (publish_event ext k e) (\<lambda>_ v. same_books w v) (\<lambda>_ _. True) w"
  unfolding publish_event_def send_and_wait_def mark_published_def bump_publish_retry_def update_outbox_def
    now_def same_books_def
  by (auto simp: wp_simps split: option.split)

lemma publish_rows_books:
  "wp (publish_rows ext k rows n) (\<lambda>_ v. same_books w v) (\<lambda>_ _. True) w"
proof (induction rows arbitrary: n w)
  case Nil
  then show ?case by (simp add: wp_simps same_books_def)
next
  case (Cons e rows)
  have "wp (publish_rows ext k rows l) (\<lambda>_ v. same_books w v) (\<lambda>_ _. True) u" if "same_books w u" for l u
    by (rule wp_mono [OF Cons.IH]) (use that in \<open>auto simp: same_books_def\<close>)
  then show ?case by (auto simp: wp_simps intro!: wp_mono [OF publish_event_books])
qed

lemma publish_batch_books: "wp (publish_batch ext k) (\<lambda>_ v. same_books w v) (\<lambda>_ _. True) w"
  unfolding publish_batch_def
  by (auto simp: wp_simps same_books_def intro!: wp_mono [OF publish_rows_books])

lemma set_delivery_books [simp]:
  "wp (set_delivery d f) Q (\<lambda>_ _. True) w \<longleftrightarrow>
     (case row_at d_id (d_id d) (webhook_deliveries (tables w)) of None \<Rightarrow> Q () w
      | Some r \<Rightarrow> delivery_data_ok (f r) \<longrightarrow> Q () (w\<lparr>tables := (tables w)\<lparr>webhook_deliveries :=
          row_set d_id (d_id d) f (webhook_deliveries (tables w))\<rparr>\<rparr>))"
  by (auto simp: set_delivery_def update_delivery_def wp_simps split: option.split)

lemma dispatch_delivery_books:
  "wp (dispatch_delivery ext reply d) (\<lambda>_ v. same_books w v) (\<lambda>_ _. True) w"
  unfolding dispatch_delivery_def Let_def active_webhook_secret_def post_webhook_def on_response_def
    on_http_error_def count_failure_def retry_at_def now_def
  by (auto simp: wp_simps same_books_def split: option.split sum.split)

lemma dispatch_all_books:
  "wp (dispatch_all ext reply rows n) (\<lambda>_ v. same_books w v) (\<lambda>_ _. True) w"
proof (induction rows arbitrary: n w)
  case Nil
  then show ?case by (simp add: wp_simps same_books_def)
next
  case (Cons d rows)
  have "wp (dispatch_all ext reply rows l) (\<lambda>_ v. same_books w v) (\<lambda>_ _. True) u" if "same_books w u" for l u
    by (rule wp_mono [OF Cons.IH]) (use that in \<open>auto simp: same_books_def\<close>)
  then show ?case by (auto simp: wp_simps intro!: wp_mono [OF dispatch_delivery_books])
qed

lemma dispatch_batch_books: "wp (dispatch_batch ext reply) (\<lambda>_ v. same_books w v) (\<lambda>_ _. True) w"
  unfolding dispatch_batch_def now_def
  by (auto simp: wp_simps same_books_def intro!: wp_mono [OF dispatch_all_books])

interpretation books: transaction_invariant ext books_ok for ext
  by unfold_locales
    (auto intro: wp_same_books create_merchant_books create_customer_books fund_account_books
      create_payment_books authorize_block_books capture_payment_books cancel_payment_books
      refund_payment_books register_webhook_books rotate_webhook_secret_books replay_delivery_books
      publish_batch_books process_event_books dispatch_batch_books)

text \<open>Every world the system can reach from an empty database has consistent books.\<close>

lemma run_books_ok: "books_ok (tables (run ext as initial_world))"
proof -
  have "on_tables books_ok initial_world"
    using books_ok_empty by (simp add: on_tables_def initial_world_def)
  then have "on_tables books_ok (run ext as initial_world)"
    unfolding run_def by (rule books.machine.run_inv)
  then show ?thesis by (simp add: on_tables_def)
qed

end
