(* ===== verification/Frames.thy ===== *)
theory Frames
  imports System
begin

text \<open>
  Frame conditions: \<open>frames v m\<close> says that the computation \<open>m\<close> leaves the view \<open>v\<close> of the state as it
  was, whether it returns or raises.  The collection \<open>frame_intros\<close> takes an operation apart down to
  its statements; one lemma per transaction of the service and the workers lists the tables and the
  outgoing messages that it cannot change.
\<close>

named_theorems frame_intros \<open>rules that decompose a frame condition\<close>

definition frames :: "('s \<Rightarrow> 'x) \<Rightarrow> ('s, 'e, 'a) op \<Rightarrow> bool" where
  "frames v m \<longleftrightarrow> (\<forall>s. v (snd (m s)) = v s)"

lemma framesD: "frames v m \<Longrightarrow> v (snd (m s)) = v s"
  by (simp add: frames_def)

lemma frames_result: "frames v m \<Longrightarrow> m s = (r, s') \<Longrightarrow> v s' = v s"
  by (metis framesD snd_conv)

lemma frames_mono: "frames v m \<Longrightarrow> (\<And>s s'. v s = v s' \<Longrightarrow> u s = u s') \<Longrightarrow> frames u m"
  unfolding frames_def by blast

text \<open>Symbolic execution over an operation of which only its frame is known.\<close>

lemma wp_frames:
  assumes "frames v m" and "\<And>a s'. v s' = v s \<Longrightarrow> Q a s'" and "\<And>e s'. v s' = v s \<Longrightarrow> E e s'"
  shows "wp m Q E s"
  using assms framesD [OF assms(1), of s] by (auto simp: wp_def split: prod.split sum.split)

lemma wp_add_frame: "frames f m \<Longrightarrow> wp m (\<lambda>a v. f v = f w \<longrightarrow> Q a v) E w \<Longrightarrow> wp m Q E w"
  using framesD [of f m w] by (auto simp: wp_def split: prod.splits sum.splits)

section \<open>Structure\<close>

lemma frames_ret [frame_intros]: "frames v (ret a)"
  by (simp add: frames_def ret_def)

lemma frames_raise [frame_intros]: "frames v (raise e)"
  by (simp add: frames_def raise_def)

lemma frames_lift_sum [frame_intros]: "frames v (lift_sum r)"
  by (simp add: frames_def lift_sum_def)

lemma frames_raise_if [frame_intros]: "frames v (raise_if c e)"
  by (simp add: frames_def raise_if_def)

lemma frames_gets [frame_intros]: "frames v (gets_op f)"
  by (simp add: frames_def gets_op_def)

lemma frames_query [frame_intros]: "frames v (query f)"
  by (simp add: frames_def query_def gets_op_def)

lemma frames_bind [frame_intros]: "frames v m \<Longrightarrow> (\<And>a. frames v (f a)) \<Longrightarrow> frames v (bind_op m f)"
  by (auto simp: frames_def bind_op_def split: prod.splits sum.splits) (metis snd_conv)+

lemma frames_catch [frame_intros]: "frames v m \<Longrightarrow> (\<And>e. frames v (h e)) \<Longrightarrow> frames v (catch_op m h)"
  by (auto simp: frames_def catch_op_def split: prod.splits sum.splits) (metis snd_conv)+

lemma frames_if [frame_intros]: "frames v m \<Longrightarrow> frames v n \<Longrightarrow> frames v (if c then m else n)"
  by simp

lemma frames_let [frame_intros]: "(\<And>x. frames v (f x)) \<Longrightarrow> frames v (let x = a in f x)"
  by simp

lemma frames_case_option [frame_intros]:
  "frames v m \<Longrightarrow> (\<And>x. frames v (f x)) \<Longrightarrow> frames v (case y of None \<Rightarrow> m | Some x \<Rightarrow> f x)"
  by (cases y) auto

lemma frames_case_prod [frame_intros]: "(\<And>x y. frames v (f x y)) \<Longrightarrow> frames v (case p of (x, y) \<Rightarrow> f x y)"
  by (cases p) auto

lemma frames_case_sum [frame_intros]:
  "(\<And>x. frames v (f x)) \<Longrightarrow> (\<And>y. frames v (g y)) \<Longrightarrow> frames v (case r of Inl x \<Rightarrow> f x | Inr y \<Rightarrow> g y)"
  by (cases r) auto

lemma frames_for_each [frame_intros]: "(\<And>x. frames v (f x)) \<Longrightarrow> frames v (for_each xs f)"
  by (induction xs) (auto intro: frame_intros)

section \<open>Statements\<close>

lemma frames_execute [frame_intros]:
  "(\<And>w. v (w\<lparr>tables := f (tables w)\<rparr>) = v w) \<Longrightarrow> frames v (execute f)"
  by (simp add: frames_def execute_def modify_op_def)

lemma frames_modify [frame_intros]: "(\<And>w. v (f w) = v w) \<Longrightarrow> frames v (modify_op f)"
  by (simp add: frames_def modify_op_def)

lemma frames_count_metric [frame_intros]:
  "(\<And>w c. v (w\<lparr>counters := c\<rparr>) = v w) \<Longrightarrow> frames v (count_metric f)"
  by (simp add: frames_def count_metric_def modify_op_def)

lemma frames_draw [frame_intros]: "(\<And>w n. v (w\<lparr>draws := n\<rparr>) = v w) \<Longrightarrow> frames v (draw g)"
  by (simp add: frames_def draw_def)

lemma frames_atomically:
  assumes "frames v m" and "\<And>w. v (w\<lparr>deferred := []\<rparr>) = v w"
    and "\<And>w u. v u = v w \<Longrightarrow> v (rollback w u) = v w"
  shows "frames v (atomically m)"
  unfolding frames_def
proof
  fix w
  have "v (snd (m (w\<lparr>deferred := []\<rparr>))) = v w" using framesD [OF assms(1)] assms(2) by metis
  then show "v (snd (atomically m w)) = v w"
    using assms(2,3) by (auto simp: atomically_def split: prod.splits sum.splits)
qed

lemmas statement_defs = insert_row_def update_row_def insert_merchant_def insert_api_key_def
  insert_customer_def insert_account_def insert_payment_def update_payment_def insert_refund_def
  insert_outbox_def update_outbox_def insert_endpoint_def update_endpoint_def insert_secret_def
  update_secret_def insert_delivery_def update_delivery_def insert_audit_def insert_journal_def
  update_journal_def insert_entry_def defer_check_def

lemmas repository_defs = fresh_id_def now_def claim_idempotency_def complete_idempotency_def
  new_envelope_def append_outbox_def append_audit_def ensure_ledger_account_def add_line_def
  create_journal_def mark_event_processed_def mark_published_def bump_publish_retry_def
  audit_payment_def

section \<open>Transactions\<close>

lemma frame_create_merchant:
  "frames (\<lambda>w. (customers (tables w), accounts (tables w), payments (tables w), refunds (tables w),
     ledger_accounts (tables w), journals (tables w), journal_entries (tables w),
     idempotency_records (tables w), outbox_events (tables w), processed_events (tables w),
     webhook_endpoints (tables w), webhook_secrets (tables w), webhook_deliveries (tables w), topic w, requests w))
   (create_merchant ext req corr)"
  unfolding create_merchant_def repository_defs statement_defs by (intro frame_intros) simp_all

lemma frame_create_customer:
  "frames (\<lambda>w. (merchants (tables w), api_keys (tables w), payments (tables w), refunds (tables w),
     ledger_accounts (tables w), journals (tables w), journal_entries (tables w),
     idempotency_records (tables w), outbox_events (tables w), processed_events (tables w),
     webhook_endpoints (tables w), webhook_secrets (tables w), webhook_deliveries (tables w), topic w, requests w))
   (create_customer ext mid req corr)"
  unfolding create_customer_def repository_defs statement_defs by (intro frame_intros) simp_all

lemma frame_fund_account:
  "frames (\<lambda>w. (merchants (tables w), api_keys (tables w), customers (tables w), accounts (tables w),
     payments (tables w), refunds (tables w),
     idempotency_records (tables w), outbox_events (tables w), processed_events (tables w),
     webhook_endpoints (tables w), webhook_secrets (tables w), webhook_deliveries (tables w), topic w, requests w))
   (fund_account ext mid aid req corr)"
  unfolding fund_account_def repository_defs statement_defs by (intro frame_intros) simp_all

lemma frame_create_payment:
  "frames (\<lambda>w. (merchants (tables w), api_keys (tables w), customers (tables w),
     accounts (tables w), refunds (tables w), ledger_accounts (tables w), journals (tables w),
     journal_entries (tables w), processed_events (tables w), webhook_endpoints (tables w),
     webhook_secrets (tables w), webhook_deliveries (tables w), topic w, requests w))
   (create_payment ext mid req key corr)"
  unfolding create_payment_def persist_payment_def repository_defs statement_defs
  by (intro frame_intros) (simp_all add: frames_raise split: exn.split)

lemma frame_authorize_payment:
  "frames (\<lambda>w. (merchants (tables w), api_keys (tables w), customers (tables w),
     accounts (tables w), refunds (tables w), ledger_accounts (tables w), journals (tables w),
     journal_entries (tables w), idempotency_records (tables w), processed_events (tables w),
     webhook_endpoints (tables w), webhook_secrets (tables w), webhook_deliveries (tables w),
     topic w, requests w))
   (authorize_payment ext mid pid corr)"
  unfolding authorize_payment_def repository_defs statement_defs
  by (intro frame_intros) simp_all

lemma frame_capture_payment:
  "frames (\<lambda>w. (merchants (tables w), api_keys (tables w), customers (tables w),
     accounts (tables w), refunds (tables w), idempotency_records (tables w),
     processed_events (tables w), webhook_endpoints (tables w), webhook_secrets (tables w),
     webhook_deliveries (tables w), topic w, requests w))
   (capture_payment ext mid pid corr)"
  unfolding capture_payment_def repository_defs statement_defs
  by (intro frame_intros) simp_all

lemma frame_cancel_payment:
  "frames (\<lambda>w. (merchants (tables w), api_keys (tables w), customers (tables w),
     accounts (tables w), refunds (tables w), ledger_accounts (tables w), journals (tables w),
     journal_entries (tables w), idempotency_records (tables w), processed_events (tables w),
     webhook_endpoints (tables w), webhook_secrets (tables w), webhook_deliveries (tables w),
     audit_logs (tables w), topic w, requests w))
   (cancel_payment ext mid pid corr)"
  unfolding cancel_payment_def repository_defs statement_defs
  by (intro frame_intros) simp_all

lemma frame_refund_payment:
  "frames (\<lambda>w. (merchants (tables w), api_keys (tables w), customers (tables w),
     accounts (tables w), idempotency_records (tables w), processed_events (tables w),
     webhook_endpoints (tables w), webhook_secrets (tables w), webhook_deliveries (tables w),
     audit_logs (tables w), topic w, requests w))
   (refund_payment ext mid pid req corr)"
  unfolding refund_payment_def repository_defs statement_defs
  by (intro frame_intros) simp_all

lemma frame_register_webhook:
  "frames (\<lambda>w. (merchants (tables w), api_keys (tables w), customers (tables w),
     accounts (tables w), payments (tables w), refunds (tables w), ledger_accounts (tables w),
     journals (tables w), journal_entries (tables w), idempotency_records (tables w),
     outbox_events (tables w), processed_events (tables w), webhook_deliveries (tables w),
     topic w, requests w))
   (register_webhook ext mid req corr)"
  unfolding register_webhook_def repository_defs statement_defs
  by (intro frame_intros) simp_all

lemma frame_rotate_webhook_secret:
  "frames (\<lambda>w. (merchants (tables w), api_keys (tables w), customers (tables w),
     accounts (tables w), payments (tables w), refunds (tables w), ledger_accounts (tables w),
     journals (tables w), journal_entries (tables w), idempotency_records (tables w),
     outbox_events (tables w), processed_events (tables w), webhook_deliveries (tables w),
     topic w, requests w))
   (rotate_webhook_secret ext mid eid corr)"
  unfolding rotate_webhook_secret_def repository_defs statement_defs
  by (intro frame_intros) simp_all

lemma frame_replay_delivery:
  "frames (\<lambda>w. (merchants (tables w), api_keys (tables w), customers (tables w),
     accounts (tables w), payments (tables w), refunds (tables w), ledger_accounts (tables w),
     journals (tables w), journal_entries (tables w), idempotency_records (tables w),
     outbox_events (tables w), processed_events (tables w), webhook_endpoints (tables w),
     webhook_secrets (tables w), topic w, requests w))
   (replay_delivery ext mid did corr)"
  unfolding replay_delivery_def repository_defs statement_defs
  by (intro frame_intros) simp_all

lemma frame_process_payment_event:
  "frames (\<lambda>w. (merchants (tables w), api_keys (tables w), customers (tables w),
     accounts (tables w), payments (tables w), refunds (tables w), ledger_accounts (tables w),
     journals (tables w), journal_entries (tables w), idempotency_records (tables w),
     outbox_events (tables w), webhook_endpoints (tables w), webhook_secrets (tables w),
     audit_logs (tables w), topic w, requests w))
   (process_payment_event_for_webhooks ext i t j)"
  unfolding process_payment_event_for_webhooks_def add_delivery_def repository_defs statement_defs
  by (intro frame_intros) simp_all

lemma frame_authorize_block:
  "frames (\<lambda>w. (merchants (tables w), api_keys (tables w), customers (tables w),
     accounts (tables w), refunds (tables w), ledger_accounts (tables w), journals (tables w),
     journal_entries (tables w), idempotency_records (tables w), processed_events (tables w),
     webhook_endpoints (tables w), webhook_secrets (tables w), webhook_deliveries (tables w),
     topic w, requests w))
   (authorize_block ext mid pid corr)"
  unfolding authorize_block_def
  by (intro frames_catch frames_bind frames_ret frame_authorize_payment)
    (simp add: frames_ret frames_raise split: exn.split)

lemma frame_publish_event:
  "frames (\<lambda>w. (merchants (tables w), api_keys (tables w), customers (tables w),
     accounts (tables w), payments (tables w), refunds (tables w), ledger_accounts (tables w),
     journals (tables w), journal_entries (tables w), idempotency_records (tables w),
     processed_events (tables w), webhook_endpoints (tables w), webhook_secrets (tables w),
     webhook_deliveries (tables w), audit_logs (tables w), requests w))
   (publish_event ext k e)"
  unfolding publish_event_def send_and_wait_def repository_defs statement_defs
  by (intro frame_intros) simp_all

lemma frames_publish_rows:
  "(\<And>e. frames v (publish_event ext k e)) \<Longrightarrow> frames v (publish_rows ext k rows n)"
  by (induction rows arbitrary: n) (auto intro!: frame_intros)

lemma frame_publish_batch:
  "frames (\<lambda>w. (merchants (tables w), api_keys (tables w), customers (tables w),
     accounts (tables w), payments (tables w), refunds (tables w), ledger_accounts (tables w),
     journals (tables w), journal_entries (tables w), idempotency_records (tables w),
     processed_events (tables w), webhook_endpoints (tables w), webhook_secrets (tables w),
     webhook_deliveries (tables w), audit_logs (tables w), requests w))
   (publish_batch ext k)"
  unfolding publish_batch_def
  by (intro frame_intros frames_publish_rows frame_publish_event) simp_all

lemma frame_dispatch_delivery:
  "frames (\<lambda>w. (merchants (tables w), api_keys (tables w), customers (tables w),
     accounts (tables w), payments (tables w), refunds (tables w), ledger_accounts (tables w),
     journals (tables w), journal_entries (tables w), idempotency_records (tables w),
     outbox_events (tables w), processed_events (tables w), webhook_endpoints (tables w),
     webhook_secrets (tables w), audit_logs (tables w), topic w))
   (dispatch_delivery ext reply d)"
  unfolding dispatch_delivery_def active_webhook_secret_def post_webhook_def on_response_def
    on_http_error_def count_failure_def retry_at_def set_delivery_def repository_defs statement_defs
  by (intro frame_intros) simp_all

lemma frames_dispatch_all:
  "(\<And>d. frames v (dispatch_delivery ext reply d)) \<Longrightarrow> frames v (dispatch_all ext reply rows n)"
  by (induction rows arbitrary: n) (auto intro!: frame_intros)

lemma frame_dispatch_batch:
  "frames (\<lambda>w. (merchants (tables w), api_keys (tables w), customers (tables w),
     accounts (tables w), payments (tables w), refunds (tables w), ledger_accounts (tables w),
     journals (tables w), journal_entries (tables w), idempotency_records (tables w),
     outbox_events (tables w), processed_events (tables w), webhook_endpoints (tables w),
     webhook_secrets (tables w), audit_logs (tables w), topic w))
   (dispatch_batch ext reply)"
  unfolding dispatch_batch_def now_def
  by (intro frame_intros frames_dispatch_all frame_dispatch_delivery) simp_all

end
