(* ===== verification/Samples.thy ===== *)
theory Samples
  imports Frames
begin

text \<open>
  A concrete environment and a small shop on which the theorems are applied: one merchant with a
  funded customer, an authorised and a pending payment and a webhook endpoint.  The collection
  \<open>sample_run\<close> lets \<open>simp\<close> execute operations on them.
\<close>

definition sample_ext :: ext where
  "sample_ext = \<lparr>uuid4 = of_nat, utc_now = int, unix_time = int, token_urlsafe = (\<lambda>n. ''token''),
     jitter = (\<lambda>_. 0), sha256_hex = take 64, sha256_b64 = take 44, hmac_sha256 = (\<lambda>k m. ''abc''),
     fernet_encrypt = (\<lambda>k n s. s), fernet_decrypt = (\<lambda>k c. Some c), float_repr = (\<lambda>_. ''0.08''),
     iso_datetime = int_str, py_str = (\<lambda>_. ''''), email_str = Some, http_url = Some,
     json_loads = (\<lambda>_. None), validate_envelope = (\<lambda>_. None), pydantic_uuid = uuid_parse, scan_rank = (\<lambda>_ _. 0), webhook_secret_master_key = ''key'',
     webhook_max_attempts = 6\<rparr>"

section \<open>A shop\<close>

definition sample_payment :: "nat \<Rightarrow> payment_status \<Rightarrow> int \<Rightarrow> payment" where
  "sample_payment i st n =
     \<lparr>p_id = of_nat i, p_merchant_id = 1, p_customer_id = 3, p_amount_minor = n,
      p_currency = currency_value EUR, p_status = status_value st, captured_amount_minor = 0,
      refunded_amount_minor = 0, provider_reference = None, p_version = 1, p_created_at = 9,
      p_updated_at = 9\<rparr>"

definition sample_entry :: "nat \<Rightarrow> uuid \<Rightarrow> string \<Rightarrow> journal_entry" where
  "sample_entry i a dir =
     \<lparr>e_id = of_nat i, e_journal_id = 12, ledger_account_id = a, e_direction = dir,
      e_amount_minor = 1000, e_currency = currency_value EUR, e_created_at = 8\<rparr>"

definition sample_endpoint :: webhook_endpoint where
  "sample_endpoint =
     \<lparr>w_id = 5, w_merchant_id = 1, url = ''https://shop.example/hook'', w_secret_hash = ''whsec_token'',
      event_types = [''payment.captured''], enabled = True, w_created_at = 2\<rparr>"

definition shop_db :: db where
  "shop_db = empty_db\<lparr>
     merchants := [\<lparr>m_id = 1, m_name = ''shop'', m_risk_level = 1, m_created_at = 0\<rparr>],
     api_keys := [\<lparr>k_id = 2, k_merchant_id = 1, key_hash = ''fg_test_token'', scopes = merchant_scopes,
       revoked_at = None, k_created_at = 0\<rparr>],
     customers := [\<lparr>c_id = 3, c_merchant_id = 1, email = ''a@example.com'', c_created_at = 1\<rparr>],
     accounts := [\<lparr>a_id = 4, a_customer_id = 3, a_currency = currency_value EUR, a_created_at = 1\<rparr>],
     ledger_accounts :=
       [\<lparr>la_id = 10, owner_id = 3, la_name = ''customer_cash'', la_currency = currency_value EUR,
         normal_balance = ''DEBIT'', la_created_at = 7\<rparr>,
        \<lparr>la_id = 11, owner_id = 1, la_name = ''simulated_provider_funding'',
         la_currency = currency_value EUR, normal_balance = ''CREDIT'', la_created_at = 7\<rparr>],
     journals := [\<lparr>j_id = 12, reference_type = ''account_funding'', reference_id = 4,
       j_currency = currency_value EUR, j_status = ''POSTED'', posted_at = Some 8, j_created_at = 8\<rparr>],
     journal_entries := [sample_entry 13 10 ''DEBIT'', sample_entry 14 11 ''CREDIT''],
     payments := [sample_payment 20 AUTHORIZED 400, sample_payment 21 PENDING 5000],
     webhook_endpoints := [sample_endpoint],
     webhook_secrets := [\<lparr>s_id = 6, s_endpoint_id = 5, s_version = 1, secret_ciphertext = ''whsec_token'',
       s_secret_hash = ''whsec_token'', active = True, s_created_at = 2, retired_at = None\<rparr>]\<rparr>"

definition shop_world :: world where
  "shop_world = initial_world\<lparr>tables := shop_db, draws := 100\<rparr>"

lemmas op_defs = ret_def raise_def bind_op_def catch_op_def gets_op_def modify_op_def lift_sum_def
  raise_if_def query_def execute_def count_metric_def draw_def atomically_def rollback_def

lemmas constraint_defs = merchant_data_ok_def merchant_integrity_ok_def api_key_data_ok_def
  api_key_integrity_ok_def customer_data_ok_def customer_integrity_ok_def account_data_ok_def
  account_integrity_ok_def payment_data_ok_def payment_integrity_ok_def payment_checks_def
  refund_data_ok_def refund_integrity_ok_def ledger_account_data_ok_def ledger_account_integrity_ok_def
  la_key_def journal_data_ok_def j_reference_def journal_integrity_ok_def journal_update_ok_def
  entry_data_ok_def entry_checks_def entry_integrity_ok_def i_pk_def idempotency_data_ok_def
  outbox_data_ok_def outbox_integrity_ok_def pe_pk_def endpoint_data_ok_def endpoint_integrity_ok_def
  secret_data_ok_def secret_integrity_ok_def delivery_data_ok_def delivery_integrity_ok_def
  audit_data_ok_def audit_integrity_ok_def int4_def varchar_def guard_entry_def guard_journal_update_def

lemmas sample_defs = sample_ext_def shop_world_def shop_db_def sample_payment_def sample_entry_def
  sample_endpoint_def initial_world_def empty_db_def

lemma enum_value_lengths:
  "24 \<le> n \<Longrightarrow> length (event_type_value e) \<le> n" "18 \<le> n \<Longrightarrow> length (status_value st) \<le> n"
  by (cases e; simp add: enum_value_simps) (cases st; simp add: enum_value_simps)

lemmas sample_run = enum_value_lengths op_defs statement_defs repository_defs constraint_defs sample_defs row_simps
  merchant_ref_def hash_secret_def

text \<open>A sample run gives a result and a world.\<close>

lemma ran: "fst p = r \<Longrightarrow> \<exists>w'. p = (r, w')"
  by (metis prod.collapse)

section \<open>A payment is created\<close>

definition sample_request :: payment_request where
  "sample_request = \<lparr>pr_customer_id = 3, pr_amount_minor = 500, pr_currency = EUR\<rparr>"

lemma sample_risk: "evaluate_risk 500 ''EUR'' 1 0 False = Inr \<lparr>score = fl (8 / 100), decision = APPROVE, reasons = []\<rparr>"
  by code_simp

lemma sample_create:
  "fst (atomically (create_payment sample_ext 1 sample_request ''order-1'' 7) shop_world) =
     Inr (201, payment_response (new_payment 101 1 sample_request PENDING 102 103))"
  by (simp add: create_payment_def persist_payment_def sample_request_def sample_run Let_def claim_row_def
      idempotency_row_def not_owned_def enum_value_simps sample_risk canonical_fingerprint_def new_payment_def)

section \<open>The shop is consistent, and its authorised payment can be captured\<close>

lemma shop_books_ok: "books_ok (tables shop_world)"
  by (simp add: shop_world_def books_ok_def book_ok_def ledger_tables_ok_def posted_balanced_def journal_balanced_def
      entry_total_def entries_of_def entries_have_journals_def references_ok_def cash_nonnegative_def
      available_balance_def cash_account_ids_def payment_agrees_def refunds_of_def reference_total_def
      joined_entries_def payment_ok_def j_reference_def la_key_def currency_of_def shop_db_def empty_db_def
      sample_payment_def sample_entry_def enum_value_simps status_of_def)

lemmas sample_step = sample_run Let_def payment_for_update_def check_transition_def available_balance_def
  cash_account_ids_def claim_row_def line_builders Money_def payment_event_payload_def
  payment_response_def transition_def not_owned_def refundable_def refund_status_def
  enforce_posted_journal_balances_def entry_total_def entries_of_def

lemma sample_capture:
  "fst (atomically (capture_payment sample_ext 1 20 7) shop_world) =
     Inr (payment_response ((sample_payment 20 CAPTURED 400)\<lparr>captured_amount_minor := 400\<rparr>))"
  by (simp add: capture_payment_def sample_step)

text \<open>The pending payment exceeds the balance: authorising it fails, and the failure is committed.\<close>

lemma sample_authorize:
  "fst (atomically (authorize_block sample_ext 1 21 7) shop_world) =
     Inr (Inl (PersistedBusinessError ''INSUFFICIENT_FUNDS'' ''Available balance is insufficient.''))"
  by (simp add: authorize_block_def authorize_payment_def sample_step)

text \<open>A shop whose payment of 400 was captured: part of it can be refunded.\<close>

definition captured_db :: db where
  "captured_db = shop_db\<lparr>
     payments := [(sample_payment 20 CAPTURED 400)\<lparr>captured_amount_minor := 400\<rparr>],
     ledger_accounts := ledger_accounts shop_db @
       [\<lparr>la_id = 15, owner_id = 1, la_name = ''merchant_receivable'', la_currency = currency_value EUR,
         normal_balance = ''CREDIT'', la_created_at = 9\<rparr>],
     journals := journals shop_db @ [\<lparr>j_id = 16, reference_type = ''payment_capture'', reference_id = 20,
       j_currency = currency_value EUR, j_status = ''POSTED'', posted_at = Some 9, j_created_at = 9\<rparr>],
     journal_entries := journal_entries shop_db @
       [(sample_entry 17 15 ''DEBIT'')\<lparr>e_journal_id := 16, e_amount_minor := 400\<rparr>,
        (sample_entry 18 10 ''CREDIT'')\<lparr>e_journal_id := 16, e_amount_minor := 400\<rparr>]\<rparr>"

definition captured_world :: world where
  "captured_world = shop_world\<lparr>tables := captured_db\<rparr>"

lemma captured_books_ok: "books_ok (tables captured_world)"
  by (simp add: captured_world_def books_ok_def book_ok_def ledger_tables_ok_def posted_balanced_def journal_balanced_def
      entry_total_def entries_of_def entries_have_journals_def references_ok_def cash_nonnegative_def
      available_balance_def cash_account_ids_def payment_agrees_def refunds_of_def reference_total_def
      joined_entries_def payment_ok_def j_reference_def la_key_def currency_of_def captured_db_def
      shop_db_def empty_db_def sample_payment_def sample_entry_def enum_value_simps status_of_def)

lemma sample_refund:
  "fst (atomically (refund_payment sample_ext 1 20 \<lparr>rr_amount_minor = 150\<rparr> 7) captured_world) =
     Inr (payment_response ((sample_payment 20 PARTIALLY_REFUNDED 400)\<lparr>captured_amount_minor := 400,
       refunded_amount_minor := 150\<rparr>))"
  by (simp add: refund_payment_def sample_step captured_world_def captured_db_def)

text \<open>The shop before its customer's account was funded.\<close>

definition unfunded_world :: world where
  "unfunded_world = shop_world\<lparr>tables := shop_db\<lparr>journals := [], journal_entries := [], payments := []\<rparr>\<rparr>"

lemma unfunded_books_ok: "books_ok (tables unfunded_world)"
  by (simp add: books_ok_def book_ok_def ledger_tables_ok_def posted_balanced_def
      entries_have_journals_def references_ok_def cash_nonnegative_def available_balance_def
      cash_account_ids_def la_key_def unfunded_world_def shop_world_def shop_db_def empty_db_def Let_def)

lemma sample_fund:
  "fst (atomically (fund_account sample_ext 1 4 \<lparr>fr_amount_minor = 1000, fr_currency = EUR\<rparr> 7) unfunded_world) =
     Inr (JObj [(''journal_id'', JStr (uuid_str 100))])"
  by (simp add: fund_account_def sample_step unfunded_world_def)

end
