(* ===== verification/Idempotency.thy ===== *)
theory Idempotency
  imports Samples
begin

text \<open>
  Idempotency keys: the record a payment request leaves, that no later request or worker round
  changes it once it holds an answer (an interpretation of \<open>transaction_invariant\<close>), and what a
  repeated or a conflicting request gets.
\<close>

section \<open>Invariants of single tables\<close>

text \<open>A transaction whose frame covers what an invariant depends on keeps it.\<close>

lemma wp_frame_keeps:
  assumes "frames v m" and "\<And>s s'. v s = v s' \<Longrightarrow> P (tables s) = P (tables s')" and "P (tables w)"
  shows "wp m (\<lambda>_ w'. P (tables w')) (\<lambda>_ _. True) w"
  using assms(1) by (rule wp_frames) (use assms(2,3) in blast)+

lemmas frame_rules = frame_create_merchant frame_create_customer frame_fund_account frame_create_payment
  frame_authorize_block frame_capture_payment frame_cancel_payment frame_refund_payment
  frame_register_webhook frame_rotate_webhook_secret frame_replay_delivery frame_publish_batch
  frame_process_payment_event frame_dispatch_batch

section \<open>Answers to idempotent requests\<close>

text \<open>The idempotency record of a key with a stored answer.\<close>

definition answered :: "string \<times> uuid \<Rightarrow> idempotency_record \<Rightarrow> db \<Rightarrow> bool" where
  "answered k r d \<longleftrightarrow>
     row_at i_pk k (idempotency_records d) = Some r \<and> response_status r \<noteq> None \<and> response_body r \<noteq> None"

lemma claim_idempotency_spec:
  assumes found: "\<And>r w'. row_at i_pk (key, mid) (idempotency_records (tables w)) = Some r \<Longrightarrow>
      request_fingerprint r = fp \<Longrightarrow> varchar 100 key \<and> varchar 64 fp \<Longrightarrow>
      tables w' = tables w \<Longrightarrow> deferred w' = deferred w \<Longrightarrow> Q r w'"
    and new: "\<And>r w'. row_at i_pk (key, mid) (idempotency_records (tables w)) = None \<Longrightarrow>
      i_pk r = (key, mid) \<Longrightarrow> request_fingerprint r = fp \<Longrightarrow> response_body r = None \<Longrightarrow>
      varchar 100 key \<and> varchar 64 fp \<Longrightarrow> deferred w' = deferred w \<Longrightarrow>
      tables w' = (tables w)\<lparr>idempotency_records := idempotency_records (tables w) @ [r]\<rparr> \<Longrightarrow> Q r w'"
    and conflict: "\<And>r w'. row_at i_pk (key, mid) (idempotency_records (tables w)) = Some r \<Longrightarrow>
      request_fingerprint r \<noteq> fp \<Longrightarrow> tables w' = tables w \<Longrightarrow>
      E (IdempotencyConflictError ''same idempotency key used with a different payload'') w'"
    and data: "\<And>w'. \<not> varchar 100 key \<or> \<not> varchar 64 fp \<Longrightarrow> tables w' = tables w \<Longrightarrow> E DataError w'"
  shows "wp (claim_idempotency ext mid key fp) Q E w"
proof (cases "row_at i_pk (key, mid) (idempotency_records (tables w))")
  case None
  then have "(key, mid) \<notin> i_pk ` set (idempotency_records (tables w))" by (simp add: row_at_None_iff)
  then show ?thesis
    using None
    by (auto simp: claim_idempotency_def now_def wp_simps Let_def claim_row_def idempotency_row_def
        idempotency_data_ok_def i_pk_def intro!: new data)
next
  case (Some r)
  then have "(key, mid) \<in> i_pk ` set (idempotency_records (tables w))" "i_pk r = (key, mid)"
    using row_at_SomeD [OF Some] by (auto intro: rev_image_eqI)
  then show ?thesis
    using Some
    by (auto simp: claim_idempotency_def now_def wp_simps Let_def claim_row_def idempotency_row_def
        idempotency_data_ok_def i_pk_def intro!: found conflict data)
qed

text \<open>Completing another record leaves the answer alone.\<close>

lemma answered_row_set:
  "answered k r d \<Longrightarrow> k' \<noteq> k \<Longrightarrow> (\<And>x. i_pk (f x) = i_pk x) \<Longrightarrow>
     answered k r (d\<lparr>idempotency_records := row_set i_pk k' f (idempotency_records d)\<rparr>)"
  by (simp add: answered_def row_at_row_set)

lemma persist_payment_answered:
  assumes "answered k r (tables w)" and "i_pk record \<noteq> k"
  shows "wp (persist_payment ext mid req record risk corr) (\<lambda>_ w'. answered k r (tables w')) (\<lambda>_ _. True) w"
  unfolding persist_payment_def Let_def fresh_id_def now_def insert_payment_def complete_idempotency_def
  using assms
  by (auto simp: wp_simps answered_def row_at_row_set i_pk_def split: option.split
      intro!: append_outbox_rule append_audit_rule)

lemma answered_append:
  "answered k r d \<Longrightarrow> answered k r (d\<lparr>idempotency_records := idempotency_records d @ t\<rparr>)"
  by (auto simp: answered_def row_at_append)

lemma create_payment_answered:
  assumes ok: "answered k r (tables w)"
  shows "wp (create_payment ext mid req key corr) (\<lambda>_ w'. answered k r (tables w')) (\<lambda>_ _. True) w"
proof (cases "(key, mid) = k")
  case True
  then have "row_at i_pk (key, mid) (idempotency_records (tables w)) = Some r"
    "response_status r \<noteq> None" "response_body r \<noteq> None"
    using ok by (auto simp: answered_def)
  then show ?thesis
    unfolding create_payment_def Let_def
    by (clarsimp simp: wp_simps) (rule claim_idempotency_spec, auto simp: wp_simps ok)
next
  case False
  have "i_pk rec \<noteq> k" if "row_at i_pk (key, mid) (idempotency_records (tables w)) = Some rec" for rec
    using row_at_SomeD [OF that] False by simp
  then show ?thesis
    unfolding create_payment_def Let_def
    using False ok answered_append [OF ok]
    by (clarsimp simp: wp_simps)
      (rule claim_idempotency_spec,
       auto simp: wp_simps intro!: persist_payment_answered split: option.split sum.split exn.split)
qed

interpretation answers: transaction_invariant ext "answered k r" for ext k r
  by unfold_locales
    ((rule create_payment_answered, assumption) |
     (rule wp_frame_keeps, rule frame_rules, simp add: answered_def, assumption))+

text \<open>What a successful transaction of \<open>create_payment\<close> stored under its key.\<close>

definition stored_answer :: "ext \<Rightarrow> uuid \<Rightarrow> payment_request \<Rightarrow> string \<Rightarrow> int \<times> json \<Rightarrow> db \<Rightarrow> bool" where
  "stored_answer ext mid req key a d \<longleftrightarrow>
     (case row_at i_pk (key, mid) (idempotency_records d) of
        None \<Rightarrow> False
      | Some r \<Rightarrow>
          request_fingerprint r = canonical_fingerprint ext (payment_request_dump req) \<and>
          response_status r = Some (fst a) \<and> response_body r = Some (snd a) \<and>
          varchar 100 key \<and> varchar 64 (request_fingerprint r))"

lemma stored_answerI:
  "row_at i_pk (key, mid) (idempotency_records d) = Some r \<Longrightarrow>
     request_fingerprint r = canonical_fingerprint ext (payment_request_dump req) \<Longrightarrow>
     response_status r = Some st \<Longrightarrow> response_body r = Some body \<Longrightarrow> varchar 100 key \<Longrightarrow>
     varchar 64 (request_fingerprint r) \<Longrightarrow> stored_answer ext mid req key (st, body) d"
  by (simp add: stored_answer_def)

lemma stored_answer_cong:
  "answered (key, mid) r d \<Longrightarrow> answered (key, mid) r d' \<Longrightarrow>
     stored_answer ext mid req key a d = stored_answer ext mid req key a d'"
  by (simp add: answered_def stored_answer_def)

lemma stored_answer_answered:
  "stored_answer ext mid req key a d \<Longrightarrow> \<exists>r. answered (key, mid) r d"
  by (auto simp: answered_def stored_answer_def split: option.splits)

lemma persist_payment_stores:
  assumes "row_at i_pk (key, mid) (idempotency_records (tables w)) = Some rec" and "i_pk rec = (key, mid)"
    and "request_fingerprint rec = canonical_fingerprint ext (payment_request_dump req)"
    and "varchar 100 key" and "varchar 64 (request_fingerprint rec)"
  shows "wp (persist_payment ext mid req rec risk corr) (\<lambda>a w'. stored_answer ext mid req key a (tables w'))
           (\<lambda>_ _. True) w"
  unfolding persist_payment_def Let_def fresh_id_def now_def insert_payment_def complete_idempotency_def
  using assms
  by (auto simp: wp_simps stored_answer_def row_at_row_set i_pk_def split: option.split
      intro!: append_outbox_rule append_audit_rule)

lemma create_payment_stores:
  "wp (create_payment ext mid req key corr) (\<lambda>a w'. stored_answer ext mid req key a (tables w'))
     (\<lambda>_ _. True) w"
  unfolding create_payment_def Let_def
  by (clarsimp simp: wp_simps)
    (rule claim_idempotency_spec,
     auto simp: wp_simps row_at_append row_simps
       intro!: persist_payment_stores stored_answerI dest: row_at_SomeD split: option.split sum.split exn.split)

text \<open>A repeated request is answered from the record, and one with another payload is refused.\<close>

lemma create_payment_again:
  assumes "stored_answer ext mid req key a (tables w)"
    and "canonical_fingerprint ext (payment_request_dump req') = canonical_fingerprint ext (payment_request_dump req)"
  shows "wp (create_payment ext mid req' key corr)
    (\<lambda>b w'. b = a \<and> tables w' = tables w \<and> deferred w' = deferred w) (\<lambda>_ _. False) w"
  unfolding create_payment_def Let_def
  using assms
  by (clarsimp simp: wp_simps)
    (rule claim_idempotency_spec, auto simp: wp_simps stored_answer_def split: option.splits)

lemma create_payment_conflict:
  assumes "stored_answer ext mid req key a (tables w)"
    and "canonical_fingerprint ext (payment_request_dump req') \<noteq> canonical_fingerprint ext (payment_request_dump req)"
    and "varchar 64 (canonical_fingerprint ext (payment_request_dump req'))"
  shows "wp (create_payment ext mid req' key corr) (\<lambda>_ _. False)
    (\<lambda>e _. e = BusinessError ''IDEMPOTENCY_CONFLICT'' ''same idempotency key used with a different payload'') w"
  unfolding create_payment_def Let_def
  using assms
  by (clarsimp simp: wp_simps)
    (rule claim_idempotency_spec, auto simp: wp_simps stored_answer_def split: option.splits)

lemma stored_answer_run:
  assumes "stored_answer ext mid req key a (tables w)"
  shows "stored_answer ext mid req key a (tables (run ext' as w))"
proof -
  obtain r where r: "answered (key, mid) r (tables w)" using stored_answer_answered [OF assms] by blast
  then have "on_tables (answered (key, mid) r) w" by (simp add: on_tables_def)
  then have "on_tables (answered (key, mid) r) (run ext' as w)"
    unfolding run_def by (rule answers.machine.run_inv)
  then show ?thesis using assms stored_answer_cong [OF r] by (simp add: on_tables_def)
qed

lemma atomically_no_triggers:
  assumes "wp m (\<lambda>b w'. b = a \<and> tables w' = d \<and> deferred w' = []) (\<lambda>_ _. False) (w\<lparr>deferred := []\<rparr>)"
  shows "\<exists>w'. atomically m w = (Inr a, w') \<and> tables w' = d"
  using assms by (auto simp: wp_def atomically_def split: prod.splits sum.splits)

lemma atomically_stored:
  assumes "atomically (create_payment ext mid req key corr) w = (Inr a, w1)"
  shows "stored_answer ext mid req key a (tables w1)"
proof -
  obtain v where "create_payment ext mid req key corr (w\<lparr>deferred := []\<rparr>) = (Inr a, v)" "tables w1 = tables v"
    using assms by (auto simp: atomically_Inr)
  then show ?thesis using wp_result [OF create_payment_stores] by fastforce
qed

text \<open>
  C12: creating a payment is idempotent for ever: once a request was answered, the same request with
  the same key gets the same answer after any further requests and worker rounds, and changes no
  table.
\<close>

theorem idempotent_replay:
  assumes "atomically (create_payment ext mid req key corr) w = (Inr a, w1)"
  shows "fst (atomically (create_payment ext mid req key corr') (run ext as w1)) = Inr a \<and>
    tables (snd (atomically (create_payment ext mid req key corr') (run ext as w1))) = tables (run ext as w1)"
proof -
  have "stored_answer ext mid req key a (tables ((run ext as w1)\<lparr>deferred := []\<rparr>))"
    using stored_answer_run [OF atomically_stored [OF assms]] by simp
  from create_payment_again [OF this refl, of corr'] show ?thesis
    using atomically_no_triggers [of _ a "tables (run ext as w1)"] by fastforce
qed

lemma sample_create_ok:
  obtains w1 where "atomically (create_payment sample_ext 1 sample_request ''order-1'' 7) shop_world =
     (Inr (201, payment_response (new_payment 101 1 sample_request PENDING 102 103)), w1)"
  using sample_create by (metis prod.collapse)

lemma idempotent_replay_witness:
  "\<exists>w1. fst (atomically (create_payment sample_ext 1 sample_request ''order-1'' 8)
     (run sample_ext [Publish \<lparr>broker_up = True, accepts = (\<lambda>_. True)\<rparr>] w1)) =
   Inr (201, payment_response (new_payment 101 1 sample_request PENDING 102 103))"
  by (rule sample_create_ok) (use idempotent_replay in blast)

end
