(* ===== verification/Effects.thy ===== *)
theory Effects
  imports Idempotency
begin

text \<open>
  What the functions of \<open>service.py\<close> on payments do when they return, as relations between the tables
  before and after: the change of the payment row, the money that moved between balances, and the
  one event that was written to the outbox in the same transaction.
\<close>

section \<open>Vocabulary\<close>

definition put_payment :: "payment \<Rightarrow> payment list \<Rightarrow> payment list" where
  "put_payment q ps = map (\<lambda>r. if p_id r = p_id q then q else r) ps"

text \<open>The balance of one customer in one currency changed by \<open>n\<close>, no other balance changed.\<close>

definition moved :: "uuid \<Rightarrow> string \<Rightarrow> int \<Rightarrow> db \<Rightarrow> db \<Rightarrow> bool" where
  "moved owner cur n d d' \<longleftrightarrow>
     (\<forall>ow c. available_balance d' ow c = available_balance d ow c + (if ow = owner \<and> c = cur then n else 0))"

definition emitted ::
  "ext \<Rightarrow> event_type \<Rightarrow> uuid \<Rightarrow> (string \<times> json) list \<Rightarrow> uuid \<Rightarrow> db \<Rightarrow> db \<Rightarrow> bool" where
  "emitted ext etype pid payload corr d d' \<longleftrightarrow>
     (\<exists>row. outbox_events d' = outbox_events d @ [row] \<and>
        outbox_row_for ext etype pid ''payment'' payload corr row)"

definition journaled :: "string \<Rightarrow> uuid \<Rightarrow> db \<Rightarrow> db \<Rightarrow> bool" where
  "journaled rtype rid d d' \<longleftrightarrow> (\<exists>j. journals d' = journals d @ [j] \<and> j_reference j = (rtype, rid))"

lemma journaled_posting:
  "posts d rtype rid cur a b m j e f \<Longrightarrow> journals d' = journals d @ [j] \<Longrightarrow> journaled rtype rid d d'"
  by (simp add: journaled_def posts_def j_reference_def)

lemma row_set_put:
  assumes "distinct (map p_id ps)" and "row_at p_id k ps = Some p" and "p_id (f p) = k"
  shows "row_set p_id k f ps = put_payment (f p) ps"
proof -
  have "r = p" if "r \<in> set ps" "p_id r = k" for r
    using assms(1,2) that by (metis row_at_Some_iff option.inject)
  then show ?thesis using assms(3) by (auto simp: row_set_def put_payment_def)
qed

lemma books_distinct: "books_ok d \<Longrightarrow> distinct (map p_id (payments d))"
  by (simp add: books_ok_def)

lemma available_balance_payments [simp]:
  "available_balance (d\<lparr>payments := t\<rparr>) ow c = available_balance d ow c"
  "available_balance (d\<lparr>outbox_events := u\<rparr>) ow c = available_balance d ow c"
  "available_balance (d\<lparr>audit_logs := v\<rparr>) ow c = available_balance d ow c"
  "available_balance (d\<lparr>refunds := x\<rparr>) ow c = available_balance d ow c"
  by (simp_all add: available_balance_def cash_account_ids_def Let_def)

text \<open>A posting between two ledger accounts, one of them a customer's cash account.\<close>

lemma balance_posting:
  assumes "books_ok d" and "posts d rtype rid cur (la_id x) (la_id y) m j e f"
    and "x \<in> set (ledger_accounts d)" and "y \<in> set (ledger_accounts d)"
  shows "available_balance (posting j e f d) ow c = available_balance d ow c +
    (if la_key x = (ow, ''customer_cash'', c) then amount_minor m else 0) -
    (if la_key y = (ow, ''customer_cash'', c) then amount_minor m else 0)"
proof -
  have "distinct (map la_id (ledger_accounts d))" using assms(1) by (simp add: books_ok_def book_ok_def)
  then show ?thesis
    by (simp add: available_balance_eq balance_of_posting [OF assms(2)] in_cash_account_ids assms(3,4))
qed

section \<open>Capture\<close>

definition captured :: "payment \<Rightarrow> int \<Rightarrow> payment" where
  "captured p t = p\<lparr>p_status := status_value CAPTURED, captured_amount_minor := p_amount_minor p,
     p_updated_at := t\<rparr>"

definition capture_done :: "ext \<Rightarrow> uuid \<Rightarrow> uuid \<Rightarrow> uuid \<Rightarrow> db \<Rightarrow> json \<Rightarrow> db \<Rightarrow> bool" where
  "capture_done ext mid pid corr d body d' \<longleftrightarrow>
     (\<exists>p t. payment_for_update pid mid d = Some p \<and> p_status p = status_value AUTHORIZED \<and>
        p_amount_minor p \<le> available_balance d (p_customer_id p) (p_currency p) \<and>
        body = payment_response (captured p t) \<and> payments d' = put_payment (captured p t) (payments d) \<and>
        moved (p_customer_id p) (p_currency p) (- p_amount_minor p) d d' \<and>
        emitted ext PAYMENT_CAPTURED pid (payment_event_payload p) corr d d' \<and>
        journaled ''payment_capture'' pid d d' \<and> refunds d' = refunds d)"

lemma capture_doneI:
  assumes ok: "books_ok d"
    and post: "posts (d\<lparr>ledger_accounts := las\<rparr>) ''payment_capture'' (p_id p) jc (la_id x) (la_id y) m j e f"
    and p: "payment_for_update pid mid d = Some p" and t: "check_transition p CAPTURED = Inr s"
    and cust: "row_at c_id (p_customer_id p) cs = Some c"
    and bal: "\<not> available_balance d (c_id c) cur < p_amount_minor p" "p_currency p = cur"
    and las: "books_ok (d\<lparr>ledger_accounts := las\<rparr>)"
      "\<And>ow c. available_balance (d\<lparr>ledger_accounts := las\<rparr>) ow c = available_balance d ow c"
    and xy: "x \<in> set las" "y \<in> set las" "la_key x = (mid, ''merchant_receivable'', cur)"
      "la_key y = (c_id c, ''customer_cash'', cur)"
    and m: "amount_minor m = p_amount_minor p"
    and row: "outbox_row_for ext PAYMENT_CAPTURED (p_id p) ''payment'' (payment_event_payload p) corr row"
    and d': "d' = (posting j e f (d\<lparr>ledger_accounts := las\<rparr>))\<lparr>
      payments := row_set p_id (p_id p) (\<lambda>p. p\<lparr>p_status := status_value CAPTURED,
        captured_amount_minor := p_amount_minor p, p_updated_at := u\<rparr>) (payments d),
      outbox_events := outbox_events d @ [row], audit_logs := au\<rparr>"
    and body: "body = payment_response (p\<lparr>p_status := status_value CAPTURED,
        captured_amount_minor := p_amount_minor p, p_updated_at := u\<rparr>)"
  shows "capture_done ext mid pid corr d body d'"
proof -
  obtain st where st: "p_status p = status_value st" "CAPTURED \<in> set (allowed st)"
    using t by (auto simp: check_transition_Inr)
  then have "st = AUTHORIZED" by (cases st) auto
  moreover have "c_id c = p_customer_id p" using row_at_SomeD [OF cust] by simp
  moreover have "row_set p_id (p_id p) (\<lambda>p. p\<lparr>p_status := status_value CAPTURED,
      captured_amount_minor := p_amount_minor p, p_updated_at := u\<rparr>) (payments d) = put_payment (captured p u) (payments d)"
    unfolding captured_def using books_distinct [OF ok] payment_row [OF ok p] by (rule row_set_put) simp
  moreover have "available_balance d' ow k = available_balance d ow k +
      (if ow = c_id c \<and> k = cur then - p_amount_minor p else 0)" for ow k
    using balance_posting [OF las(1) post, of ow k] xy las(2) m by (auto simp: d')
  moreover have "journaled ''payment_capture'' (p_id p) d d'"
    using journaled_posting [OF post, of d'] by (simp add: d' journaled_def)
  ultimately show ?thesis
    using p st(1) bal row payment_for_update_SomeD [OF p]
    by (auto simp: capture_done_def captured_def body d' moved_def emitted_def intro!: exI [of _ p] exI [of _ u])
qed

lemma capture_payment_effect:
  assumes ok: "books_ok (tables w)"
  shows "wp (capture_payment ext mid pid corr) (\<lambda>body w'. capture_done ext mid pid corr (tables w) body (tables w'))
    (\<lambda>_ _. True) w"
  unfolding capture_payment_def Let_def now_def
  apply (clarsimp simp: wp_simps split: option.split sum.split)
  apply (rule ensure_ledger_account_books [OF ok])
  apply (clarsimp simp: wp_simps)
  apply (rule ensure_ledger_account_books, simp)
  apply (clarsimp simp: wp_simps Money_def line_builders Currency_Inr split: sum.split)
  apply (rule create_journal_ruleE)
   apply (rule create_journal_rule, rule refl, simp, simp)
   apply (clarsimp simp: wp_simps update_payment_def payment_row [OF ok, of pid mid] audit_payment_def)
   apply (rule append_outbox_rule)
   apply (clarsimp simp: wp_simps)
   apply (rule append_audit_rule)
   apply (clarsimp simp: wp_simps)
   apply (rule capture_doneI [OF ok], assumption, assumption, assumption, assumption, assumption, assumption)
           apply (assumption | simp | blast)+
  apply (simp add: wp_raise)
  done

section \<open>Refund\<close>

definition refunded :: "payment \<Rightarrow> int \<Rightarrow> payment" where
  "refunded p n = p\<lparr>refunded_amount_minor := refunded_amount_minor p + n,
     p_status := status_value (refund_status (refunded_amount_minor p + n) (captured_amount_minor p))\<rparr>"

definition refund_done :: "ext \<Rightarrow> uuid \<Rightarrow> uuid \<Rightarrow> int \<Rightarrow> uuid \<Rightarrow> db \<Rightarrow> json \<Rightarrow> db \<Rightarrow> bool" where
  "refund_done ext mid pid n corr d body d' \<longleftrightarrow>
     (\<exists>p r st. payment_for_update pid mid d = Some p \<and> p_status p = status_value st \<and> refundable st \<and>
        0 < n \<and> n \<le> captured_amount_minor p - refunded_amount_minor p \<and>
        body = payment_response (refunded p n) \<and> payments d' = put_payment (refunded p n) (payments d) \<and>
        refunds d' = refunds d @ [r] \<and> r_payment_id r = pid \<and> r_amount_minor r = n \<and>
        moved (p_customer_id p) (p_currency p) n d d' \<and> journaled ''payment_refund'' (r_id r) d d' \<and>
        emitted ext PAYMENT_REFUNDED pid [(''payment_id'', JStr (uuid_str pid)),
          (''refund_id'', JStr (uuid_str (r_id r))), (''amount_minor'', JInt n)] corr d d')"

lemma refund_doneI:
  assumes ok: "books_ok d"
    and post: "posts (d\<lparr>ledger_accounts := las, refunds := refunds d @ [r]\<rparr>) ''payment_refund'' i jc (la_id x) (la_id y) m j e f"
    and p: "payment_for_update pid mid d = Some p" and st: "p_status p = status_value st" "refundable st"
    and cust: "row_at c_id (p_customer_id p) cs = Some c"
    and n: "\<not> captured_amount_minor p - refunded_amount_minor p < n" "0 < n" and cur: "p_currency p = cur"
    and las: "books_ok (d\<lparr>ledger_accounts := las\<rparr>)"
      "\<And>ow c. available_balance (d\<lparr>ledger_accounts := las\<rparr>) ow c = available_balance d ow c"
    and xy: "x \<in> set las" "y \<in> set las" "la_key x = (c_id c, ''customer_cash'', cur)"
      "la_key y = (mid, ''merchant_receivable'', cur)"
    and m: "amount_minor m = n" and r: "r_payment_id r = p_id p" "r_amount_minor r = n" "r_id r = i"
    and row: "outbox_row_for ext PAYMENT_REFUNDED (p_id p) ''payment'' [(''payment_id'', JStr (uuid_str (p_id p))),
          (''refund_id'', JStr (uuid_str i)), (''amount_minor'', JInt n)] corr row"
    and d': "d' = (posting j e f (d\<lparr>ledger_accounts := las, refunds := refunds d @ [r]\<rparr>))\<lparr>
      payments := row_set p_id (p_id p) (\<lambda>q. q\<lparr>refunded_amount_minor := refunded_amount_minor p + n,
        p_status := status_value (refund_status (refunded_amount_minor p + n) (captured_amount_minor p))\<rparr>) (payments d),
      outbox_events := outbox_events d @ [row]\<rparr>"
    and body: "body = payment_response (p\<lparr>refunded_amount_minor := refunded_amount_minor p + n,
        p_status := status_value (refund_status (refunded_amount_minor p + n) (captured_amount_minor p))\<rparr>)"
  shows "refund_done ext mid pid n corr d body d'"
proof -
  have c: "c_id c = p_customer_id p" using row_at_SomeD [OF cust] by simp
  have pay: "row_set p_id (p_id p) (\<lambda>q. q\<lparr>refunded_amount_minor := refunded_amount_minor p + n,
        p_status := status_value (refund_status (refunded_amount_minor p + n) (captured_amount_minor p))\<rparr>) (payments d)
      = put_payment (refunded p n) (payments d)"
    unfolding refunded_def using books_distinct [OF ok] payment_row [OF ok p] by (rule row_set_put) simp
  let ?d = "d\<lparr>ledger_accounts := las\<rparr>"
  have "distinct (map la_id (ledger_accounts ?d))" using las(1) by (simp add: books_ok_def book_ok_def)
  then have "available_balance (posting j e f (?d\<lparr>refunds := refunds d @ [r]\<rparr>)) ow k = available_balance d ow k +
      (if ow = c_id c \<and> k = cur then n else 0)" for ow k
    using xy las(2) m
    by (auto simp: available_balance_eq balance_of_posting [OF post] in_cash_account_ids)
      (auto simp: available_balance_eq [symmetric])
  then have "moved (p_customer_id p) (p_currency p) n d d'"
    using c cur by (simp add: moved_def d')
  moreover have "journaled ''payment_refund'' i d d'"
    using journaled_posting [OF post, of d'] by (simp add: d' journaled_def)
  ultimately show ?thesis
    using p st n row r payment_for_update_SomeD [OF p] pay
    by (auto simp: refund_done_def refunded_def body d' emitted_def intro!: exI [of _ p] exI [of _ r])
qed

lemma refund_payment_effect:
  assumes ok: "books_ok (tables w)"
  shows "wp (refund_payment ext mid pid req corr)
    (\<lambda>body w'. refund_done ext mid pid (rr_amount_minor req) corr (tables w) body (tables w')) (\<lambda>_ _. True) w"
  unfolding refund_payment_def Let_def now_def fresh_id_def
  apply (clarsimp simp: wp_simps PaymentStatus_Inr split: option.split sum.split)
  apply (rule ensure_ledger_account_books [OF ok])
  apply (clarsimp simp: wp_simps)
  apply (rule ensure_ledger_account_books, simp)
  apply (clarsimp simp: wp_simps insert_refund_def Money_def line_builders Currency_Inr split: sum.split)
  apply (rule create_journal_rule, rule refl, simp, simp)
  apply (clarsimp simp: wp_simps update_payment_def payment_row [OF ok, of pid mid])
  apply (rule append_outbox_rule)
  apply (clarsimp simp: wp_simps)
  apply (rule refund_doneI [OF ok], simp, assumption, assumption, assumption, assumption, assumption, assumption)
                apply (assumption | simp | blast)+
  done

section \<open>Authorisation and cancellation\<close>

definition with_payment_status :: "payment_status \<Rightarrow> int option \<Rightarrow> payment \<Rightarrow> payment" where
  "with_payment_status st t p =
     (case t of None \<Rightarrow> p\<lparr>p_status := status_value st\<rparr>
      | Some u \<Rightarrow> p\<lparr>p_status := status_value st, p_updated_at := u\<rparr>)"

text \<open>
  The committed outcome of an authorisation: with enough balance the payment is authorised, without
  it the payment has failed; either way with its event, and no money has moved.
\<close>

definition authorize_done :: "ext \<Rightarrow> uuid \<Rightarrow> uuid \<Rightarrow> uuid \<Rightarrow> db \<Rightarrow> exn + json \<Rightarrow> db \<Rightarrow> bool" where
  "authorize_done ext mid pid corr d r d' \<longleftrightarrow>
     (\<exists>p t. payment_for_update pid mid d = Some p \<and> p_status p = status_value PENDING \<and>
        moved (p_customer_id p) (p_currency p) 0 d d' \<and> refunds d' = refunds d \<and>
        (if p_amount_minor p \<le> available_balance d (p_customer_id p) (p_currency p)
         then r = Inr (payment_response (with_payment_status AUTHORIZED (Some t) p)) \<and>
           payments d' = put_payment (with_payment_status AUTHORIZED (Some t) p) (payments d) \<and>
           emitted ext PAYMENT_AUTHORIZED pid (payment_event_payload p) corr d d'
         else r = Inl (PersistedBusinessError ''INSUFFICIENT_FUNDS'' ''Available balance is insufficient.'') \<and>
           payments d' = put_payment (with_payment_status FAILED None p) (payments d) \<and>
           emitted ext PAYMENT_FAILED pid [(''payment_id'', JStr (uuid_str pid)),
             (''reason'', JStr ''INSUFFICIENT_FUNDS'')] corr d d'))"

lemma moved_0: "(\<And>ow c. available_balance d' ow c = available_balance d ow c) \<Longrightarrow> moved owner cur 0 d d'"
  by (simp add: moved_def)

lemma check_authorize: "check_transition p AUTHORIZED = Inr s \<Longrightarrow> p_status p = status_value PENDING"
proof -
  assume "check_transition p AUTHORIZED = Inr s"
  then obtain st where "p_status p = status_value st" "AUTHORIZED \<in> set (allowed st)"
    by (auto simp: check_transition_Inr)
  then show ?thesis by (cases st) auto
qed

lemma check_transition_not_persisted: "check_transition p t \<noteq> Inl (PersistedBusinessError a b)"
  by (auto simp: check_transition_def PaymentStatus_def bind_sum_def split: option.splits sum.splits)

lemma authorize_doneI:
  assumes ok: "books_ok d" and p: "payment_for_update pid mid d = Some p"
    and t: "check_transition p AUTHORIZED = Inr s"
    and cust: "row_at c_id (p_customer_id p) cs = Some c"
  shows "\<not> available_balance d (c_id c) (p_currency p) < p_amount_minor p \<Longrightarrow>
      outbox_row_for ext PAYMENT_AUTHORIZED (p_id p) ''payment'' (payment_event_payload p) corr row \<Longrightarrow>
      authorize_done ext mid pid corr d
        (Inr (payment_response (p\<lparr>p_status := status_value AUTHORIZED, p_updated_at := u\<rparr>)))
        (d\<lparr>payments := row_set p_id (p_id p) (\<lambda>p. p\<lparr>p_status := status_value AUTHORIZED, p_updated_at := u\<rparr>) (payments d),
           outbox_events := outbox_events d @ [row], audit_logs := au\<rparr>)"
    and "available_balance d (c_id c) (p_currency p) < p_amount_minor p \<Longrightarrow>
      outbox_row_for ext PAYMENT_FAILED (p_id p) ''payment'' [(''payment_id'', JStr (uuid_str (p_id p))),
        (''reason'', JStr ''INSUFFICIENT_FUNDS'')] corr row \<Longrightarrow>
      authorize_done ext mid pid corr d
        (Inl (PersistedBusinessError ''INSUFFICIENT_FUNDS'' ''Available balance is insufficient.''))
        (d\<lparr>payments := row_set p_id (p_id p) (\<lambda>p. p\<lparr>p_status := status_value FAILED\<rparr>) (payments d),
           outbox_events := outbox_events d @ [row]\<rparr>)"
  using row_at_SomeD [OF cust] payment_for_update_SomeD [OF p] p check_authorize [OF t]
    row_set_put [OF books_distinct [OF ok] payment_row [OF ok p],
      where f = "\<lambda>p. p\<lparr>p_status := status_value AUTHORIZED, p_updated_at := u\<rparr>"]
    row_set_put [OF books_distinct [OF ok] payment_row [OF ok p],
      where f = "\<lambda>p. p\<lparr>p_status := status_value FAILED\<rparr>"]
  by (auto simp: authorize_done_def with_payment_status_def emitted_def intro!: exI [of _ p] exI [of _ u] moved_0)

lemma authorize_block_effect:
  assumes ok: "books_ok (tables w)"
  shows "wp (authorize_block ext mid pid corr) (\<lambda>r w'. authorize_done ext mid pid corr (tables w) r (tables w'))
    (\<lambda>_ _. True) w"
  unfolding authorize_block_def authorize_payment_def Let_def now_def update_payment_def audit_payment_def
  by (auto simp: wp_simps payment_row [OF ok, of pid mid] append_audit_def fresh_id_def now_def insert_audit_def
      payment_not_found_def customer_not_found_def check_transition_not_persisted
      split: option.split sum.split exn.split intro!: append_outbox_ruleE authorize_doneI [OF ok])

definition cancel_done :: "ext \<Rightarrow> uuid \<Rightarrow> uuid \<Rightarrow> uuid \<Rightarrow> db \<Rightarrow> json \<Rightarrow> db \<Rightarrow> bool" where
  "cancel_done ext mid pid corr d body d' \<longleftrightarrow>
     (\<exists>p t st. payment_for_update pid mid d = Some p \<and> p_status p = status_value st \<and>
        st \<in> {CREATED, PENDING, AUTHORIZED} \<and> body = payment_response (with_payment_status CANCELLED (Some t) p) \<and>
        payments d' = put_payment (with_payment_status CANCELLED (Some t) p) (payments d) \<and>
        moved (p_customer_id p) (p_currency p) 0 d d' \<and> refunds d' = refunds d \<and>
        emitted ext PAYMENT_CANCELLED pid [] corr d d')"

lemma cancel_doneI:
  assumes ok: "books_ok d" and p: "payment_for_update pid mid d = Some p"
    and t: "check_transition p CANCELLED = Inr s"
    and row: "outbox_row_for ext PAYMENT_CANCELLED (p_id p) ''payment'' [] corr row"
  shows "cancel_done ext mid pid corr d (payment_response (p\<lparr>p_status := status_value CANCELLED, p_updated_at := u\<rparr>))
    (d\<lparr>payments := row_set p_id (p_id p) (\<lambda>p. p\<lparr>p_status := status_value CANCELLED, p_updated_at := u\<rparr>) (payments d),
       outbox_events := outbox_events d @ [row]\<rparr>)"
proof -
  obtain st where st: "p_status p = status_value st" "CANCELLED \<in> set (allowed st)"
    using t by (auto simp: check_transition_Inr)
  then have "st \<in> {CREATED, PENDING, AUTHORIZED}" by (cases st) auto
  then show ?thesis
    using p st(1) payment_for_update_SomeD [OF p] row
      row_set_put [OF books_distinct [OF ok] payment_row [OF ok p],
        where f = "\<lambda>p. p\<lparr>p_status := status_value CANCELLED, p_updated_at := u\<rparr>"]
    by (auto simp: cancel_done_def with_payment_status_def emitted_def
        intro!: exI [of _ p] exI [of _ u] exI [of _ st] moved_0)
qed

lemma cancel_payment_effect:
  assumes ok: "books_ok (tables w)"
  shows "wp (cancel_payment ext mid pid corr) (\<lambda>body w'. cancel_done ext mid pid corr (tables w) body (tables w'))
    (\<lambda>_ _. True) w"
  unfolding cancel_payment_def Let_def now_def update_payment_def
  by (auto simp: wp_simps payment_row [OF ok, of pid mid] split: option.split sum.split
      intro!: append_outbox_rule cancel_doneI [OF ok])

section \<open>Funding\<close>

definition fund_done :: "uuid \<Rightarrow> uuid \<Rightarrow> fund_request \<Rightarrow> db \<Rightarrow> db \<Rightarrow> bool" where
  "fund_done mid aid req d d' \<longleftrightarrow>
     (\<exists>a c. row_at a_id aid (accounts d) = Some a \<and> row_at c_id (a_customer_id a) (customers d) = Some c \<and>
        c_merchant_id c = mid \<and> a_currency a = currency_value (fr_currency req) \<and>
        moved (a_customer_id a) (a_currency a) (fr_amount_minor req) d d' \<and>
        journaled ''account_funding'' aid d d' \<and> payments d' = payments d)"

lemma fund_doneI:
  assumes post: "posts (d\<lparr>ledger_accounts := las\<rparr>) ''account_funding'' (a_id a) jc (la_id x) (la_id y) m j e f"
    and a: "row_at a_id aid (accounts d) = Some a" and c: "row_at c_id (a_customer_id a) (customers d) = Some c"
    and own: "\<not> not_owned c_merchant_id (Some c) mid" "a_currency a = currency_value (fr_currency req)"
    and las: "books_ok (d\<lparr>ledger_accounts := las\<rparr>)"
      "\<And>ow c. available_balance (d\<lparr>ledger_accounts := las\<rparr>) ow c = available_balance d ow c"
    and xy: "x \<in> set las" "y \<in> set las" "la_key x = (a_customer_id a, ''customer_cash'', a_currency a)"
      "la_key y = (mid, ''simulated_provider_funding'', a_currency a)"
    and m: "amount_minor m = fr_amount_minor req"
    and d': "d' = (posting j e f (d\<lparr>ledger_accounts := las\<rparr>))\<lparr>audit_logs := au\<rparr>"
  shows "fund_done mid aid req d d'"
proof -
  have "available_balance d' ow k = available_balance d ow k +
      (if ow = a_customer_id a \<and> k = a_currency a then fr_amount_minor req else 0)" for ow k
    using balance_posting [OF las(1) post, of ow k] xy las(2) m by (auto simp: d')
  moreover have "journaled ''account_funding'' (a_id a) d d'"
    using journaled_posting [OF post, of d'] by (simp add: d' journaled_def)
  ultimately show ?thesis
    using a c own row_at_SomeD [OF a] by (auto simp: fund_done_def moved_def d' not_owned_def)
qed

lemma fund_account_effect:
  assumes "books_ok (tables w)"
  shows "wp (fund_account ext mid aid req corr) (\<lambda>_ w'. fund_done mid aid req (tables w) (tables w')) (\<lambda>_ _. True) w"
  unfolding fund_account_def
  apply (clarsimp simp: wp_simps split: option.split)
  apply (rule ensure_ledger_account_books [OF assms])
  apply (clarsimp simp: wp_simps)
  apply (rule ensure_ledger_account_books, simp)
  apply (clarsimp simp: wp_simps Money_def line_builders)
  apply (rule create_journal_rule, rule refl, simp, simp)
  apply (clarsimp simp: wp_simps)
  apply (rule append_audit_rule)
  apply (clarsimp simp: wp_simps)
  apply (rule fund_doneI, simp)
           apply (assumption | simp | blast)+
  done

section \<open>Creation\<close>

text \<open>The status of a new payment is the one the risk engine decides for it.\<close>

definition assessed :: "uuid \<Rightarrow> payment_request \<Rightarrow> db \<Rightarrow> risk_result \<Rightarrow> payment_status \<Rightarrow> bool" where
  "assessed mid req d risk st \<longleftrightarrow>
     (\<exists>m. row_at m_id mid (merchants d) = Some m \<and>
        evaluate_risk (pr_amount_minor req) (currency_value (pr_currency req)) (m_risk_level m) 0 False = Inr risk \<and>
        st = (if decision risk \<noteq> REJECT then PENDING else FAILED))"

lemma assessedI:
  assumes "row_at m_id mid (merchants d) = Some m"
    and "evaluate_risk (pr_amount_minor req) (currency_value (pr_currency req)) (m_risk_level m) 0 False = Inr risk"
  shows "decision risk \<noteq> REJECT \<Longrightarrow> assessed mid req d risk PENDING" "decision risk = REJECT \<Longrightarrow> assessed mid req d risk FAILED"
  using assms by (auto simp: assessed_def)

definition create_done :: "ext \<Rightarrow> uuid \<Rightarrow> payment_request \<Rightarrow> string \<Rightarrow> uuid \<Rightarrow> db \<Rightarrow> int \<times> json \<Rightarrow> db \<Rightarrow> bool" where
  "create_done ext mid req key corr d a d' \<longleftrightarrow>
     stored_answer ext mid req key a d \<and> d' = d \<or>
     (\<exists>i st t t' risk. fst a = 201 \<and> st \<in> {PENDING, FAILED} \<and> assessed mid req d risk st \<and> i \<notin> p_id ` set (payments d) \<and>
        payments d' = payments d @ [new_payment i mid req st t t'] \<and>
        snd a = payment_response (new_payment i mid req st t t') \<and>
        (\<exists>c. row_at c_id (pr_customer_id req) (customers d) = Some c \<and> c_merchant_id c = mid) \<and>
        emitted ext (if st = PENDING then PAYMENT_CREATED else PAYMENT_FAILED) i
          [(''payment_id'', JStr (uuid_str i)), (''status'', JStr (status_value st)), (''risk'', risk_dump risk)] corr d d')"

lemma create_doneI:
  assumes "payment_integrity_ok d (new_payment i mid req st t t')" and "st = PENDING \<or> st = FAILED"
    and "assessed mid req d risk st"
    and "row_at c_id (pr_customer_id req) (customers d) = Some c" and "c_merchant_id c = mid"
    and "outbox_row_for ext (if st = PENDING then PAYMENT_CREATED else PAYMENT_FAILED) i ''payment''
      [(''payment_id'', JStr (uuid_str i)), (''status'', JStr (status_value st)), (''risk'', risk_dump risk)] corr row"
    and "payments d' = payments d @ [new_payment i mid req st t t']" and "outbox_events d' = outbox_events d @ [row]"
  shows "create_done ext mid req key corr d (201, payment_response (new_payment i mid req st t t')) d'"
  unfolding create_done_def
  by (rule disjI2, rule exI [of _ i], rule exI [of _ st], rule exI [of _ t], rule exI [of _ t'], rule exI [of _ risk])
    (use assms in \<open>auto simp: payment_integrity_ok_def new_payment_def emitted_def\<close>)

lemma persist_payment_effect:
  assumes "payments (tables w) = payments d" and "merchants (tables w) = merchants d"
    and "customers (tables w) = customers d" and "outbox_events (tables w) = outbox_events d"
    and "row_at c_id (pr_customer_id req) (customers d) = Some c" and "c_merchant_id c = mid"
    and risk: "assessed mid req d risk (if decision risk \<noteq> REJECT then PENDING else FAILED)"
  shows "wp (persist_payment ext mid req rec risk corr)
    (\<lambda>a w'. create_done ext mid req key corr d a (tables w')) (\<lambda>_ _. True) w"
proof -
  have same: "payment_integrity_ok (tables w) p = payment_integrity_ok d p" for p
    using assms by (simp add: payment_integrity_ok_def)
  show ?thesis
    unfolding persist_payment_def Let_def fresh_id_def now_def insert_payment_def complete_idempotency_def
    using risk
    by (auto simp: wp_simps same assms(1-6) split: option.split if_splits intro!: append_outbox_rule append_audit_rule create_doneI)
      (auto simp: new_payment_def assms(1-6))
qed

lemma create_payment_effect:
  "wp (create_payment ext mid req key corr) (\<lambda>a w'. create_done ext mid req key corr (tables w) a (tables w'))
    (\<lambda>_ _. True) w"
  unfolding create_payment_def Let_def
  by (clarsimp simp: wp_simps)
    (rule claim_idempotency_spec,
     auto simp: wp_simps create_done_def [of _ _ _ _ _ _ _ "tables w"] intro!: stored_answerI persist_payment_effect assessedI
       split: option.split sum.split exn.split)

section \<open>Committed effects\<close>

lemma atomically_effect:
  assumes "wp m (\<lambda>a v. Q a (tables v)) (\<lambda>_ _. True) (w\<lparr>deferred := []\<rparr>)" and "atomically m w = (Inr a, w')"
  shows "Q a (tables w')"
proof -
  obtain v where v: "m (w\<lparr>deferred := []\<rparr>) = (Inr a, v)" "tables w' = tables v"
    using assms(2) by (auto simp: atomically_Inr)
  then show ?thesis using wp_result [OF assms(1) v(1)] by simp
qed

text \<open>
  A committed capture.  The payment was authorised and covered by the customer's balance; now it
  is captured in full, exactly its amount left the customer's balance, one capture journal was
  posted for it, and exactly one event, \<open>payment.captured\<close>, was written to the outbox.
\<close>

theorem capture_effect:
  assumes "books_ok (tables w)" and "atomically (capture_payment ext mid pid corr) w = (Inr body, w')"
  shows "capture_done ext mid pid corr (tables w) body (tables w')"
  using atomically_effect [OF capture_payment_effect assms(2)] assms(1) by simp

lemma capture_effect_witness:
  "\<exists>body (w' :: world). capture_done sample_ext 1 20 7 (tables shop_world) body (tables w')"
  by (rule exE [OF ran [OF sample_capture]]) (rule exI, rule exI, erule capture_effect [OF shop_books_ok])

text \<open>
  A committed refund.  The payment was captured and not refunded beyond its captured amount;
  its refunded amount and its status follow, one refund row and one refund journal were written,
  exactly the amount came back to the customer's balance, and one event was written.
\<close>

theorem refund_effect:
  assumes "books_ok (tables w)" and "atomically (refund_payment ext mid pid req corr) w = (Inr body, w')"
  shows "refund_done ext mid pid (rr_amount_minor req) corr (tables w) body (tables w')"
  using atomically_effect [OF refund_payment_effect assms(2)] assms(1) by simp

lemma refund_effect_witness:
  "\<exists>body (w' :: world). refund_done sample_ext 1 20 150 7 (tables captured_world) body (tables w')"
  by (rule exE [OF ran [OF sample_refund]])
    (rule exI, rule exI, drule refund_effect [OF captured_books_ok], simp)

text \<open>
  A committed authorisation, with both outcomes: a covered payment is authorised, an uncovered
  one has failed although the request is answered with an error.  No money moves, one event tells.
\<close>

theorem authorize_effect:
  assumes "books_ok (tables w)" and "atomically (authorize_block ext mid pid corr) w = (Inr r, w')"
  shows "authorize_done ext mid pid corr (tables w) r (tables w')"
  using atomically_effect [OF authorize_block_effect assms(2)] assms(1) by simp

lemma authorize_effect_witness:
  "\<exists>w' :: world. authorize_done sample_ext 1 21 7 (tables shop_world)
     (Inl (PersistedBusinessError ''INSUFFICIENT_FUNDS'' ''Available balance is insufficient.'')) (tables w')"
  by (rule exE [OF ran [OF sample_authorize]]) (rule exI, erule authorize_effect [OF shop_books_ok])

text \<open>
  Committed funding: exactly the amount was added to the balance of the account's customer, in
  the account's currency, by one funding journal, for an account of this merchant.
\<close>

theorem fund_effect:
  assumes "books_ok (tables w)" and "atomically (fund_account ext mid aid req corr) w = (Inr body, w')"
  shows "fund_done mid aid req (tables w) (tables w')"
  using atomically_effect [OF fund_account_effect assms(2)] assms(1) by simp

lemma fund_effect_witness:
  "\<exists>w' :: world. fund_done 1 4 \<lparr>fr_amount_minor = 1000, fr_currency = EUR\<rparr> (tables unfunded_world) (tables w')"
  by (rule exE [OF ran [OF sample_fund]]) (rule exI, erule fund_effect [OF unfunded_books_ok])

text \<open>
  A committed creation answers from the idempotency record and changes nothing, or it adds one
  payment of a customer of the merchant, under a fresh id, with exactly the requested amount, nothing captured, one event, status 201.
\<close>

theorem create_effect:
  assumes "atomically (create_payment ext mid req key corr) w = (Inr a, w')"
  shows "create_done ext mid req key corr (tables w) a (tables w')"
  using atomically_effect [OF create_payment_effect assms] by simp

lemma create_effect_witness:
  "\<exists>a (w' :: world). create_done sample_ext 1 sample_request ''order-1'' 7 (tables shop_world) a (tables w')"
  by (rule exE [OF ran [OF sample_create]]) (rule exI, rule exI, erule create_effect)

end
