(* ===== verification/History.thy ===== *)
theory History
  imports Effects "HOL-Library.Sublist"
begin

text \<open>
  What no later request or worker round can undo: the history of a payment, the funding of an
  account, the claim of a processed event and the audit log.
\<close>

section \<open>The history of a payment\<close>

text \<open>\<open>q\<close> is a later version of the payment \<open>p\<close>.\<close>

definition advances :: "payment \<Rightarrow> payment \<Rightarrow> bool" where
  "advances p q \<longleftrightarrow>
     p_id q = p_id p \<and> p_merchant_id q = p_merchant_id p \<and> p_customer_id q = p_customer_id p \<and>
     p_amount_minor q = p_amount_minor p \<and> p_currency q = p_currency p \<and>
     p_created_at q = p_created_at p \<and> captured_amount_minor p \<le> captured_amount_minor q \<and>
     refunded_amount_minor p \<le> refunded_amount_minor q \<and>
     (case (status_of (p_status p), status_of (p_status q)) of
        (Some s, Some t) \<Rightarrow> s \<le> t | _ \<Rightarrow> p_status q = p_status p)"

lemma advances_refl: "advances p p"
  by (simp add: advances_def split: option.split)

lemma advances_trans: "advances p q \<Longrightarrow> advances q r \<Longrightarrow> advances p r"
  by (auto simp: advances_def split: option.splits)

lemma advances_status:
  "p_status p = status_value s \<Longrightarrow> s \<le> t \<Longrightarrow>
     advances p (with_payment_status t u p)"
  by (simp add: advances_def with_payment_status_def split: option.split)

lemma advances_captured:
  assumes "payment_ok p" and "p_status p = status_value AUTHORIZED"
  shows "advances p (captured p u)"
  using payment_ok_uncaptured [OF assms, of CAPTURED] assms(2)
  by (simp add: advances_def captured_def allowed_le)

lemma advances_refunded:
  assumes "p_status p = status_value st" and "refundable st" and "0 < n"
  shows "advances p (refunded p n)"
proof -
  have "st \<le> refund_status r c" for r c
    using assms(2) by (auto simp: refundable_def refund_status_def allowed_le)
  then show ?thesis using assms(1,3) by (simp add: advances_def refunded_def)
qed

definition keeps_payments :: "payment list \<Rightarrow> payment list \<Rightarrow> bool" where
  "keeps_payments ps qs \<longleftrightarrow> list_all (\<lambda>p. list_ex (advances p) qs) ps"

lemma keeps_payments_put:
  assumes "keeps_payments ps qs" and "distinct (map p_id qs)" and "q \<in> set qs" and "advances q q'"
  shows "keeps_payments ps (put_payment q' qs)"
  unfolding keeps_payments_def list_all_iff list_ex_iff
proof
  fix p assume "p \<in> set ps"
  then obtain x where x: "x \<in> set qs" "advances p x"
    using assms(1) by (auto simp: keeps_payments_def list_all_iff list_ex_iff)
  have id: "p_id q' = p_id q" using assms(4) by (simp add: advances_def)
  show "\<exists>y \<in> set (put_payment q' qs). advances p y"
  proof (cases "p_id x = p_id q")
    case True
    then have "x = q" using assms(2,3) x(1) by (auto simp: distinct_map dest: inj_onD)
    then have "advances p q'" using x(2) assms(4) advances_trans by blast
    then show ?thesis using x(1) True id by (auto simp: put_payment_def)
  next
    case False
    then show ?thesis using x id by (force simp: put_payment_def)
  qed
qed

lemma keeps_payments_append: "keeps_payments ps qs \<Longrightarrow> keeps_payments ps (qs @ rs)"
  by (auto simp: keeps_payments_def list_all_iff)

lemma keeps_payments_refl: "keeps_payments ps ps"
  by (auto simp: keeps_payments_def list_all_iff list_ex_iff intro: advances_refl)

definition payments_kept :: "payment list \<Rightarrow> db \<Rightarrow> bool" where
  "payments_kept ps d \<longleftrightarrow> books_ok d \<and> keeps_payments ps (payments d)"

lemma payments_kept_put:
  assumes "payments_kept ps d" and "payment_for_update pid mid d = Some p"
    and "payments d' = put_payment q (payments d)" and "advances p q"
  shows "keeps_payments ps (payments d')"
  using assms payment_for_update_SomeD [OF assms(2)]
  by (auto simp: payments_kept_def intro: keeps_payments_put books_distinct)

lemma payments_kept_effects:
  assumes "payments_kept ps d"
  shows "create_done ext mid req key corr d a d' \<Longrightarrow> keeps_payments ps (payments d')"
    and "authorize_done ext mid pid corr d r d' \<Longrightarrow> keeps_payments ps (payments d')"
    and "capture_done ext mid pid corr d body d' \<Longrightarrow> keeps_payments ps (payments d')"
    and "cancel_done ext mid pid corr d body d' \<Longrightarrow> keeps_payments ps (payments d')"
    and "refund_done ext mid pid n corr d body d' \<Longrightarrow> keeps_payments ps (payments d')"
proof -
  have ok: "payment_ok p" if "payment_for_update pid mid d = Some p" for p
    using assms payment_for_update_SomeD [OF that] by (auto simp: payments_kept_def books_ok_def)
  show "create_done ext mid req key corr d a d' \<Longrightarrow> keeps_payments ps (payments d')"
    using assms by (auto simp: create_done_def payments_kept_def keeps_payments_append)
  note put = payments_kept_put [OF assms]
  show "keeps_payments ps (payments d')" if eff: "authorize_done ext mid pid corr d r d'"
  proof -
    obtain p q where "payment_for_update pid mid d = Some p" "payments d' = put_payment q (payments d)" "advances p q"
      using eff by (auto simp: authorize_done_def allowed_le advances_status split: if_splits)
    then show ?thesis by (rule put)
  qed
  show "keeps_payments ps (payments d')" if eff: "capture_done ext mid pid corr d body d'"
  proof -
    obtain p t where "payment_for_update pid mid d = Some p" "payments d' = put_payment (captured p t) (payments d)"
        "p_status p = status_value AUTHORIZED"
      using eff by (auto simp: capture_done_def)
    then show ?thesis using put ok advances_captured by blast
  qed
  show "keeps_payments ps (payments d')" if eff: "cancel_done ext mid pid corr d body d'"
  proof -
    obtain p q where "payment_for_update pid mid d = Some p" "payments d' = put_payment q (payments d)" "advances p q"
      using eff by (auto simp: cancel_done_def allowed_le advances_status)
    then show ?thesis by (rule put)
  qed
  show "keeps_payments ps (payments d')" if eff: "refund_done ext mid pid n corr d body d'"
    using eff put advances_refunded unfolding refund_done_def by blast
qed

lemma wp_both:
  "wp m (\<lambda>_ v. A (tables v)) (\<lambda>_ _. True) w \<Longrightarrow> wp m (\<lambda>_ v. B (tables v)) (\<lambda>_ _. True) w \<Longrightarrow>
     wp m (\<lambda>_ v. A (tables v) \<and> B (tables v)) (\<lambda>_ _. True) w"
  by (auto simp: wp_def split: prod.splits sum.splits)

lemma books_of_kept: "payments_kept ps d \<Longrightarrow> books_ok d"
  by (simp add: payments_kept_def)


interpretation payments: transaction_invariant ext "payments_kept ps" for ext ps
proof unfold_locales
  fix w :: world and preq mid key corr pid rreq
  assume "payments_kept ps (tables w)"
  note ok = books_of_kept [OF this] and kept = payments_kept_effects [OF this]
  let ?kept = "\<lambda>m. wp m (\<lambda>_ v. keeps_payments ps (payments (tables v))) (\<lambda>_ _. True) w"
  show "wp (create_payment ext mid preq key corr) (\<lambda>_ v. payments_kept ps (tables v)) (\<lambda>_ _. True) w"
    if "0 < pr_amount_minor preq"
    unfolding payments_kept_def
    by (rule wp_both [OF books.tx_create_payment [OF ok that] wp_mono [OF create_payment_effect]])
      (auto dest: kept)
  show "wp (authorize_block ext mid pid corr) (\<lambda>_ v. payments_kept ps (tables v)) (\<lambda>_ _. True) w"
    unfolding payments_kept_def
    by (rule wp_both [OF books.tx_authorize [OF ok] wp_mono [OF authorize_block_effect [OF ok]]])
      (auto dest: kept)
  show "wp (capture_payment ext mid pid corr) (\<lambda>_ v. payments_kept ps (tables v)) (\<lambda>_ _. True) w"
    unfolding payments_kept_def
    by (rule wp_both [OF books.tx_capture [OF ok] wp_mono [OF capture_payment_effect [OF ok]]])
      (auto dest: kept)
  show "wp (cancel_payment ext mid pid corr) (\<lambda>_ v. payments_kept ps (tables v)) (\<lambda>_ _. True) w"
    unfolding payments_kept_def
    by (rule wp_both [OF books.tx_cancel [OF ok] wp_mono [OF cancel_payment_effect [OF ok]]])
      (auto dest: kept)
  show "wp (refund_payment ext mid pid rreq corr) (\<lambda>_ v. payments_kept ps (tables v)) (\<lambda>_ _. True) w"
    unfolding payments_kept_def
    by (rule wp_both [OF books.tx_refund [OF ok] wp_mono [OF refund_payment_effect [OF ok]]])
      (auto dest: kept)
qed (unfold payments_kept_def,
  (rule wp_both, (rule books.transactions, simp),
   (rule wp_frame_keeps, rule frame_rules, simp, simp))+)

text \<open>
  C24: whatever happens after it exists, a payment keeps its merchant, customer, amount, currency and
  creation time; its captured and refunded amounts never shrink and its status only moves forward in
  the order of the state machine.
\<close>

theorem payment_history:
  "list_all (\<lambda>p. list_ex (advances p) (payments (tables (run ext' bs (run ext as initial_world)))))
     (payments (tables (run ext as initial_world)))"
proof -
  let ?w = "run ext as initial_world"
  have "on_tables (payments_kept (payments (tables ?w))) ?w"
    using run_books_ok [of ext as] by (simp add: on_tables_def payments_kept_def keeps_payments_refl)
  then have "on_tables (payments_kept (payments (tables ?w))) (run ext' bs ?w)"
    unfolding run_def by (rule payments.machine.run_inv)
  then show ?thesis by (simp add: on_tables_def payments_kept_def keeps_payments_def)
qed

section \<open>Accounts are funded once\<close>

text \<open>The business event with this reference has been journaled.\<close>

definition journaled_before :: "string \<times> uuid \<Rightarrow> db \<Rightarrow> bool" where
  "journaled_before ref d \<longleftrightarrow> books_ok d \<and> ref \<in> j_reference ` set (journals d)"

lemma journaled_before_effects:
  assumes "ref \<in> j_reference ` set (journals d)"
  shows "fund_done mid aid freq d d' \<Longrightarrow> ref \<in> j_reference ` set (journals d')"
    and "capture_done ext mid pid corr d body d' \<Longrightarrow> ref \<in> j_reference ` set (journals d')"
    and "refund_done ext mid pid n corr d body d' \<Longrightarrow> ref \<in> j_reference ` set (journals d')"
  using assms by (auto simp: fund_done_def capture_done_def refund_done_def journaled_def)

interpretation journaled: transaction_invariant ext "journaled_before ref" for ext ref
proof unfold_locales
  fix w :: world and mid aid freq corr pid rreq
  assume before: "journaled_before ref (tables w)"
  then have ok: "books_ok (tables w)" and ref: "ref \<in> j_reference ` set (journals (tables w))"
    by (auto simp: journaled_before_def)
  note kept = journaled_before_effects [OF ref]
  show "wp (fund_account ext mid aid freq corr) (\<lambda>_ v. journaled_before ref (tables v)) (\<lambda>_ _. True) w"
    unfolding journaled_before_def
    by (rule wp_both [OF books.tx_fund_account [OF ok] wp_mono [OF fund_account_effect [OF ok]]])
      (auto dest: kept)
  show "wp (capture_payment ext mid pid corr) (\<lambda>_ v. journaled_before ref (tables v)) (\<lambda>_ _. True) w"
    unfolding journaled_before_def
    by (rule wp_both [OF books.tx_capture [OF ok] wp_mono [OF capture_payment_effect [OF ok]]])
      (auto dest: kept)
  show "wp (refund_payment ext mid pid rreq corr) (\<lambda>_ v. journaled_before ref (tables v)) (\<lambda>_ _. True) w"
    unfolding journaled_before_def
    by (rule wp_both [OF books.tx_refund [OF ok] wp_mono [OF refund_payment_effect [OF ok]]])
      (auto dest: kept)
qed (unfold journaled_before_def,
  (rule wp_both, (rule books.transactions, simp, assumption?),
   (rule wp_frame_keeps, rule frame_rules, simp, simp))+)

lemma fund_done_again: "books_ok d' \<Longrightarrow> (''account_funding'', aid) \<in> j_reference ` set (journals d) \<Longrightarrow> \<not> fund_done mid aid req d d'"
  by (auto simp: fund_done_def journaled_def books_ok_def book_ok_def)

text \<open>
  An account can be funded once.  After a committed funding, every later funding of the same account
  fails, whoever asks for it and whatever the amount, and leaves the tables alone.
\<close>

lemma later_funding_fails:
  assumes "books_ok (tables w)" and "atomically (fund_account ext mid aid req corr) w = (Inr body, w1)"
  shows "\<exists>e w2. atomically (fund_account ext' mid' aid req' corr') (run ext'' as w1) = (Inl e, w2) \<and>
    tables w2 = tables (run ext'' as w1)"
proof -
  let ?ref = "(''account_funding'', aid)"
  let ?fund = "fund_account ext' mid' aid req' corr'" and ?v = "run ext'' as w1"
  have "wp (fund_account ext mid aid req corr) (\<lambda>_ v. journaled_before ?ref (tables v)) (\<lambda>_ _. True) (w\<lparr>deferred := []\<rparr>)"
    unfolding journaled_before_def using assms(1)
    by (intro wp_both books.tx_fund_account wp_mono [OF fund_account_effect]) (auto simp: fund_done_def journaled_def)
  then have "on_tables (journaled_before ?ref) w1"
    unfolding on_tables_def using assms(2) by (rule atomically_effect)
  then have "on_tables (journaled_before ?ref) ?v" unfolding run_def by (rule journaled.machine.run_inv)
  then have ok: "books_ok (tables ?v)" and ref: "?ref \<in> j_reference ` set (journals (tables ?v))"
    by (auto simp: on_tables_def journaled_before_def)
  have no: False if "atomically ?fund ?v = (Inr b, w2)" for b w2
    using atomically_effect [OF fund_account_effect that] atomically_effect [OF books.tx_fund_account that]
      ok fund_done_again [OF _ ref] by simp
  obtain r w2 where r: "atomically ?fund ?v = (r, w2)" by (metis prod.collapse)
  with no obtain e where "r = Inl e" by (cases r) auto
  then show ?thesis using r atomically_raises by blast
qed

section \<open>Append-only tables\<close>

text \<open>
  A predicate of the tables that every single statement keeps is kept by every operation: the
  structure rules for \<open>keeps\<close> on statements, and the way from \<open>keeps\<close> to the laws of
  \<open>transaction_invariant\<close>.
\<close>

lemma keeps_let [keeps_intros]: "(\<And>x. keeps I (f x)) \<Longrightarrow> keeps I (let x = a in f x)"
  by simp

lemma keeps_case_prod [keeps_intros]: "(\<And>x y. keeps I (f x y)) \<Longrightarrow> keeps I (case p of (x, y) \<Rightarrow> f x y)"
  by (cases p) auto

lemma keeps_case_sum [keeps_intros]:
  "(\<And>x. keeps I (f x)) \<Longrightarrow> (\<And>y. keeps I (g y)) \<Longrightarrow> keeps I (case r of Inl x \<Rightarrow> f x | Inr y \<Rightarrow> g y)"
  by (cases r) auto

lemma keeps_for_each [keeps_intros]: "(\<And>x. keeps I (f x)) \<Longrightarrow> keeps I (for_each xs f)"
  by (induction xs) (auto intro: keeps_intros keeps_bind)

lemma keeps_execute [keeps_intros]: "(\<And>d. P d \<Longrightarrow> P (f d)) \<Longrightarrow> keeps (on_tables P) (execute f)"
  by (simp add: keeps_def execute_def modify_op_def on_tables_def)

lemma keeps_count_metric [keeps_intros]: "keeps (on_tables P) (count_metric f)"
  by (simp add: keeps_def count_metric_def modify_op_def on_tables_def)

lemma keeps_defer_check [keeps_intros]: "keeps (on_tables P) (defer_check r)"
  by (simp add: keeps_def defer_check_def modify_op_def on_tables_def)

lemma wp_keeps: "keeps (on_tables P) m \<Longrightarrow> P (tables w) \<Longrightarrow> wp m (\<lambda>_ v. P (tables v)) (\<lambda>_ _. True) w"
  by (auto simp: wp_def keeps_def on_tables_def split: prod.split sum.split)

lemmas table_statement_defs = insert_row_def update_row_def insert_merchant_def insert_api_key_def
  insert_customer_def insert_account_def insert_payment_def update_payment_def insert_refund_def
  insert_outbox_def update_outbox_def insert_endpoint_def update_endpoint_def insert_secret_def
  update_secret_def insert_delivery_def update_delivery_def insert_audit_def insert_journal_def
  update_journal_def insert_entry_def

lemmas structural_defs = table_statement_defs repository_defs

text \<open>The logs of the system: audit log, ledger entries and refunds.\<close>

definition extends :: "audit_log list \<times> journal_entry list \<times> refund_row list \<Rightarrow> db \<Rightarrow> bool" where
  "extends l d \<longleftrightarrow>
     prefix (fst l) (audit_logs d) \<and> prefix (fst (snd l)) (journal_entries d) \<and>
     prefix (snd (snd l)) (refunds d)"

lemma extends_statements:
  assumes "extends l d"
  shows "extends l (d\<lparr>audit_logs := audit_logs d @ x\<rparr>)" "extends l (d\<lparr>journal_entries := journal_entries d @ y\<rparr>)"
    "extends l (d\<lparr>refunds := refunds d @ z\<rparr>)"
  using assms by (simp_all add: extends_def prefix_append)

lemma extends_other [simp]:
  "extends l (d\<lparr>merchants := a\<rparr>) = extends l d" "extends l (d\<lparr>api_keys := b\<rparr>) = extends l d"
  "extends l (d\<lparr>customers := c\<rparr>) = extends l d" "extends l (d\<lparr>accounts := e\<rparr>) = extends l d"
  "extends l (d\<lparr>payments := f\<rparr>) = extends l d" "extends l (d\<lparr>ledger_accounts := g\<rparr>) = extends l d"
  "extends l (d\<lparr>journals := h\<rparr>) = extends l d" "extends l (d\<lparr>idempotency_records := i\<rparr>) = extends l d"
  "extends l (d\<lparr>outbox_events := j\<rparr>) = extends l d" "extends l (d\<lparr>processed_events := k\<rparr>) = extends l d"
  "extends l (d\<lparr>webhook_endpoints := m\<rparr>) = extends l d" "extends l (d\<lparr>webhook_secrets := n\<rparr>) = extends l d"
  "extends l (d\<lparr>webhook_deliveries := p\<rparr>) = extends l d"
  by (simp_all add: extends_def)

lemma keeps_authorize_block:
  "keeps I (authorize_payment ext mid pid corr) \<Longrightarrow> keeps I (authorize_block ext mid pid corr)"
  unfolding authorize_block_def
  by (intro keeps_catch keeps_bind keeps_ret) (simp_all add: keeps_ret keeps_raise split: exn.split)

lemma keeps_extends:
  "keeps (on_tables (extends l)) (create_merchant ext mreq corr)"
  "keeps (on_tables (extends l)) (create_customer ext mid creq corr)"
  "keeps (on_tables (extends l)) (fund_account ext mid aid freq corr)"
  "keeps (on_tables (extends l)) (create_payment ext mid preq key corr)"
  "keeps (on_tables (extends l)) (authorize_payment ext mid pid corr)"
  "keeps (on_tables (extends l)) (capture_payment ext mid pid corr)"
  "keeps (on_tables (extends l)) (refund_payment ext mid pid rreq corr)"
  "keeps (on_tables (extends l)) (register_webhook ext mid wreq corr)"
  "keeps (on_tables (extends l)) (rotate_webhook_secret ext mid eid corr)"
  "keeps (on_tables (extends l)) (replay_delivery ext mid did corr)"
  unfolding create_merchant_def create_customer_def fund_account_def create_payment_def
    persist_payment_def authorize_payment_def capture_payment_def refund_payment_def
    register_webhook_def rotate_webhook_secret_def replay_delivery_def structural_defs
  by (intro keeps_intros keeps_bind; simp add: extends_statements keeps_raise split: exn.split)+

interpretation logs: transaction_invariant ext "extends l" for ext l
  by unfold_locales
    ((rule wp_keeps, (rule keeps_extends | rule keeps_authorize_block, rule keeps_extends), assumption) |
     (rule wp_frame_keeps, rule frame_rules, simp add: extends_def, assumption))+

text \<open>
  The audit log, the ledger entries and the refunds are append-only: after any requests and
  worker rounds, from any database, the old rows are still there, unchanged and in front.
\<close>

theorem logs_append_only:
  "prefix (audit_logs (tables w)) (audit_logs (tables (run ext as w))) \<and>
   prefix (journal_entries (tables w)) (journal_entries (tables (run ext as w))) \<and>
   prefix (refunds (tables w)) (refunds (tables (run ext as w)))"
proof -
  let ?l = "(audit_logs (tables w), journal_entries (tables w), refunds (tables w))"
  have "on_tables (extends ?l) w" by (simp add: on_tables_def extends_def)
  then have "on_tables (extends ?l) (run ext as w)" unfolding run_def by (rule logs.machine.run_inv)
  then show ?thesis by (simp add: on_tables_def extends_def)
qed

section \<open>Trial balance\<close>

lemma sum_list_one_journal:
  "distinct (map j_id js) \<Longrightarrow> a \<in> j_id ` set js \<Longrightarrow>
     sum_list (map (\<lambda>k. if a = j_id k \<and> b then n else 0) js) = (if b then n else (0 :: int))"
proof (induction js)
  case (Cons k js)
  then show ?case by (cases "a = j_id k") (auto simp: image_iff cong: map_cong)
qed simp

lemma sum_where_by_journal:
  assumes "distinct (map j_id js)" and "\<forall>e \<in> set es. e_journal_id e \<in> j_id ` set js"
  shows "sum_where Q f es = sum_list (map (\<lambda>j. sum_where (\<lambda>e. e_journal_id e = j_id j \<and> Q e) f es) js)"
  using assms(2)
proof (induction es)
  case (Cons e es)
  then show ?case using sum_list_one_journal [OF assms(1), of "e_journal_id e" "Q e" "f e"]
    by (simp add: sum_list_addf)
qed simp

text \<open>The total of a direction in a currency over the whole ledger.\<close>

definition ledger_total :: "db \<Rightarrow> string \<Rightarrow> string \<Rightarrow> int" where
  "ledger_total d dir cur =
     sum_where (\<lambda>e. e_direction e = dir \<and> e_currency e = cur) e_amount_minor (journal_entries d)"

lemma ledger_total_by_journal:
  assumes "book_ok d"
  shows "ledger_total d dir cur =
    sum_list (map (\<lambda>j. if j_currency j = cur then entry_total d (j_id j) dir else 0) (journals d))"
proof -
  have ok: "distinct (map j_id (journals d))" "\<forall>e \<in> set (journal_entries d). e_journal_id e \<in> j_id ` set (journals d)"
    using assms by (auto simp: book_ok_def ledger_tables_ok_def entries_have_journals_def)
  have one: "sum_where (\<lambda>e. e_journal_id e = j_id j \<and> e_direction e = dir \<and> e_currency e = cur) e_amount_minor (journal_entries d) =
      (if j_currency j = cur then entry_total d (j_id j) dir else 0)" if j: "j \<in> set (journals d)" for j
  proof -
    have "e_currency e = j_currency j" if "e \<in> set (journal_entries d)" "e_journal_id e = j_id j" for e
      using assms j that
      by (auto simp: book_ok_def ledger_tables_ok_def posted_balanced_def journal_balanced_def entries_of_def)
    then show ?thesis
      unfolding entry_total_def by (auto intro!: sum_where_cong sum_where_none)
  qed
  show ?thesis
    unfolding ledger_total_def
    by (rule trans [OF sum_where_by_journal [OF ok]], rule arg_cong [where f = sum_list], rule map_cong)
      (auto simp: one)
qed

text \<open>
  C26: the trial balance of the whole ledger: after any run, in every currency the debits of all
  entries equal the credits.
\<close>

theorem trial_balance:
  "ledger_total (tables (run ext as initial_world)) ''DEBIT'' cur =
   ledger_total (tables (run ext as initial_world)) ''CREDIT'' cur"
proof -
  let ?d = "tables (run ext as initial_world)"
  have ok: "book_ok ?d" using run_books_ok by (simp add: books_ok_def)
  then have "entry_total ?d (j_id j) ''DEBIT'' = entry_total ?d (j_id j) ''CREDIT''" if "j \<in> set (journals ?d)" for j
    using that by (auto simp: book_ok_def ledger_tables_ok_def posted_balanced_def journal_balanced_def)
  then show ?thesis
    unfolding ledger_total_by_journal [OF ok] by (intro arg_cong [where f = sum_list] map_cong) auto
qed

end
