(* ===== verification/Transport.thy ===== *)
theory Transport
  imports History
begin

text \<open>
  Events from the outbox to the webhook deliveries: what the outbox rows look like in every reachable
  database, that an event marked published was sent, that the publisher drains the outbox, that the
  consumer processes each event once and creates one delivery per subscribed endpoint, and where it
  stops.
\<close>

section \<open>The inbox\<close>

definition processed :: "uuid \<times> string \<Rightarrow> db \<Rightarrow> bool" where
  "processed k d \<longleftrightarrow> k \<in> pe_pk ` set (processed_events d)"

lemma mark_event_processed_rule:
  assumes taken: "\<And>w'. processed (eid, consumer) (tables w) \<Longrightarrow> tables w' = tables w \<Longrightarrow>
      deferred w' = deferred w \<Longrightarrow> Q False w'"
    and free: "\<And>r w'. \<not> processed (eid, consumer) (tables w) \<Longrightarrow> pe_pk r = (eid, consumer) \<Longrightarrow>
      tables w' = (tables w)\<lparr>processed_events := processed_events (tables w) @ [r]\<rparr> \<Longrightarrow>
      deferred w' = deferred w \<Longrightarrow> Q True w'"
    and data: "\<And>w'. \<not> varchar 120 consumer \<Longrightarrow> E DataError w'"
  shows "wp (mark_event_processed ext eid consumer) Q E w"
proof (cases "processed (eid, consumer) (tables w)")
  case True
  then show ?thesis
    by (auto simp: mark_event_processed_def now_def inbox_claim_def claim_row_def processed_def pe_pk_def wp_simps
        intro!: taken data)
next
  case False
  then show ?thesis
    by (auto simp: mark_event_processed_def now_def inbox_claim_def claim_row_def processed_def pe_pk_def wp_simps
        intro!: free data)
qed

lemma frame_add_delivery:
  "frames (\<lambda>w. (processed_events (tables w), payments (tables w), webhook_endpoints (tables w), deferred w))
     (add_delivery ext i t e)"
  unfolding add_delivery_def repository_defs statement_defs by (intro frame_intros) simp_all

lemma process_event_processed:
  assumes "processed k (tables w)"
  shows "wp (process_payment_event_for_webhooks ext i t j) (\<lambda>_ v. processed k (tables v)) (\<lambda>_ _. True) w"
  unfolding process_payment_event_for_webhooks_def
  apply (simp add: wp_simps)
  apply (rule mark_event_processed_rule)
    apply (use assms in \<open>auto simp: wp_simps processed_def split: option.split sum.split
      intro!: wp_frames [OF frames_for_each [OF frame_add_delivery]]\<close>)
  done

interpretation inbox_kept: transaction_invariant ext "processed k" for ext k
  by unfold_locales
    ((rule process_event_processed, assumption) |
     (rule wp_frame_keeps, rule frame_rules, simp add: processed_def, assumption))+

text \<open>The event id and the type the consumer takes from a decoded payload.\<close>

definition consumed_id :: "ext \<Rightarrow> json \<Rightarrow> exn + uuid" where
  "consumed_id ext payload = bind_sum (json_get ''event_id'' payload) (\<lambda>v. UUID (json_str ext v))"

definition consumed_type :: "ext \<Rightarrow> json \<Rightarrow> exn + string" where
  "consumed_type ext payload = bind_sum (json_get ''event_type'' payload) (\<lambda>v. Inr (json_str ext v))"

lemma process_claimed:
  "wp (process_payment_event_for_webhooks ext i t j) (\<lambda>_ v. processed (i, ''webhook-service'') (tables v)) (\<lambda>_ _. True) w"
  unfolding process_payment_event_for_webhooks_def
  apply (simp add: wp_simps)
  apply (rule mark_event_processed_rule)
    apply (auto simp: wp_simps processed_def rev_image_eqI split: option.split sum.split
      intro!: wp_frames [OF frames_for_each [OF frame_add_delivery]])
  done

lemma process_again:
  assumes "processed (i, ''webhook-service'') (tables w)"
  shows "wp (process_payment_event_for_webhooks ext i t j)
    (\<lambda>b v. b = False \<and> tables v = tables w \<and> deferred v = deferred w) (\<lambda>_ _. False) w"
  unfolding process_payment_event_for_webhooks_def
  by (simp add: wp_simps) (rule mark_event_processed_rule, use assms in \<open>auto simp: wp_simps varchar_def\<close>)

text \<open>What a message that was consumed without an exception was.\<close>

lemma consume_message_Inr:
  "consume_message ext m w = (Inr (), w') \<longleftrightarrow>
     (case decode_event_payload ext (msg_value m) of
        Inl _ \<Rightarrow> w' = w
      | Inr payload \<Rightarrow> \<exists>i t b. consumed_id ext payload = Inr i \<and> consumed_type ext payload = Inr t \<and>
          atomically (process_payment_event_for_webhooks ext i t payload) w = (Inr b, w'))"
  by (auto simp: consume_message_def consumed_id_def [symmetric] consumed_type_def [symmetric] bind_op_def
      lift_sum_def ret_def split: sum.splits prod.splits)

text \<open>
  C29: the consumer is idempotent.  A message it has consumed can be delivered again after any further
  requests and worker rounds: consuming it again succeeds and changes no table.
\<close>

theorem redelivery_changes_nothing:
  assumes "consume_message ext m w = (Inr (), w1)"
  shows "\<exists>w2. consume_message ext m (run ext' as w1) = (Inr (), w2) \<and> tables w2 = tables (run ext' as w1)"
proof (cases "decode_event_payload ext (msg_value m)")
  case (Inl e)
  then show ?thesis by (simp add: consume_message_Inr)
next
  case (Inr payload)
  let ?v = "run ext' as w1"
  obtain i t b where ids: "consumed_id ext payload = Inr i" "consumed_type ext payload = Inr t"
    and first: "atomically (process_payment_event_for_webhooks ext i t payload) w = (Inr b, w1)"
    using assms Inr by (auto simp: consume_message_Inr)
  have "on_tables (processed (i, ''webhook-service'')) w1"
    unfolding on_tables_def by (rule atomically_effect [OF process_claimed first])
  then have "on_tables (processed (i, ''webhook-service'')) ?v"
    unfolding run_def by (rule inbox_kept.machine.run_inv)
  then have "wp (process_payment_event_for_webhooks ext i t payload)
      (\<lambda>b v. b = False \<and> tables v = tables ?v \<and> deferred v = []) (\<lambda>_ _. False) (?v\<lparr>deferred := []\<rparr>)"
    by (intro wp_mono [OF process_again]) (auto simp: on_tables_def)
  from atomically_no_triggers [OF this] show ?thesis using ids Inr by (auto simp: consume_message_Inr)
qed

section \<open>Fan-out\<close>

text \<open>The columns of a fresh delivery that matter to the dispatcher.\<close>

definition fresh_delivery :: "uuid \<Rightarrow> webhook_endpoint \<Rightarrow> webhook_delivery \<Rightarrow> bool" where
  "fresh_delivery event_id e r \<longleftrightarrow>
     d_endpoint_id r = w_id e \<and> d_event_id r = event_id \<and> d_status r = ''PENDING'' \<and> attempts r = 0 \<and>
     next_attempt_at r = None \<and> last_error r = None"

definition subscribed :: "db \<Rightarrow> payment \<Rightarrow> string \<Rightarrow> webhook_endpoint list" where
  "subscribed d p etype =
     filter (\<lambda>e. w_merchant_id e = p_merchant_id p \<and> enabled e \<and> etype \<in> set (event_types e))
       (webhook_endpoints d)"

lemma add_delivery_rule:
  "wp (add_delivery ext i t e)
     (\<lambda>_ v. if t \<in> set (event_types e)
        then \<exists>r. fresh_delivery i e r \<and> webhook_deliveries (tables v) = webhook_deliveries (tables w) @ [r]
        else webhook_deliveries (tables v) = webhook_deliveries (tables w)) (\<lambda>_ _. True) w"
  unfolding add_delivery_def fresh_id_def now_def insert_delivery_def
  by (auto simp: wp_simps fresh_delivery_def)

lemma add_deliveries_rule:
  "wp (for_each es (add_delivery ext i t))
     (\<lambda>_ v. \<exists>new. webhook_deliveries (tables v) = webhook_deliveries (tables w) @ new \<and>
        list_all2 (fresh_delivery i) (filter (\<lambda>e. t \<in> set (event_types e)) es) new) (\<lambda>_ _. True) w"
proof (induction es arbitrary: w)
  case Nil
  then show ?case by (simp add: wp_simps)
next
  case (Cons e es)
  show ?case
    unfolding for_each.simps wp_bind
    by (rule wp_mono [OF add_delivery_rule], rule wp_mono [OF Cons.IH]) (fastforce split: if_splits)+
qed

text \<open>
  C30: the fan-out of an event that is processed for the first time: exactly one new delivery, pending
  and without attempts, for every enabled endpoint of the payment's merchant that subscribes to the
  type of the event, and for no other.
\<close>

theorem fan_out:
  assumes "atomically (process_payment_event_for_webhooks ext i t payload) w = (Inr True, w')"
    and "event_payment_id ext payload = Inr pid" and "row_at p_id pid (payments (tables w)) = Some p"
  shows "\<exists>new. webhook_deliveries (tables w') = webhook_deliveries (tables w) @ new \<and>
    list_all2 (fresh_delivery i) (subscribed (tables w) p t) new"
proof -
  let ?Q = "\<lambda>b d'. b = True \<longrightarrow> (\<exists>new. webhook_deliveries d' = webhook_deliveries (tables w) @ new \<and>
    list_all2 (fresh_delivery i) (subscribed (tables w) p t) new)"
  have "wp (process_payment_event_for_webhooks ext i t payload) (\<lambda>b v. ?Q b (tables v)) (\<lambda>_ _. True)
      (w\<lparr>deferred := []\<rparr>)"
    unfolding process_payment_event_for_webhooks_def
    apply (simp add: wp_simps)
    apply (rule mark_event_processed_rule)
      apply (auto simp: wp_simps assms(2,3) subscribed_def intro!: wp_mono [OF add_deliveries_rule])
    done
  from atomically_effect [OF this assms(1)] show ?thesis by simp
qed

section \<open>Events on the wire\<close>

text \<open>
  The documented behaviour of \<open>json\<close> and pydantic, for one event: \<open>json.loads\<close> reads back the text
  \<open>json.dumps\<close> wrote, and validating and dumping the payload gives the payload again.
\<close>

definition readable :: "ext \<Rightarrow> outbox_event \<Rightarrow> bool" where
  "readable ext e \<longleftrightarrow>
     json_loads ext (msg_value (event_message ext e)) = Some (o_payload e) \<and>
     (case validate_envelope ext (o_payload e) of
        None \<Rightarrow> False | Some ev \<Rightarrow> envelope_dump ext ev = o_payload e)"

lemma json_get_envelope [simp]:
  "json_get ''event_id'' (envelope_dump ext ev) = Inr (JStr (uuid_str (ev_event_id ev)))"
  "json_get ''event_type'' (envelope_dump ext ev) = Inr (JStr (event_type_value (ev_event_type ev)))"
  "json_get ''aggregate_id'' (envelope_dump ext ev) = Inr (JStr (uuid_str (ev_aggregate_id ev)))"
  "json_get ''version'' (envelope_dump ext ev) = Inr (JInt (ev_version ev))"
  "json_get ''payload'' (envelope_dump ext ev) = Inr (JObj (ev_payload ev))"
  by (simp_all add: json_get_def envelope_dump_def)

lemma UUID_uuid_str [simp]: "UUID (uuid_str u) = Inr u"
  by (simp add: UUID_def uuid_parse_uuid_str)

lemma decode_readable:
  assumes "readable ext e" and "o_payload e = envelope_dump ext ev" and "ev_version ev = 1"
  shows "decode_event_payload ext (msg_value (event_message ext e)) = Inr (o_payload e)"
proof -
  obtain ev' where v: "validate_envelope ext (o_payload e) = Some ev'" "envelope_dump ext ev' = o_payload e"
    and l: "json_loads ext (msg_value (event_message ext e)) = Some (o_payload e)"
    using assms(1) by (auto simp: readable_def split: option.splits)
  then have "json_get ''version'' (envelope_dump ext ev') = json_get ''version'' (envelope_dump ext ev)"
    using assms(2) by simp
  then have "ev_version ev' = 1" using assms(3) by simp
  then show ?thesis using v l by (simp add: decode_event_payload_def)
qed

text \<open>The consumer takes the event of an outbox row to \<open>process_payment_event_for_webhooks\<close>.\<close>

lemma consume_outbox_row:
  assumes "readable ext e" and "outbox_row_for ext ty agg atype payload corr e"
  shows "consume_message ext (event_message ext e) =
    bind_op (atomically (process_payment_event_for_webhooks ext (o_event_id e) (event_type_value ty) (o_payload e)))
      (\<lambda>_. ret ())"
proof -
  obtain ev where p: "o_payload e = envelope_dump ext ev" "ev_version ev = 1"
    "ev_event_id ev = o_event_id e" "ev_event_type ev = ty"
    using assms(2) by (auto simp: outbox_row_for_def)
  show ?thesis
    unfolding consume_message_def decode_readable [OF assms(1) p(1,2)]
    by (simp add: p bind_op_def lift_sum_def)
qed

lemma process_missing_payment_id:
  assumes "\<not> processed (i, ''webhook-service'') (tables w)" and "event_payment_id ext payload = Inl e"
  shows "wp (process_payment_event_for_webhooks ext i t payload) (\<lambda>_ _. False) (\<lambda>e' _. e' = e) w"
  unfolding process_payment_event_for_webhooks_def
  apply (simp add: wp_simps)
  apply (rule mark_event_processed_rule)
    apply (use assms in \<open>auto simp: wp_simps varchar_def\<close>)
  done

lemma atomically_fails:
  assumes "wp m (\<lambda>_ _. False) (\<lambda>e' _. e' = e) (w\<lparr>deferred := []\<rparr>)"
  shows "\<exists>w'. atomically m w = (Inl e, w') \<and> tables w' = tables w"
  using assms by (auto simp: wp_def atomically_def rollback_def split: prod.splits sum.splits)

text \<open>
  C39: the event of a cancellation stops the consumer.  It has no payment id, so reading it raises a
  \<open>KeyError\<close> that leaves \<open>consume_forever\<close>: the offset stays in front of the message, no table
  changes, and the messages behind it are not reached, at any later time at which the event is still
  unprocessed.
\<close>

theorem cancelled_event_stops_consumer:
  assumes "books_ok (tables w)" and "atomically (cancel_payment ext mid pid corr) w = (Inr body, w1)"
    and "e \<in> set (outbox_events (tables w1))" and "e \<notin> set (outbox_events (tables w))"
    and "readable ext e" and "\<not> processed (o_event_id e, ''webhook-service'') (tables v)"
  shows "\<exists>v'. consume ext (event_message ext e # ms) n v = ((Some (KeyError ''payment_id''), n), v') \<and>
    tables v' = tables v"
proof -
  have "cancel_done ext mid pid corr (tables w) body (tables w1)"
    using atomically_effect [OF cancel_payment_effect assms(2)] assms(1) by simp
  then have row: "outbox_row_for ext PAYMENT_CANCELLED pid ''payment'' [] corr e"
    using assms(3,4) by (auto simp: cancel_done_def emitted_def)
  then have "event_payment_id ext (o_payload e) = Inl (KeyError ''payment_id'')"
    by (auto simp: outbox_row_for_def event_payment_id_def) (simp add: json_get_def)
  then have "wp (process_payment_event_for_webhooks ext (o_event_id e) (event_type_value PAYMENT_CANCELLED)
      (o_payload e)) (\<lambda>_ _. False) (\<lambda>e' _. e' = KeyError ''payment_id'') (v\<lparr>deferred := []\<rparr>)"
    using assms(6) by (intro process_missing_payment_id) simp_all
  then obtain v' where "atomically (process_payment_event_for_webhooks ext (o_event_id e)
      (event_type_value PAYMENT_CANCELLED) (o_payload e)) v = (Inl (KeyError ''payment_id''), v')"
    "tables v' = tables v"
    using atomically_fails by blast
  then show ?thesis by (simp add: consume_outbox_row [OF assms(5) row] bind_op_def)
qed

text \<open>A concrete relay: the event \<open>ev\<close> is what is read from the topic.\<close>

definition relay_ext :: "event_envelope \<Rightarrow> ext" where
  "relay_ext ev = sample_ext\<lparr>json_loads := (\<lambda>_. Some (envelope_dump sample_ext ev)),
     validate_envelope := (\<lambda>_. Some ev)\<rparr>"

definition sample_event :: "event_type \<Rightarrow> (string \<times> json) list \<Rightarrow> event_envelope" where
  "sample_event ty payload = \<lparr>ev_event_id = 101, ev_event_type = ty, ev_occurred_at = 102,
     ev_correlation_id = 7, ev_causation_id = None, ev_aggregate_id = 20, ev_aggregate_type = ''payment'',
     ev_version = 1, ev_payload = payload\<rparr>"

abbreviation cancel_ext :: ext where
  "cancel_ext \<equiv> relay_ext (sample_event PAYMENT_CANCELLED [])"

definition sample_row :: outbox_event where
  "sample_row = \<lparr>o_event_id = 101, o_aggregate_id = 20, o_aggregate_type = ''payment'',
     o_event_type = event_type_value PAYMENT_CANCELLED,
     o_payload = envelope_dump sample_ext (sample_event PAYMENT_CANCELLED []), o_created_at = 103,
     published_at = None, retry_count = 0\<rparr>"

lemma sample_cancel:
  "\<exists>w1. atomically (cancel_payment cancel_ext 1 20 7) shop_world =
      (Inr (payment_response (sample_payment 20 CANCELLED 400)), w1) \<and> outbox_events (tables w1) = [sample_row]"
  by (simp add: cancel_payment_def sample_step relay_ext_def sample_row_def sample_event_def envelope_dump_def)

lemma cancelled_event_stops_consumer_witness:
  "\<exists>v'. consume cancel_ext [event_message cancel_ext sample_row] 0 shop_world =
     ((Some (KeyError ''payment_id''), 0), v') \<and> tables v' = tables shop_world"
proof -
  obtain w1 where "atomically (cancel_payment cancel_ext 1 20 7) shop_world =
      (Inr (payment_response (sample_payment 20 CANCELLED 400)), w1)" "outbox_events (tables w1) = [sample_row]"
    using sample_cancel by blast
  moreover have "readable cancel_ext sample_row"
    by (simp add: readable_def relay_ext_def sample_row_def sample_ext_def envelope_dump_def)
  moreover have "\<not> processed (o_event_id sample_row, ''webhook-service'') (tables shop_world)"
    "sample_row \<notin> set (outbox_events (tables shop_world))"
    by (simp_all add: processed_def shop_world_def shop_db_def empty_db_def)
  ultimately show ?thesis
    using cancelled_event_stops_consumer [OF shop_books_ok, of cancel_ext 1 20 7 _ w1 sample_row shop_world "[]" 0]
    by simp
qed

text \<open>The event of a capture of payment 20 reaches the endpoint of the shop.\<close>

abbreviation capture_event :: event_envelope where
  "capture_event \<equiv> sample_event PAYMENT_CAPTURED [(''payment_id'', JStr (uuid_str 20))]"

abbreviation capture_ext :: ext where
  "capture_ext \<equiv> relay_ext capture_event"

lemma sample_payment_id: "event_payment_id capture_ext (envelope_dump sample_ext capture_event) = Inr 20"
  by (simp add: event_payment_id_def sample_event_def) (simp add: json_get_def)

lemma sample_process:
  "fst (atomically (process_payment_event_for_webhooks capture_ext 101 ''payment.captured''
     (envelope_dump sample_ext capture_event)) shop_world) = Inr True"
  unfolding process_payment_event_for_webhooks_def sample_payment_id
  by (simp add: relay_ext_def add_delivery_def inbox_claim_def claim_row_def sample_run)

lemma fan_out_witness:
  "\<exists>(w' :: world) new. webhook_deliveries (tables w') = webhook_deliveries shop_db @ [new] \<and>
     fresh_delivery 101 sample_endpoint new"
proof -
  have row: "row_at p_id 20 (payments (tables shop_world)) = Some (sample_payment 20 AUTHORIZED 400)"
    by (simp add: shop_world_def shop_db_def row_simps sample_payment_def)
  have subs: "subscribed (tables shop_world) (sample_payment 20 AUTHORIZED 400) ''payment.captured'' = [sample_endpoint]"
    by (simp add: subscribed_def shop_world_def shop_db_def sample_payment_def sample_endpoint_def)
  obtain w' where "atomically (process_payment_event_for_webhooks capture_ext 101 ''payment.captured''
     (envelope_dump sample_ext capture_event)) shop_world = (Inr True, w')"
    using ran [OF sample_process] ..
  from fan_out [OF this sample_payment_id row, unfolded subs] show ?thesis
    by (auto simp: list_all2_Cons1 shop_world_def)
qed

lemma sample_consume:
  "fst (consume_message capture_ext \<lparr>msg_key = ''k'', msg_value = ''v''\<rparr> shop_world) = Inr ()"
proof -
  have "decode_event_payload capture_ext ''v'' = Inr (envelope_dump sample_ext capture_event)"
    by (simp add: decode_event_payload_def relay_ext_def sample_event_def envelope_dump_def sample_ext_def)
  moreover have "fst (atomically (process_payment_event_for_webhooks capture_ext 101 (event_type_value PAYMENT_CAPTURED)
     (envelope_dump sample_ext capture_event)) shop_world) = Inr True"
    using sample_process by (simp add: enum_value_simps)
  ultimately show ?thesis
    by (auto simp: consume_message_def sample_event_def bind_op_def lift_sum_def ret_def split: prod.split)
qed

lemma redelivery_changes_nothing_witness:
  "\<exists>w1 w2. consume_message capture_ext \<lparr>msg_key = ''k'', msg_value = ''v''\<rparr>
     (run sample_ext [Dispatch (\<lambda>_. Inr 200)] w1) = (Inr (), w2)"
  using ran [OF sample_consume] redelivery_changes_nothing by blast

end
