(* ===== verification/Outbox.thy ===== *)
theory Outbox
  imports Transport "HOL-Library.Multiset"
begin

text \<open>
  The transactional outbox in every reachable world: its rows are well formed, what is marked
  published was sent and what was sent comes from the outbox, and rounds of the publisher with a
  broker that accepts drain it.
\<close>

section \<open>The rows of the outbox\<close>

text \<open>A row fits its columns and its envelope repeats the columns, at version 1.\<close>

definition outbox_row_ok :: "outbox_event \<Rightarrow> bool" where
  "outbox_row_ok e \<longleftrightarrow>
     outbox_data_ok e \<and>
     json_get ''event_id'' (o_payload e) = Inr (JStr (uuid_str (o_event_id e))) \<and>
     json_get ''event_type'' (o_payload e) = Inr (JStr (o_event_type e)) \<and>
     json_get ''aggregate_id'' (o_payload e) = Inr (JStr (uuid_str (o_aggregate_id e))) \<and>
     json_get ''version'' (o_payload e) = Inr (JInt 1) \<and>
     event_type_of (o_event_type e) \<noteq> None"

definition outbox_ok :: "db \<Rightarrow> bool" where
  "outbox_ok d \<longleftrightarrow> distinct (map o_event_id (outbox_events d)) \<and> list_all outbox_row_ok (outbox_events d)"

lemma outbox_ok_append:
  "outbox_ok d \<Longrightarrow> outbox_integrity_ok d e \<Longrightarrow> outbox_row_ok e \<Longrightarrow>
     outbox_ok (d\<lparr>outbox_events := outbox_events d @ [e]\<rparr>)"
  by (auto simp: outbox_ok_def outbox_integrity_ok_def)

lemma append_outbox_ok:
  assumes "outbox_ok (tables w)"
  shows "wp (append_outbox ext ty agg atype payload corr) (\<lambda>_ v. outbox_ok (tables v)) (\<lambda>_ v. outbox_ok (tables v)) w"
  unfolding append_outbox_def new_envelope_def fresh_id_def now_def insert_outbox_def Let_def
  using assms
  by (auto simp: wp_simps outbox_row_ok_def event_type_codec.decode_encode intro!: outbox_ok_append)

lemma keeps_wp:
  assumes "\<And>w. I w \<Longrightarrow> wp m (\<lambda>_. I) (\<lambda>_. I) w"
  shows "keeps I m"
  unfolding keeps_def
proof (intro allI impI)
  fix w assume "I w"
  from assms [OF this] show "I (snd (m w))" by (auto simp: wp_def split: prod.splits sum.splits)
qed

lemma keeps_append_outbox: "keeps (on_tables outbox_ok) (append_outbox ext ty agg atype payload corr)"
  by (rule keeps_wp, rule wp_mono [OF append_outbox_ok]) (simp_all add: on_tables_def)

lemma outbox_ok_other [simp]:
  "outbox_ok (d\<lparr>payments := a\<rparr>) = outbox_ok d" "outbox_ok (d\<lparr>idempotency_records := b\<rparr>) = outbox_ok d"
  "outbox_ok (d\<lparr>ledger_accounts := c\<rparr>) = outbox_ok d" "outbox_ok (d\<lparr>journals := e\<rparr>) = outbox_ok d"
  "outbox_ok (d\<lparr>journal_entries := f\<rparr>) = outbox_ok d" "outbox_ok (d\<lparr>refunds := g\<rparr>) = outbox_ok d"
  "outbox_ok (d\<lparr>audit_logs := h\<rparr>) = outbox_ok d"
  by (simp_all add: outbox_ok_def)

text \<open>The operations of the repository but \<open>append_outbox\<close>, down to statements.\<close>

lemmas outbox_repository_defs = fresh_id_def now_def claim_idempotency_def complete_idempotency_def
  append_audit_def ensure_ledger_account_def add_line_def create_journal_def audit_payment_def

lemma keeps_outbox:
  "keeps (on_tables outbox_ok) (create_payment ext mid preq key corr)"
  "keeps (on_tables outbox_ok) (authorize_payment ext mid pid corr)"
  "keeps (on_tables outbox_ok) (capture_payment ext mid pid corr)"
  "keeps (on_tables outbox_ok) (cancel_payment ext mid pid corr)"
  "keeps (on_tables outbox_ok) (refund_payment ext mid pid rreq corr)"
  unfolding create_payment_def persist_payment_def authorize_payment_def capture_payment_def
    cancel_payment_def refund_payment_def table_statement_defs outbox_repository_defs
  by (intro keeps_intros keeps_append_outbox keeps_bind; simp add: keeps_raise split: exn.split)+

text \<open>Changing the bookkeeping columns of a row.\<close>

lemma outbox_ok_row_set:
  assumes "outbox_ok d" and "row_at o_event_id k (outbox_events d) = Some r" and "outbox_data_ok (f r)"
    and "\<And>e. o_event_id (f e) = o_event_id e \<and> o_event_type (f e) = o_event_type e \<and>
      o_aggregate_id (f e) = o_aggregate_id e \<and> o_payload (f e) = o_payload e"
  shows "outbox_ok (d\<lparr>outbox_events := row_set o_event_id k f (outbox_events d)\<rparr>)"
proof -
  have "outbox_row_ok x" if "x \<in> set (row_set o_event_id k f (outbox_events d))" for x
    using that assms in_set_row_set [of o_event_id "outbox_events d" k r x f] row_at_SomeD [OF assms(2)]
    by (auto simp: outbox_ok_def list_all_iff outbox_row_ok_def)
  moreover have "distinct (map o_event_id (row_set o_event_id k f (outbox_events d)))"
    using assms(1,4) by (simp add: outbox_ok_def map_key_row_set)
  ultimately show ?thesis by (simp add: outbox_ok_def list_all_iff)
qed

lemma keeps_publish_event: "keeps (on_tables outbox_ok) (publish_event ext k e)"
proof (rule keeps_wp)
  fix w assume "on_tables outbox_ok w"
  then have ok: "outbox_ok (tables w)" by (simp add: on_tables_def)
  note set = outbox_ok_row_set [OF ok]
  show "wp (publish_event ext k e) (\<lambda>_. on_tables outbox_ok) (\<lambda>_. on_tables outbox_ok) w"
    unfolding publish_event_def send_and_wait_def mark_published_def bump_publish_retry_def update_outbox_def now_def
    by (auto simp: wp_simps on_tables_def ok split: option.split intro!: set)
qed

lemma keeps_publish_rows: "(\<And>e. keeps I (publish_event ext k e)) \<Longrightarrow> keeps I (publish_rows ext k rows n)"
  by (induction rows arbitrary: n) (auto intro!: keeps_intros keeps_bind)

interpretation outbox: transaction_invariant ext outbox_ok for ext
  by unfold_locales
    ((rule wp_keeps, (rule keeps_outbox | rule keeps_authorize_block, rule keeps_outbox), assumption) |
     (rule wp_keeps, unfold publish_batch_def, intro keeps_intros keeps_bind keeps_publish_rows
       keeps_publish_event, assumption) |
     (rule wp_frame_keeps, rule frame_rules, simp add: outbox_ok_def, assumption))+

lemma run_outbox_ok: "outbox_ok (tables (run ext as initial_world))"
proof -
  have "on_tables outbox_ok initial_world"
    by (simp add: on_tables_def initial_world_def outbox_ok_def empty_db_def)
  then have "on_tables outbox_ok (run ext as initial_world)"
    unfolding run_def by (rule outbox.machine.run_inv)
  then show ?thesis by (simp add: on_tables_def)
qed

section \<open>Publishing\<close>

text \<open>The events still to be published.\<close>

definition unpublished :: "db \<Rightarrow> outbox_event list" where
  "unpublished d = filter (\<lambda>e. published_at e = None) (outbox_events d)"

definition accepting :: broker where
  "accepting = \<lparr>broker_up = True, accepts = (\<lambda>_. True)\<rparr>"

lemma unpublished_row_set:
  "unpublished (d\<lparr>outbox_events := row_set o_event_id k (\<lambda>e. e\<lparr>published_at := Some t\<rparr>) (outbox_events d)\<rparr>) =
     filter (\<lambda>e. o_event_id e \<noteq> k) (unpublished d)"
proof -
  have "filter (\<lambda>e. published_at e = None) (row_set o_event_id k (\<lambda>e. e\<lparr>published_at := Some t\<rparr>) es) =
      filter (\<lambda>e. o_event_id e \<noteq> k) (filter (\<lambda>e. published_at e = None) es)" for es
    by (induction es) (auto simp: row_set_def)
  then show ?thesis by (simp add: unpublished_def)
qed

text \<open>An accepted event is published, and the transaction cannot fail on well-formed rows.\<close>

lemma publish_event_accepted:
  assumes "outbox_ok (tables w)"
  shows "wp (publish_event ext accepting e)
    (\<lambda>_ v. unpublished (tables v) = filter (\<lambda>x. o_event_id x \<noteq> o_event_id e) (unpublished (tables w)) \<and>
       outbox_ok (tables v) \<and> deferred v = deferred w) (\<lambda>_ _. False) w"
proof -
  have ok: "outbox_data_ok r" if "row_at o_event_id (o_event_id e) (outbox_events (tables w)) = Some r" for r
    using row_at_SomeD [OF that] assms by (auto simp: outbox_ok_def list_all_iff outbox_row_ok_def)
  have absent: "filter (\<lambda>x. o_event_id x \<noteq> o_event_id e) (unpublished (tables w)) = unpublished (tables w)"
    if "row_at o_event_id (o_event_id e) (outbox_events (tables w)) = None"
    using that unfolding row_at_None_iff unpublished_def by (intro filter_True) (auto intro: rev_image_eqI)
  show ?thesis
    unfolding publish_event_def send_and_wait_def accepting_def mark_published_def update_outbox_def now_def
    using ok
    by (auto simp: wp_simps absent assms unpublished_row_set outbox_data_ok_def split: option.split
        intro!: outbox_ok_row_set [OF assms])
qed

lemma publish_rows_accepted:
  assumes "outbox_ok (tables w)"
  shows "wp (publish_rows ext accepting rows n)
    (\<lambda>_ v. unpublished (tables v) = filter (\<lambda>x. o_event_id x \<notin> o_event_id ` set rows) (unpublished (tables w)) \<and>
       deferred v = deferred w) (\<lambda>_ _. False) w"
  using assms
proof (induction rows arbitrary: n w)
  case Nil
  then show ?case by (simp add: wp_simps)
next
  case (Cons e rows)
  show ?case
    unfolding publish_rows.simps wp_bind
  proof (rule wp_mono [OF publish_event_accepted [OF Cons.prems]])
    fix a and v :: world
    assume v: "unpublished (tables v) = filter (\<lambda>x. o_event_id x \<noteq> o_event_id e) (unpublished (tables w)) \<and>
       outbox_ok (tables v) \<and> deferred v = deferred w"
    then have ok: "outbox_ok (tables v)" by simp
    show "wp (publish_rows ext accepting rows (n + a)) (\<lambda>_ v. unpublished (tables v) =
        filter (\<lambda>x. o_event_id x \<notin> o_event_id ` set (e # rows)) (unpublished (tables w)) \<and>
        deferred v = deferred w) (\<lambda>_ _. False) v"
      by (rule wp_mono [OF Cons.IH [OF ok]]) (use v in \<open>auto intro!: filter_cong\<close>)
  qed simp
qed

lemma length_filter_mset:
  assumes "mset us = mset rows + mset rest" and "\<And>x. x \<in> set rows \<Longrightarrow> \<not> P x"
  shows "length (filter P us) \<le> length rest"
proof -
  have "filter_mset P (mset us) = filter_mset P (mset rows) + filter_mset P (mset rest)"
    unfolding assms(1) by (rule filter_union_mset)
  moreover have "filter_mset P (mset rows) = {#}" using assms(2) by (auto simp: multiset_eq_iff)
  ultimately have "size (filter_mset P (mset us)) = size (filter_mset P (mset rest))" by simp
  also have "\<dots> \<le> size (mset rest)" by (rule size_filter_mset_lesseq)
  finally show ?thesis by (simp flip: mset_filter)
qed

text \<open>One round publishes a hundred events, or all of them.\<close>

lemma publish_round:
  assumes "outbox_ok (tables w)"
  shows "length (unpublished (tables (perform ext (Publish accepting) w))) \<le> length (unpublished (tables w)) - 100"
proof -
  let ?w = "w\<lparr>deferred := []\<rparr>" and ?us = "unpublished (tables w)"
  let ?rows = "pending_outbox 100 (tables w)" and ?rest = "drop 100 (sort_key o_created_at ?us)"
  have parts: "mset ?us = mset ?rows + mset ?rest"
    unfolding pending_outbox_def unpublished_def [symmetric]
    by (metis append_take_drop_id mset_append mset_sort)
  have "wp (publish_batch ext accepting)
      (\<lambda>_ v. unpublished (tables v) = filter (\<lambda>x. o_event_id x \<notin> o_event_id ` set ?rows) ?us \<and> deferred v = [])
      (\<lambda>_ _. False) ?w"
    unfolding publish_batch_def using assms
    by (auto simp: wp_simps unpublished_def intro!: wp_mono [OF publish_rows_accepted])
  then obtain n v where v: "atomically (publish_batch ext accepting) w = (Inr n, v)"
    "unpublished (tables v) = filter (\<lambda>x. o_event_id x \<notin> o_event_id ` set ?rows) ?us"
    by (auto simp: wp_def atomically_def split: prod.splits sum.splits)
  have "length (unpublished (tables v)) \<le> length ?rest"
    unfolding v(2) by (rule length_filter_mset [OF parts]) auto
  then show ?thesis using v(1) by (simp add: publish_once_def accepting_def)
qed

lemma publish_rounds:
  assumes "outbox_ok (tables w)"
  shows "length (unpublished (tables (run ext (replicate n (Publish accepting)) w))) \<le>
    length (unpublished (tables w)) - 100 * n"
  using assms
proof (induction n arbitrary: w)
  case 0
  then show ?case by (simp add: run_def)
next
  case (Suc n)
  let ?v = "perform ext (Publish accepting) w"
  have "outbox_ok (tables ?v)"
    using outbox.perform_keeps [of w ext "Publish accepting"] Suc.prems by (simp add: on_tables_def)
  from Suc.IH [OF this] publish_round [OF Suc.prems, of ext] show ?case by (simp add: run_def)
qed

text \<open>
  C28: the outbox drains: from any reachable world, as many rounds of the publisher as there are
  hundreds of pending events, with a broker that accepts, publish every event.
\<close>

theorem outbox_drains:
  "let w = run ext as initial_world; rounds = (length (unpublished (tables w)) + 99) div 100 in
   unpublished (tables (run ext' (replicate rounds (Publish accepting)) w)) = []"
proof -
  have "length (unpublished (tables (run ext' (replicate n (Publish accepting)) (run ext as initial_world)))) = 0"
    if "length (unpublished (tables (run ext as initial_world))) \<le> 100 * n" for n
    using publish_rounds [OF run_outbox_ok, of ext' n ext as] that by simp
  then show ?thesis by (simp add: Let_def)
qed

section \<open>The outbox and the topic\<close>

text \<open>What is marked published is among the messages \<open>sent\<close>, and those come from the outbox.\<close>

definition relayed :: "ext \<Rightarrow> message list \<Rightarrow> db \<Rightarrow> bool" where
  "relayed ext sent d \<longleftrightarrow>
     event_message ext ` set (filter (\<lambda>e. published_at e \<noteq> None) (outbox_events d)) \<subseteq> set sent \<and>
     set sent \<subseteq> event_message ext ` set (outbox_events d)"

lemma relayed_append:
  "relayed ext sent d \<Longrightarrow> published_at e = None \<Longrightarrow> relayed ext sent (d\<lparr>outbox_events := outbox_events d @ [e]\<rparr>)"
  by (auto simp: relayed_def)

lemma relayed_other [simp]:
  "relayed ext s (d\<lparr>payments := a\<rparr>) = relayed ext s d" "relayed ext s (d\<lparr>idempotency_records := b\<rparr>) = relayed ext s d"
  "relayed ext s (d\<lparr>ledger_accounts := c\<rparr>) = relayed ext s d" "relayed ext s (d\<lparr>journals := e\<rparr>) = relayed ext s d"
  "relayed ext s (d\<lparr>journal_entries := f\<rparr>) = relayed ext s d" "relayed ext s (d\<lparr>refunds := g\<rparr>) = relayed ext s d"
  "relayed ext s (d\<lparr>audit_logs := h\<rparr>) = relayed ext s d"
  by (simp_all add: relayed_def)

lemma keeps_relayed_append: "keeps (on_tables (relayed ext' s)) (append_outbox ext ty agg atype payload corr)"
proof (rule keeps_wp)
  fix w assume "on_tables (relayed ext' s) w"
  then have r: "relayed ext' s (tables w)" by (simp add: on_tables_def)
  show "wp (append_outbox ext ty agg atype payload corr) (\<lambda>_. on_tables (relayed ext' s))
      (\<lambda>_. on_tables (relayed ext' s)) w"
    unfolding append_outbox_def new_envelope_def fresh_id_def now_def insert_outbox_def Let_def
    by (auto simp: wp_simps on_tables_def r intro!: relayed_append)
qed

lemma keeps_relayed:
  "keeps (on_tables (relayed ext' s)) (create_payment ext mid preq key corr)"
  "keeps (on_tables (relayed ext' s)) (authorize_payment ext mid pid corr)"
  "keeps (on_tables (relayed ext' s)) (capture_payment ext mid pid corr)"
  "keeps (on_tables (relayed ext' s)) (cancel_payment ext mid pid corr)"
  "keeps (on_tables (relayed ext' s)) (refund_payment ext mid pid rreq corr)"
  unfolding create_payment_def persist_payment_def authorize_payment_def capture_payment_def
    cancel_payment_def refund_payment_def table_statement_defs outbox_repository_defs
  by (intro keeps_intros keeps_relayed_append keeps_bind; simp add: keeps_raise split: exn.split)+

interpretation relay: request_invariant ext "relayed ext' s" for ext ext' s
  by unfold_locales
    ((rule wp_keeps, (rule keeps_relayed | rule keeps_authorize_block, rule keeps_relayed), assumption) |
     (rule wp_frame_keeps, rule frame_rules, simp add: relayed_def, assumption))+

text \<open>No request sends anything to the broker.\<close>

lemma frames_topic_atomically: "frames topic m \<Longrightarrow> frames topic (atomically m)"
  by (rule frames_atomically) (simp_all add: rollback_def)

lemma frames_topic_transactions:
  "frames topic (create_merchant ext mreq corr)" "frames topic (create_customer ext mid creq corr)"
  "frames topic (fund_account ext mid aid freq corr)" "frames topic (create_payment ext mid preq key corr)"
  "frames topic (authorize_block ext mid pid corr)" "frames topic (capture_payment ext mid pid corr)"
  "frames topic (cancel_payment ext mid pid corr)" "frames topic (refund_payment ext mid pid rreq corr)"
  "frames topic (register_webhook ext mid wreq corr)" "frames topic (rotate_webhook_secret ext mid eid corr)"
  "frames topic (replay_delivery ext mid did corr)" "frames topic (dispatch_batch ext reply)"
  "frames topic (process_payment_event_for_webhooks ext i t j)"
  by (rule frames_mono, rule frame_rules, simp)+

lemma frames_require_api_key: "frames v (require_api_key ext corr auth)"
  unfolding require_api_key_def Let_def by (intro frame_intros)

lemma frames_topic_serve: "frames topic (serve ext raw auth req)"
proof -
  have "frames topic (route ext corr auth req)" for corr
    by (cases req; simp only: route.simps with_status_def create_merchant_route_def
        create_customer_route_def fund_account_route_def create_payment_route_def get_payment_route_def
        authorize_route_def capture_route_def cancel_route_def refund_route_def
        register_webhook_route_def rotate_webhook_secret_route_def replay_webhook_delivery_route_def)
      (intro frame_intros frames_require_api_key frames_topic_atomically frames_topic_transactions)+
  then show ?thesis
    unfolding serve_def correlation_id_of_def fresh_id_def by (intro frame_intros) simp_all
qed

lemma frames_topic_consume_message: "frames topic (consume_message ext m)"
  unfolding consume_message_def
  by (intro frame_intros frames_topic_atomically frames_topic_transactions)

text \<open>In the world: the messages sent so far are the topic.\<close>

definition topic_ok :: "ext \<Rightarrow> world \<Rightarrow> bool" where
  "topic_ok ext w \<longleftrightarrow> relayed ext (topic w) (tables w)"

lemma keeps_topic_ok:
  assumes "\<And>s. keeps (on_tables (relayed ext s)) m" and "frames topic m"
  shows "keeps (topic_ok ext) m"
  unfolding keeps_def topic_ok_def
proof (intro allI impI)
  fix w :: world assume "relayed ext (topic w) (tables w)"
  then show "relayed ext (topic (snd (m w))) (tables (snd (m w)))"
    using keepsD [OF assms(1), of "topic w" w] framesD [OF assms(2), of w] by (simp add: on_tables_def)
qed

text \<open>The same event: the publisher changes only the bookkeeping columns of a row.\<close>

definition same_event :: "outbox_event \<Rightarrow> outbox_event \<Rightarrow> bool" where
  "same_event e x \<longleftrightarrow> o_event_id x = o_event_id e \<and> o_payload x = o_payload e"

lemma same_event_message: "same_event e x \<Longrightarrow> event_message ext x = event_message ext e"
  by (simp add: same_event_def event_message_def)

lemma list_all2_left: "list_all2 P xs ys \<Longrightarrow> x \<in> set xs \<Longrightarrow> \<exists>y \<in> set ys. P x y"
  by (auto simp: list_all2_iff in_set_conv_nth set_zip) force

lemma list_all2_right: "list_all2 P xs ys \<Longrightarrow> y \<in> set ys \<Longrightarrow> \<exists>x \<in> set xs. P x y"
  by (auto simp: list_all2_iff in_set_conv_nth set_zip) force

lemma same_events_row_set:
  assumes "list_all2 same_event es xs" and "\<And>x. o_event_id (f x) = o_event_id x \<and> o_payload (f x) = o_payload x"
  shows "list_all2 same_event es (row_set o_event_id k f xs)"
  unfolding row_set_def list_all2_map2
  using assms(1) by (rule list_all2_mono) (simp add: same_event_def assms(2))

lemma relayedI:
  "(\<And>e. e \<in> set (outbox_events d) \<Longrightarrow> published_at e \<noteq> None \<Longrightarrow> event_message ext e \<in> set s) \<Longrightarrow>
   (\<And>m. m \<in> set s \<Longrightarrow> \<exists>e \<in> set (outbox_events d). m = event_message ext e) \<Longrightarrow> relayed ext s d"
  by (auto simp: relayed_def image_iff)

lemma relayedD:
  "relayed ext s d \<Longrightarrow> e \<in> set (outbox_events d) \<Longrightarrow> published_at e \<noteq> None \<Longrightarrow> event_message ext e \<in> set s"
  "relayed ext s d \<Longrightarrow> m \<in> set s \<Longrightarrow> \<exists>e \<in> set (outbox_events d). m = event_message ext e"
  by (auto simp: relayed_def)

text \<open>
  While a batch is published: the topic agrees with the tables \<open>d\<close> the transaction would be rolled back
  to, and what is marked since then was sent.
\<close>

definition publishing :: "ext \<Rightarrow> db \<Rightarrow> world \<Rightarrow> bool" where
  "publishing ext d v \<longleftrightarrow>
     relayed ext (topic v) d \<and> list_all2 same_event (outbox_events d) (outbox_events (tables v)) \<and>
     (\<forall>x \<in> set (outbox_events (tables v)). published_at x \<noteq> None \<longrightarrow> event_message ext x \<in> set (topic v))"

lemma publishingD:
  assumes "publishing ext d v"
  shows "relayed ext (topic v) d" and "list_all2 same_event (outbox_events d) (outbox_events (tables v))"
    and "x \<in> set (outbox_events (tables v)) \<Longrightarrow> published_at x \<noteq> None \<Longrightarrow> event_message ext x \<in> set (topic v)"
  using assms by (auto simp: publishing_def)

lemma publishing_relayed:
  assumes "publishing ext d v"
  shows "relayed ext (topic v) (tables v)"
proof (rule relayedI)
  fix m assume "m \<in> set (topic v)"
  with relayedD(2) [OF publishingD(1) [OF assms]]
  obtain e where e: "e \<in> set (outbox_events d)" "m = event_message ext e" by blast
  obtain x where "x \<in> set (outbox_events (tables v))" "same_event e x"
    using list_all2_left [OF publishingD(2) [OF assms] e(1)] by blast
  then show "\<exists>x \<in> set (outbox_events (tables v)). m = event_message ext x"
    using e(2) same_event_message [of e x ext] by (intro bexI [of _ x]) auto
qed (rule publishingD(3) [OF assms])

lemma publishing_sent:
  assumes "publishing ext d v" and "e \<in> set (outbox_events d)"
  shows "publishing ext d (v\<lparr>topic := topic v @ [event_message ext e]\<rparr>)"
  using assms by (auto simp: publishing_def relayed_def)

lemma publishing_row_set:
  assumes "publishing ext d v"
    and "\<And>x. o_event_id (f x) = o_event_id x \<and> o_payload (f x) = o_payload x"
    and "\<And>x. x \<in> set (outbox_events (tables v)) \<Longrightarrow> o_event_id x = k \<Longrightarrow> published_at (f x) \<noteq> None \<Longrightarrow>
      event_message ext x \<in> set (topic v)"
  shows "publishing ext d (v\<lparr>tables := (tables v)\<lparr>outbox_events := row_set o_event_id k f (outbox_events (tables v))\<rparr>\<rparr>)"
proof -
  have "event_message ext (f x) = event_message ext x" for x by (simp add: event_message_def assms(2))
  then show ?thesis
    using assms by (auto simp: publishing_def same_events_row_set set_row_set)
qed

lemma publishing_same_id:
  assumes "publishing ext d v" and "outbox_ok d" and "e \<in> set (outbox_events d)"
    and "x \<in> set (outbox_events (tables v))" and "o_event_id x = o_event_id e"
  shows "event_message ext x = event_message ext e"
proof -
  obtain y where y: "y \<in> set (outbox_events d)" "same_event y x"
    using list_all2_right [OF publishingD(2) [OF assms(1)] assms(4)] by blast
  then have "y = e"
    using assms(2,3,5) by (auto simp: outbox_ok_def same_event_def distinct_map dest: inj_onD)
  then show ?thesis using y(2) same_event_message by blast
qed

lemma publish_event_publishing:
  assumes "outbox_ok d" and "e \<in> set (outbox_events d)" and "publishing ext d w"
  shows "wp (publish_event ext k e) (\<lambda>_. publishing ext d) (\<lambda>_. publishing ext d) w"
proof -
  let ?w = "w\<lparr>topic := topic w @ [event_message ext e]\<rparr>"
  have sent: "publishing ext d ?w" by (rule publishing_sent [OF assms(3,2)])
  have draw: "publishing ext d (v\<lparr>draws := n\<rparr>)" "publishing ext d (v\<lparr>counters := c\<rparr>)" if "publishing ext d v" for v n c
    using that by (simp_all add: publishing_def)
  have marked: "publishing ext d (v\<lparr>tables := (tables v)\<lparr>outbox_events :=
      row_set o_event_id (o_event_id e) (\<lambda>x. x\<lparr>published_at := Some t\<rparr>) (outbox_events (tables v))\<rparr>\<rparr>)"
    if v: "publishing ext d v" and m: "event_message ext e \<in> set (topic v)" for v t
    by (rule publishing_row_set [OF v]) (use publishing_same_id [OF v assms(1,2)] m in simp_all)
  have bumped: "publishing ext d (v\<lparr>tables := (tables v)\<lparr>outbox_events :=
      row_set o_event_id (o_event_id e) (\<lambda>x. x\<lparr>retry_count := retry_count x + 1\<rparr>) (outbox_events (tables v))\<rparr>\<rparr>)"
    if v: "publishing ext d v" for v
    by (rule publishing_row_set [OF v]) (use v in \<open>auto simp: publishing_def\<close>)
  show ?thesis
    unfolding publish_event_def send_and_wait_def mark_published_def bump_publish_retry_def update_outbox_def now_def
    using draw [OF sent] draw [OF assms(3)] marked [OF draw(1) [OF sent]] bumped [OF draw(2) [OF assms(3)]]
      draw(1) [OF assms(3)]
    by (auto simp: wp_simps split: option.split)
qed

lemma publish_rows_publishing:
  assumes "outbox_ok d" and "set rows \<subseteq> set (outbox_events d)" and "publishing ext d w"
  shows "wp (publish_rows ext k rows n) (\<lambda>_. publishing ext d) (\<lambda>_. publishing ext d) w"
  using assms(2,3)
proof (induction rows arbitrary: n w)
  case Nil
  then show ?case by (simp add: wp_simps)
next
  case (Cons e rows)
  then show ?case
    unfolding publish_rows.simps wp_bind
    by (intro wp_mono [OF publish_event_publishing [OF assms(1)]]) auto
qed

section \<open>Every action keeps the topic and the outbox together\<close>

definition transported :: "ext \<Rightarrow> world \<Rightarrow> bool" where
  "transported ext w \<longleftrightarrow> topic_ok ext w \<and> outbox_ok (tables w)"

lemma publish_once_transported:
  assumes "transported ext w"
  shows "topic_ok ext (snd (publish_once ext k w))"
proof -
  let ?w = "w\<lparr>deferred := []\<rparr>"
  have ok: "outbox_ok (tables w)" and start: "publishing ext (tables w) (?w\<lparr>counters := c\<rparr>)" for c
    using assms
    by (auto simp: transported_def topic_ok_def publishing_def list.rel_refl same_event_def dest: relayedD(1))
  have rows: "set (pending_outbox 100 (tables w)) \<subseteq> set (outbox_events (tables w))"
    by (auto simp: pending_outbox_def dest!: in_set_takeD)
  have "wp (publish_batch ext k) (\<lambda>_. publishing ext (tables w)) (\<lambda>_. publishing ext (tables w)) ?w"
    unfolding publish_batch_def
    using publish_rows_publishing [OF ok rows start] by (simp add: wp_simps)
  then have "topic_ok ext (snd (atomically (publish_batch ext k) w))"
    by (auto simp: wp_def atomically_def rollback_def topic_ok_def split: prod.splits sum.splits
        dest: publishing_relayed publishingD(1))
  then show ?thesis using assms by (simp add: publish_once_def transported_def ret_def)
qed

lemma keeps_topic_frame:
  assumes "frames topic m" and "frames (\<lambda>w. outbox_events (tables w)) m"
  shows "keeps (topic_ok ext) m"
  using framesD [OF assms(1)] framesD [OF assms(2)] by (auto simp: keeps_def topic_ok_def relayed_def)

lemma frames_outbox_atomically:
  "frames (\<lambda>w. outbox_events (tables w)) m \<Longrightarrow> frames (\<lambda>w. outbox_events (tables w)) (atomically m)"
  by (rule frames_atomically) (simp_all add: rollback_def)

lemma frames_outbox_workers:
  "frames (\<lambda>w. outbox_events (tables w)) (consume_message ext m)"
  "frames (\<lambda>w. outbox_events (tables w)) (dispatch_once ext reply)"
proof -
  have "frames (\<lambda>w. outbox_events (tables w)) (process_payment_event_for_webhooks ext i t j)" for i t j
    by (rule frames_mono, rule frame_rules, simp)
  then show "frames (\<lambda>w. outbox_events (tables w)) (consume_message ext m)"
    unfolding consume_message_def by (intro frame_intros frames_outbox_atomically)
  have "frames (\<lambda>w. outbox_events (tables w)) (dispatch_batch ext reply)"
    by (rule frames_mono, rule frame_rules, simp)
  then show "frames (\<lambda>w. outbox_events (tables w)) (dispatch_once ext reply)"
    unfolding dispatch_once_def by (rule frames_outbox_atomically)
qed

lemma perform_topic_ok:
  assumes "transported ext w"
  shows "topic_ok ext (perform ext a w)"
proof -
  have start: "topic_ok ext w" using assms by (simp add: transported_def)
  show ?thesis
  proof (cases a)
    case (Serve raw auth req)
    have "keeps (topic_ok ext) (serve ext raw auth req)"
      by (rule keeps_topic_ok [OF relay.keeps_serve frames_topic_serve])
    from keepsD [OF this start] show ?thesis by (simp add: Serve)
  next
    case (Publish k)
    then show ?thesis using publish_once_transported [OF assms] by simp
  next
    case (Consume ms)
    have "keeps (topic_ok ext) (consume_message ext m)" for m
      by (rule keeps_topic_frame [OF frames_topic_consume_message frames_outbox_workers(1)])
    from keeps_consume [OF this start] show ?thesis by (simp add: Consume)
  next
    case (Dispatch reply)
    have "frames topic (dispatch_once ext reply)"
      unfolding dispatch_once_def by (intro frames_topic_atomically frames_topic_transactions)
    from keepsD [OF keeps_topic_frame [OF this frames_outbox_workers(2)] start] show ?thesis
      by (simp add: Dispatch)
  qed
qed

interpretation transport: invariant_machine "perform ext" "transported ext" for ext
proof unfold_locales
  fix w a assume t: "transported ext w"
  then have "outbox_ok (tables (perform ext a w))"
    using outbox.perform_keeps [of w ext a] by (simp add: transported_def on_tables_def)
  then show "transported ext (perform ext a w)"
    using perform_topic_ok [OF t] by (simp add: transported_def)
qed

text \<open>
  C27: the outbox guarantee.  In every reachable world, every event that is marked published was sent
  to the topic, also when the transaction around it was rolled back later, and every message on the
  topic is the message of a row of the outbox.
\<close>

theorem outbox_guarantee:
  "let w = run ext as initial_world; es = outbox_events (tables w) in
   event_message ext ` set (filter (\<lambda>e. published_at e \<noteq> None) es) \<subseteq> set (topic w) \<and>
   set (topic w) \<subseteq> event_message ext ` set es"
proof -
  have "transported ext initial_world"
    by (simp add: transported_def topic_ok_def relayed_def outbox_ok_def initial_world_def empty_db_def)
  then have "transported ext (run ext as initial_world)" unfolding run_def by (rule transport.run_inv)
  then show ?thesis by (simp add: transported_def topic_ok_def relayed_def Let_def)
qed

end
