(* ===== verification/Deliveries.thy ===== *)
theory Deliveries
  imports Outbox
begin

text \<open>
  Webhook deliveries as a state machine.  \<open>delivery_step\<close> is the abstract specification of the life of
  one delivery; the dispatcher, the fan-out and the replay endpoint only create fresh deliveries and
  only take these steps, so that the invariants of the rows follow by rule induction.
\<close>

section \<open>The life of a delivery\<close>

definition open_delivery :: "webhook_delivery \<Rightarrow> bool" where
  "open_delivery r \<longleftrightarrow> d_status r \<in> {''PENDING'', ''RETRY''}"

inductive delivery_step :: "int \<Rightarrow> webhook_delivery \<Rightarrow> webhook_delivery \<Rightarrow> bool" for m where
  delivered: "open_delivery r \<Longrightarrow>
    delivery_step m r (r\<lparr>attempts := attempts r + 1, d_status := ''SUCCEEDED''\<rparr>)"
| abandoned: "open_delivery r \<Longrightarrow>
    delivery_step m r (r\<lparr>attempts := attempts r + 1, d_status := ''DEAD_LETTER'', last_error := Some e\<rparr>)"
| retried: "open_delivery r \<Longrightarrow> attempts r + 1 < m \<Longrightarrow>
    delivery_step m r (r\<lparr>attempts := attempts r + 1, d_status := ''RETRY'', next_attempt_at := Some t, last_error := e\<rparr>)"
| orphaned: "open_delivery r \<Longrightarrow> delivery_step m r (r\<lparr>d_status := ''DEAD_LETTER''\<rparr>)"
| replayed: "delivery_step m r (r\<lparr>d_status := ''PENDING'', next_attempt_at := None,
    last_error := Some ''manual replay requested''\<rparr>)"

inductive_cases delivery_stepE: "delivery_step m r r'"

lemma retried_again:
  "open_delivery r \<Longrightarrow> attempts r + 1 < m \<Longrightarrow>
     delivery_step m r (r\<lparr>attempts := attempts r + 1, d_status := ''RETRY'', next_attempt_at := Some t\<rparr>)"
  using delivery_step.retried [where r = r and e = "last_error r"] by simp

lemmas dispatcher_steps = delivered abandoned retried retried_again orphaned

abbreviation delivery_steps :: "int \<Rightarrow> webhook_delivery \<Rightarrow> webhook_delivery \<Rightarrow> bool" where
  "delivery_steps m \<equiv> (delivery_step m)\<^sup>*\<^sup>*"

text \<open>The deliveries that start a life, and the ones that have lived.\<close>

definition newborn :: "webhook_delivery \<Rightarrow> bool" where
  "newborn r \<longleftrightarrow> d_status r = ''PENDING'' \<and> attempts r = 0 \<and> next_attempt_at r = None \<and> last_error r = None"

definition lived :: "int \<Rightarrow> webhook_delivery \<Rightarrow> bool" where
  "lived m r \<longleftrightarrow> (\<exists>r0. newborn r0 \<and> delivery_steps m r0 r)"

lemma step_keys:
  "delivery_step m r r' \<Longrightarrow>
     d_id r' = d_id r \<and> d_endpoint_id r' = d_endpoint_id r \<and> d_event_id r' = d_event_id r \<and>
     d_created_at r' = d_created_at r \<and> attempts r \<le> attempts r'"
  by (erule delivery_stepE) auto

lemma steps_keys:
  "delivery_steps m r r' \<Longrightarrow>
     d_id r' = d_id r \<and> d_endpoint_id r' = d_endpoint_id r \<and> d_event_id r' = d_event_id r \<and>
     d_created_at r' = d_created_at r \<and> attempts r \<le> attempts r'"
  by (induction rule: rtranclp_induct) (auto dest: step_keys)

text \<open>The rows that satisfy what the dispatcher and the API rely on.\<close>

definition delivery_row_ok :: "int \<Rightarrow> webhook_delivery \<Rightarrow> bool" where
  "delivery_row_ok m r \<longleftrightarrow>
     0 \<le> attempts r \<and>
     (if d_status r = ''PENDING'' then next_attempt_at r = None
      else if d_status r = ''RETRY'' then 1 \<le> attempts r \<and> attempts r < m \<and> next_attempt_at r \<noteq> None
      else if d_status r = ''SUCCEEDED'' then 1 \<le> attempts r
      else d_status r = ''DEAD_LETTER'')"

lemma step_row_ok: "delivery_step m r r' \<Longrightarrow> delivery_row_ok m r \<Longrightarrow> delivery_row_ok m r'"
  by (erule delivery_stepE) (auto simp: delivery_row_ok_def split: if_splits)

lemma newborn_row_ok: "newborn r \<Longrightarrow> delivery_row_ok m r"
  by (simp add: newborn_def delivery_row_ok_def)

lemma lived_newborn: "newborn r \<Longrightarrow> lived m r"
  by (auto simp: lived_def)

lemma lived_step: "lived m r \<Longrightarrow> delivery_step m r r' \<Longrightarrow> lived m r'"
  unfolding lived_def by (blast intro: rtranclp.rtrancl_into_rtrancl)

lemma lived_row_ok: "lived m r \<Longrightarrow> delivery_row_ok m r"
proof -
  assume "lived m r"
  then obtain r0 where "delivery_steps m r0 r" "newborn r0" by (auto simp: lived_def)
  then show ?thesis
    by (induction rule: rtranclp_induct) (simp_all add: newborn_row_ok step_row_ok)
qed

text \<open>
  The attempts a delivery has left before it is given up.  Every attempt uses one up, so that without
  a manual replay a delivery leaves the dispatcher's queue after finitely many of them.
\<close>

definition attempts_left :: "int \<Rightarrow> webhook_delivery \<Rightarrow> nat" where
  "attempts_left m r = (if open_delivery r then max 1 (nat (m - attempts r)) else 0)"

lemma step_attempts_left:
  "delivery_step m r r' \<Longrightarrow> open_delivery r \<Longrightarrow> attempts r' = attempts r + 1 \<or> d_status r' = ''DEAD_LETTER'' \<Longrightarrow>
     attempts_left m r' < attempts_left m r"
  by (erule delivery_stepE) (auto simp: attempts_left_def open_delivery_def)

section \<open>The table of deliveries\<close>

definition put_delivery :: "webhook_delivery \<Rightarrow> webhook_delivery list \<Rightarrow> webhook_delivery list" where
  "put_delivery r ds = map (\<lambda>x. if d_id x = d_id r then r else x) ds"

lemma row_set_put_delivery:
  assumes "distinct (map d_id ds)" and "r \<in> set ds" and "d_id (f r) = d_id r"
  shows "row_set d_id (d_id r) f ds = put_delivery (f r) ds"
proof -
  have "x = r" if "x \<in> set ds" "d_id x = d_id r" for x
    using assms(1,2) that by (auto simp: distinct_map dest: inj_onD)
  then show ?thesis using assms(3) by (auto simp: row_set_def put_delivery_def)
qed

definition delivery_key :: "webhook_delivery \<Rightarrow> uuid \<times> uuid" where
  "delivery_key r = (d_endpoint_id r, d_event_id r)"

text \<open>
  A later version \<open>d\<close> of a database with the deliveries \<open>ds\<close>: they are still there, as far as their
  lives have gone, every delivery has lived, and keys are unique.
\<close>

definition deliveries_from :: "int \<Rightarrow> webhook_delivery list \<Rightarrow> db \<Rightarrow> bool" where
  "deliveries_from m ds d \<longleftrightarrow>
     distinct (map d_id (webhook_deliveries d)) \<and> distinct (map delivery_key (webhook_deliveries d)) \<and>
     (\<forall>r \<in> set ds. \<exists>r' \<in> set (webhook_deliveries d). delivery_steps m r r') \<and>
     (\<forall>r \<in> set (webhook_deliveries d). lived m r)"

lemma deliveries_from_put:
  assumes "deliveries_from m ds d" and "r \<in> set (webhook_deliveries d)" and "delivery_step m r r'"
  shows "deliveries_from m ds (d\<lparr>webhook_deliveries := put_delivery r' (webhook_deliveries d)\<rparr>)"
proof -
  let ?ds = "webhook_deliveries d"
  have id: "d_id r' = d_id r" "delivery_key r' = delivery_key r"
    using step_keys [OF assms(3)] by (simp_all add: delivery_key_def)
  have only: "x = r" if "x \<in> set ?ds" "d_id x = d_id r" for x
    using assms(1,2) that by (auto simp: deliveries_from_def distinct_map dest: inj_onD)
  have keys: "map d_id (put_delivery r' ?ds) = map d_id ?ds" "map delivery_key (put_delivery r' ?ds) = map delivery_key ?ds"
    using only id by (auto simp: put_delivery_def)
  have next_row: "\<exists>y \<in> set (put_delivery r' ?ds). delivery_steps m x y" if "x \<in> set ?ds" for x
  proof (cases "d_id x = d_id r")
    case True
    then have "delivery_steps m x r'" using only [OF that] assms(3) by auto
    then show ?thesis using that True id by (auto simp: put_delivery_def)
  next
    case False
    then show ?thesis using that id by (force simp: put_delivery_def)
  qed
  have "\<exists>y \<in> set (put_delivery r' ?ds). delivery_steps m x y" if x: "x \<in> set ds" for x
  proof -
    obtain z where "z \<in> set ?ds" "delivery_steps m x z" using assms(1) x by (auto simp: deliveries_from_def)
    with next_row [of z] show ?thesis by (meson rtranclp_trans)
  qed
  moreover have "lived m r'"
    using assms by (auto simp: deliveries_from_def intro: lived_step)
  then have "lived m y" if "y \<in> set (put_delivery r' ?ds)" for y
    using that assms(1) by (auto simp: put_delivery_def deliveries_from_def split: if_splits)
  ultimately show ?thesis using assms(1) keys by (simp add: deliveries_from_def)
qed

lemma deliveries_from_append:
  assumes "deliveries_from m ds d" and "delivery_integrity_ok d r" and "newborn r"
  shows "deliveries_from m ds (d\<lparr>webhook_deliveries := webhook_deliveries d @ [r]\<rparr>)"
proof -
  have "lived m r" using assms(3) by (rule lived_newborn)
  moreover have "delivery_key r \<notin> delivery_key ` set (webhook_deliveries d)"
    using assms(2) by (auto simp: delivery_integrity_ok_def delivery_key_def)
  ultimately show ?thesis
    using assms(1,2) unfolding deliveries_from_def delivery_integrity_ok_def by auto
qed

section \<open>The dispatcher takes steps\<close>

text \<open>The row of a delivery moved on by one step, or stayed as it was.\<close>

definition stepped :: "int \<Rightarrow> webhook_delivery \<Rightarrow> webhook_delivery list \<Rightarrow> webhook_delivery list \<Rightarrow> bool" where
  "stepped m r ds ds' \<longleftrightarrow> (\<exists>r'. delivery_step m r r' \<and> ds' = put_delivery r' ds \<and>
     (open_delivery r \<longrightarrow> attempts_left m r' < attempts_left m r))"

lemma set_delivery_rule:
  assumes "distinct (map d_id (webhook_deliveries (tables w)))" and "r \<in> set (webhook_deliveries (tables w))"
    and "d_id (f r) = d_id r"
    and "Q () (w\<lparr>tables := (tables w)\<lparr>webhook_deliveries := put_delivery (f r) (webhook_deliveries (tables w))\<rparr>\<rparr>)"
  shows "wp (set_delivery r f) Q (\<lambda>_ _. True) w"
proof -
  have "row_at d_id (d_id r) (webhook_deliveries (tables w)) = Some r"
    using assms(1,2) by (simp add: row_at_Some_iff)
  then show ?thesis
    using assms(4) row_set_put_delivery [where f = f, OF assms(1-3)]
    by (simp add: set_delivery_def update_delivery_def wp_simps)
qed

lemma dispatch_delivery_steps:
  assumes "distinct (map d_id (webhook_deliveries (tables w)))" and "r \<in> set (webhook_deliveries (tables w))"
    and "open_delivery r"
  shows "wp (dispatch_delivery ext reply r)
    (\<lambda>_ v. stepped (webhook_max_attempts ext) r (webhook_deliveries (tables w)) (webhook_deliveries (tables v)))
    (\<lambda>_ _. True) w"
proof -
  let ?m = "webhook_max_attempts ext" and ?ds = "webhook_deliveries (tables w)"
  have step: "stepped ?m r ?ds (put_delivery r' ?ds)"
    if "delivery_step ?m r r'" "attempts r' = attempts r + 1 \<or> d_status r' = ''DEAD_LETTER''" for r'
    using that step_attempts_left [OF that(1) assms(3) that(2)] by (auto simp: stepped_def)
  show ?thesis
    unfolding dispatch_delivery_def Let_def active_webhook_secret_def post_webhook_def on_response_def
      on_http_error_def count_failure_def retry_at_def now_def
    by (auto simp: wp_simps assms(1,2) not_le simp del: set_delivery_books split: option.split sum.split
        intro!: set_delivery_rule step intro: dispatcher_steps [OF assms(3)])
qed

lemma put_delivery_other:
  "x \<in> set ds \<Longrightarrow> d_id x \<noteq> d_id r \<Longrightarrow> x \<in> set (put_delivery r ds)"
  by (force simp: put_delivery_def)

lemma dispatch_all_from:
  assumes "deliveries_from (webhook_max_attempts ext) ds (tables w)"
    and "set rows \<subseteq> set (webhook_deliveries (tables w))" and "distinct (map d_id rows)"
    and "list_all open_delivery rows"
  shows "wp (dispatch_all ext reply rows n)
    (\<lambda>_ v. deliveries_from (webhook_max_attempts ext) ds (tables v)) (\<lambda>_ _. True) w"
  using assms
proof (induction rows arbitrary: n w)
  case Nil
  then show ?case by (simp add: wp_simps)
next
  case (Cons r rows)
  let ?m = "webhook_max_attempts ext" and ?ds = "webhook_deliveries (tables w)"
  have r: "r \<in> set ?ds" "open_delivery r" "distinct (map d_id ?ds)"
    using Cons.prems by (auto simp: deliveries_from_def)
  show ?case
    unfolding dispatch_all.simps wp_bind
  proof (rule wp_mono [OF dispatch_delivery_steps [OF r(3,1,2)]])
    fix a and v :: world
    assume "stepped ?m r ?ds (webhook_deliveries (tables v))"
    then obtain r' where r': "delivery_step ?m r r'" "webhook_deliveries (tables v) = put_delivery r' ?ds"
      by (auto simp: stepped_def)
    have "deliveries_from ?m ds ((tables w)\<lparr>webhook_deliveries := put_delivery r' ?ds\<rparr>)"
      using Cons.prems(1) r(1) r'(1) by (rule deliveries_from_put)
    then have "deliveries_from ?m ds (tables v)" by (simp add: deliveries_from_def r'(2))
    moreover have "set rows \<subseteq> set (webhook_deliveries (tables v))"
    proof
      fix x assume "x \<in> set rows"
      moreover from this have "d_id x \<noteq> d_id r'" using Cons.prems(3) step_keys [OF r'(1)] by (auto simp: image_iff)
      ultimately show "x \<in> set (webhook_deliveries (tables v))"
        using Cons.prems(2) r'(2) put_delivery_other by auto
    qed
    ultimately show "wp (dispatch_all ext reply rows (n + a)) (\<lambda>_ v. deliveries_from ?m ds (tables v)) (\<lambda>_ _. True) v"
      using Cons.prems(3,4) by (intro Cons.IH) auto
  qed simp
qed

lemma due_deliveries_open: "list_all open_delivery (due_deliveries ext n t d)"
  by (auto simp: due_deliveries_def open_delivery_def list_all_iff dest!: in_set_takeD)

lemma due_deliveries_rows: "set (due_deliveries ext n t d) \<subseteq> set (webhook_deliveries d)"
  by (auto simp: due_deliveries_def dest!: in_set_takeD)

lemma due_deliveries_distinct:
  "distinct (map d_id (webhook_deliveries d)) \<Longrightarrow> distinct (map d_id (due_deliveries ext n t d))"
  proof -
  assume "distinct (map d_id (webhook_deliveries d))"
  then have "distinct (map d_id (filter P (webhook_deliveries d)))" for P by (rule distinct_map_filter)
  then have "distinct (map d_id (sort_key f (filter P (webhook_deliveries d))))" for f :: "webhook_delivery \<Rightarrow> nat" and P
    by (simp add: distinct_map)
  then show ?thesis by (simp add: due_deliveries_def take_map [symmetric] distinct_take)
qed

lemma dispatch_batch_from:
  assumes "deliveries_from (webhook_max_attempts ext) ds (tables w)"
  shows "wp (dispatch_batch ext reply) (\<lambda>_ v. deliveries_from (webhook_max_attempts ext) ds (tables v)) (\<lambda>_ _. True) w"
  unfolding dispatch_batch_def now_def
  using assms due_deliveries_distinct [of "tables w"]
  by (auto simp: wp_simps deliveries_from_def [of _ _ "tables w"] due_deliveries_open
      intro!: dispatch_all_from dest: subsetD [OF due_deliveries_rows])

lemma add_delivery_from:
  "deliveries_from m ds (tables w) \<Longrightarrow>
     wp (add_delivery ext i t e) (\<lambda>_ v. deliveries_from m ds (tables v)) (\<lambda>_ _. True) w"
  unfolding add_delivery_def fresh_id_def now_def insert_delivery_def
  by (auto simp: wp_simps newborn_def intro!: deliveries_from_append)

lemma deliveries_from_cong:
  "webhook_deliveries d' = webhook_deliveries d \<Longrightarrow> deliveries_from m ds d' = deliveries_from m ds d"
  by (simp add: deliveries_from_def)

lemma process_event_from:
  assumes "deliveries_from m ds (tables w)"
  shows "wp (process_payment_event_for_webhooks ext i t j) (\<lambda>_ v. deliveries_from m ds (tables v)) (\<lambda>_ _. True) w"
proof -
  have loop: "wp (for_each es (add_delivery ext i t)) (\<lambda>_ v. deliveries_from m ds (tables v)) (\<lambda>_ _. True) v"
    if "deliveries_from m ds (tables v)" for es v
    using that by (intro wp_for_each add_delivery_from)
  have inbox: "deliveries_from m ds (d\<lparr>processed_events := t\<rparr>) = deliveries_from m ds d" for d t
    by (rule deliveries_from_cong) simp
  show ?thesis
    unfolding process_payment_event_for_webhooks_def mark_event_processed_def now_def
    using assms by (auto simp: wp_simps inbox split: prod.split option.split sum.split intro!: wp_mono [OF loop])
qed

lemma replay_delivery_from:
  assumes "deliveries_from m ds (tables w)"
  shows "wp (replay_delivery ext mid did corr) (\<lambda>_ v. deliveries_from m ds (tables v)) (\<lambda>_ _. True) w"
proof -
  let ?ds = "webhook_deliveries (tables w)"
  let ?f = "\<lambda>r. r\<lparr>d_status := ''PENDING'', next_attempt_at := None,
    last_error := Some ''manual replay requested''\<rparr>"
  have "deliveries_from m ds (d\<lparr>webhook_deliveries := row_set d_id did ?f ?ds, audit_logs := l\<rparr>)"
    if r: "row_at d_id did ?ds = Some r" and d: "webhook_deliveries d = ?ds" for r d l
  proof -
    have mem: "r \<in> set ?ds" "d_id r = did" using row_at_SomeD [OF r] by auto
    have "distinct (map d_id ?ds)" using assms by (simp add: deliveries_from_def)
    from row_set_put_delivery [where f = ?f, OF this mem(1)] mem(2)
    have "row_set d_id did ?f ?ds = put_delivery (?f r) ?ds" by simp
    with deliveries_from_put [OF assms mem(1) delivery_step.replayed] show ?thesis
      by (simp add: deliveries_from_def)
  qed
  then show ?thesis
    unfolding replay_delivery_def update_delivery_def
    by (auto simp: wp_simps split: option.split intro!: append_audit_rule)
qed

interpretation deliveries: transaction_invariant ext "deliveries_from (webhook_max_attempts ext) ds" for ext ds
  by unfold_locales
    ((rule replay_delivery_from dispatch_batch_from process_event_from, assumption) |
     (rule wp_frame_keeps, rule frame_rules, simp add: deliveries_from_def, assumption))+

lemma run_deliveries: "deliveries_from (webhook_max_attempts ext) [] (tables (run ext as initial_world))"
proof -
  have "on_tables (deliveries_from (webhook_max_attempts ext) []) initial_world"
    by (simp add: on_tables_def deliveries_from_def initial_world_def empty_db_def)
  then have "on_tables (deliveries_from (webhook_max_attempts ext) []) (run ext as initial_world)"
    unfolding run_def by (rule deliveries.machine.run_inv)
  then show ?thesis by (simp add: on_tables_def)
qed

text \<open>
  C31: the deliveries refine the delivery state machine.  However the system goes on from a reachable
  world, every delivery is still there and has only taken steps of \<open>delivery_step\<close>, and every delivery
  started as a fresh one.
\<close>

theorem deliveries_refine_lifecycle:
  "let w = run ext as initial_world; v = run ext bs w; m = webhook_max_attempts ext in
   list_all (\<lambda>r. \<exists>r' \<in> set (webhook_deliveries (tables v)). delivery_steps m r r') (webhook_deliveries (tables w)) \<and>
   list_all (lived m) (webhook_deliveries (tables v))"
proof -
  let ?w = "run ext as initial_world" and ?m = "webhook_max_attempts ext"
  have "on_tables (deliveries_from ?m (webhook_deliveries (tables ?w))) ?w"
    using run_deliveries [of ext as] by (auto simp: on_tables_def deliveries_from_def)
  then have "on_tables (deliveries_from ?m (webhook_deliveries (tables ?w))) (run ext bs ?w)"
    unfolding run_def by (rule deliveries.machine.run_inv)
  then show ?thesis by (auto simp: on_tables_def deliveries_from_def list_all_iff Let_def)
qed

text \<open>
  C32: in every reachable database each delivery has a status of the four, a retry has a due time and
  attempts below the configured maximum, and an endpoint has at most one delivery of an event.
\<close>

theorem delivery_rows_well_formed:
  "let ds = webhook_deliveries (tables (run ext as initial_world)) in
   list_all (delivery_row_ok (webhook_max_attempts ext)) ds \<and>
   distinct (map (\<lambda>r. (d_endpoint_id r, d_event_id r)) ds)"
  using run_deliveries [of ext as]
  by (auto simp: Let_def deliveries_from_def delivery_key_def [abs_def] list_all_iff intro: lived_row_ok)

text \<open>
  C33: the dispatcher gives up.  An attempt on an open delivery that does not raise takes at least one
  of the attempts left away, and a delivery is out of the dispatcher's queue exactly when none is left.
\<close>

theorem attempt_uses_budget:
  assumes "r \<in> set (webhook_deliveries (tables w))" and "open_delivery r"
    and "distinct (map d_id (webhook_deliveries (tables w)))"
    and "dispatch_delivery ext reply r w = (Inr n, w')"
  shows "\<exists>r' \<in> set (webhook_deliveries (tables w')). d_id r' = d_id r \<and>
      attempts_left (webhook_max_attempts ext) r' < attempts_left (webhook_max_attempts ext) r \<and>
      (attempts_left (webhook_max_attempts ext) r' = 0) = (r' \<notin> set (filter open_delivery (webhook_deliveries (tables w'))))"
proof -
  let ?m = "webhook_max_attempts ext"
  obtain r' where r': "delivery_step ?m r r'" "attempts_left ?m r' < attempts_left ?m r"
    "webhook_deliveries (tables w') = put_delivery r' (webhook_deliveries (tables w))"
    using wp_result [OF dispatch_delivery_steps [OF assms(3,1,2)] assms(4)] assms(2) by (auto simp: stepped_def)
  have "r' \<in> set (webhook_deliveries (tables w'))"
    using assms(1) r' step_keys [OF r'(1)] by (force simp: put_delivery_def)
  then show ?thesis
    using r'(2) step_keys [OF r'(1)] by (intro bexI [of _ r']) (auto simp: attempts_left_def)
qed

definition pending_delivery :: webhook_delivery where
  "pending_delivery = \<lparr>d_id = 30, d_endpoint_id = 5, d_event_id = 101, d_status = ''PENDING'', attempts = 0,
     next_attempt_at = None, last_error = None, d_created_at = 50\<rparr>"

definition delivery_world :: world where
  "delivery_world = shop_world\<lparr>tables := shop_db\<lparr>webhook_deliveries := [pending_delivery]\<rparr>\<rparr>"

lemmas sample_dispatch_defs = delivery_world_def pending_delivery_def dispatch_delivery_def Let_def
  active_webhook_secret_def active_secret_of_def decrypt_secret_def delivery_correlation_id_def delivery_body_def
  sign_delivery_body_def sign_webhook_def post_webhook_def on_response_def on_http_error_def count_failure_def
  set_delivery_def sample_run

lemma sample_dispatch: "fst (dispatch_delivery sample_ext (\<lambda>_. Inr 404) pending_delivery delivery_world) = Inr 0"
  by (simp add: sample_dispatch_defs)

lemma attempt_uses_budget_witness:
  "\<exists>(w' :: world) r'. r' \<in> set (webhook_deliveries (tables w')) \<and> d_id r' = 30 \<and> attempts_left 6 r' < 6"
proof -
  obtain w' where w': "dispatch_delivery sample_ext (\<lambda>_. Inr 404) pending_delivery delivery_world = (Inr 0, w')"
    using ran [OF sample_dispatch] ..
  have "pending_delivery \<in> set (webhook_deliveries (tables delivery_world))" "open_delivery pending_delivery"
    "distinct (map d_id (webhook_deliveries (tables delivery_world)))" "d_id pending_delivery = 30"
    "attempts_left (webhook_max_attempts sample_ext) pending_delivery = 6" "webhook_max_attempts sample_ext = 6"
    by (simp_all add: delivery_world_def pending_delivery_def open_delivery_def attempts_left_def sample_ext_def)
  with attempt_uses_budget [OF _ _ _ w'] show ?thesis by auto
qed

section \<open>Retry times\<close>

lemma pow2_nat: "0 \<le> n \<Longrightarrow> pow2 n = 2 ^ nat n"
  by (simp add: pow2_def)

lemma fl_pow2: "0 \<le> n \<Longrightarrow> fl (2 ^ nat n) = 2 ^ nat n"
proof -
  assume n: "0 \<le> n"
  have "of_int (2 ^ 52) * pow2 (n - 52) = pow2 n"
    using pow2_add_nat [of "n - 52" 52] by simp
  with fl_binade_exact [of "2 ^ 52" n] show ?thesis by (simp add: pow2_nat [OF n])
qed

lemma int_to_float_pow2: "0 \<le> n \<Longrightarrow> n \<le> 1023 \<Longrightarrow> int_to_float (2 ^ nat n) = Some (2 ^ nat n)"
proof -
  assume n: "0 \<le> n" "n \<le> 1023"
  then have "(2 :: int) ^ nat n \<le> 2 ^ 1023" by (intro power_increasing) auto
  also have "\<dots> < 2 ^ 1024 - 2 ^ 970" by simp
  finally show ?thesis using fl_pow2 [OF n(1)] by (simp add: int_to_float_def)
qed

lemma next_delay_bounds:
  assumes "0 \<le> r" and "r \<le> 1" and "0 \<le> n" and "n \<le> 1023"
  shows "\<exists>x. next_delay r n = Inr x \<and> min 300 (2 ^ nat n) \<le> x \<and> x \<le> 300"
proof -
  have "fl (2 ^ nat n) \<le> fl (2 ^ nat n + r)" using assms(1) by (intro fl_mono) simp_all
  then show ?thesis
    using assms fl_pow2 [of n] by (auto simp: next_delay_def int_to_float_pow2 fadd_def min_def)
qed

lemma timedelta_us_bounds:
  assumes "0 \<le> x" and "x \<le> of_int n"
  shows "1000000 * \<lfloor>x\<rfloor> \<le> timedelta_us x \<and> timedelta_us x \<le> 1000000 * n"
proof -
  let ?f = "x - of_int \<lfloor>x\<rfloor>"
  have f: "0 \<le> ?f" "?f < 1" by linarith+
  have "fl 1000000 = (1000000 :: rat)" by code_simp
  moreover have "fl (?f * 1000000) \<le> fl 1000000" using f by (intro fl_mono) simp_all
  ultimately have up: "fmul ?f 1000000 \<le> of_int 1000000" by (simp add: fmul_def)
  have "of_int 0 \<le> fmul ?f 1000000" using f by (simp add: fmul_nonneg)
  then have lo: "0 \<le> rhe (fmul ?f 1000000)" by (rule rhe_ge_int)
  show ?thesis
  proof (cases "\<lfloor>x\<rfloor> = n")
    case True
    then have "x = of_int n" using assms(2) by linarith
    then show ?thesis using rhe_of_int [of 0] by (simp add: timedelta_us_def fmul_def)
  next
    case False
    then have "\<lfloor>x\<rfloor> \<le> n - 1" using assms(2) by linarith
    then show ?thesis using lo rhe_le_int [OF up] by (simp add: timedelta_us_def)
  qed
qed

text \<open>
  C34: the time of a retry: with a jitter between 0 and 1, the attempt after attempt \<open>n\<close> is due at the
  earliest \<open>min 300 (2 ^ n)\<close> seconds and at the latest 300 seconds from now, for every attempt count
  below the range of a double.
\<close>

theorem retry_time_bounds:
  assumes "\<And>k. 0 \<le> jitter ext k \<and> jitter ext k \<le> 1" and "0 \<le> n" and "n \<le> 1023"
  shows "\<exists>t w'. retry_at ext n w = (Inr t, w') \<and>
    utc_now ext (draws w) + 1000000 * min 300 (2 ^ nat n) \<le> t \<and> t \<le> utc_now ext (draws w) + 300000000"
proof -
  obtain x where x: "next_delay (jitter ext (Suc (draws w))) n = Inr x" "min 300 (2 ^ nat n) \<le> x" "x \<le> 300"
    using next_delay_bounds assms by blast
  have "of_int (min 300 (2 ^ nat n)) \<le> x" using x(2) by (simp add: of_int_min)
  then have floor: "min 300 (2 ^ nat n) \<le> \<lfloor>x\<rfloor>" by (simp add: le_floor_iff)
  moreover have "0 \<le> x" using x(2) by (simp add: min_def split: if_splits) (meson order_trans zero_le_numeral zero_le_power)
  ultimately have "1000000 * min 300 (2 ^ nat n) \<le> timedelta_us x \<and> timedelta_us x \<le> 300000000"
    using timedelta_us_bounds [of x 300] x(3) by simp
  then show ?thesis
    by (simp add: retry_at_def now_def draw_def bind_op_def lift_sum_def ret_def x(1))
qed

lemma retry_time_bounds_witness:
  "\<exists>t w'. retry_at sample_ext 3 shop_world = (Inr t, w') \<and> 100 + 8000000 \<le> t \<and> t \<le> 100 + 300000000"
  using retry_time_bounds [of sample_ext 3 shop_world]
  by (simp add: sample_ext_def shop_world_def)

end
