(* ===== verification/Secrets.thy ===== *)
theory Secrets
  imports Deliveries
begin

text \<open>
  Webhook signing secrets: in every reachable database the secrets of an endpoint are a gapless history
  of versions of which only the newest is active, and a rotation hands out the secret that the
  dispatcher signs with from then on.
\<close>

section \<open>The history of an endpoint's secrets\<close>

definition endpoint_secrets :: "db \<Rightarrow> uuid \<Rightarrow> webhook_secret list" where
  "endpoint_secrets d eid = filter (\<lambda>s. s_endpoint_id s = eid) (webhook_secrets d)"

text \<open>Versions 1 to \<open>n\<close>, the last one active and the earlier ones retired.\<close>

definition secret_history_ok :: "webhook_secret list \<Rightarrow> bool" where
  "secret_history_ok ss \<longleftrightarrow>
     ss \<noteq> [] \<and> map s_version ss = [1..int (length ss)] \<and>
     list_all (\<lambda>s. \<not> active s \<and> retired_at s \<noteq> None) (butlast ss) \<and>
     active (last ss) \<and> retired_at (last ss) = None"

definition endpoint_ok :: "db \<Rightarrow> webhook_endpoint \<Rightarrow> bool" where
  "endpoint_ok d e \<longleftrightarrow>
     secret_history_ok (endpoint_secrets d (w_id e)) \<and>
     s_secret_hash (last (endpoint_secrets d (w_id e))) = w_secret_hash e"

definition secrets_ok :: "db \<Rightarrow> bool" where
  "secrets_ok d \<longleftrightarrow>
     distinct (map s_id (webhook_secrets d)) \<and> distinct (map w_id (webhook_endpoints d)) \<and>
     set (map s_endpoint_id (webhook_secrets d)) \<subseteq> set (map w_id (webhook_endpoints d)) \<and>
     list_all (endpoint_ok d) (webhook_endpoints d)"

lemma secret_history_one:
  "s_version s = 1 \<Longrightarrow> active s \<Longrightarrow> retired_at s = None \<Longrightarrow> secret_history_ok [s]"
  by (simp add: secret_history_ok_def)

text \<open>A rotation retires the last secret and adds one.\<close>

lemma secret_history_rotate:
  assumes "secret_history_ok (ss @ [a])" and "s_version a' = s_version a" and "\<not> active a'" and "retired_at a' \<noteq> None"
    and "s_version s = s_version a + 1" and "active s" and "retired_at s = None"
  shows "secret_history_ok (ss @ [a', s])"
proof -
  let ?n = "int (length ss)"
  have up: "[1..1 + int k] = [1..int k] @ [1 + int k]" for k by (subst upto_rec2) simp_all
  have "map s_version ss @ [s_version a] = [1..1 + ?n]"
    using assms(1) by (simp add: secret_history_ok_def)
  then have v: "map s_version ss = [1..?n]" "s_version a = 1 + ?n" by (simp_all add: up)
  then have "map s_version (ss @ [a', s]) = [1..1 + int (Suc (length ss))]"
    using assms(2,5) up [of "Suc (length ss)"] up [of "length ss"] by (simp add: add.commute)
  then have "map s_version (ss @ [a', s]) = [1..int (length (ss @ [a', s]))]" by (simp add: add.commute)
  then show ?thesis
    using assms by (auto simp: secret_history_ok_def butlast_append)
qed

lemma latest_of_history:
  assumes "secret_history_ok (endpoint_secrets d eid)"
  shows "latest_version d eid = s_version (last (endpoint_secrets d eid))"
proof -
  let ?ss = "endpoint_secrets d eid"
  have ne: "?ss \<noteq> []" and v: "map s_version ?ss = [1..int (length ?ss)]"
    using assms by (auto simp: secret_history_ok_def)
  have "Max (set (map s_version ?ss)) = int (length ?ss)"
    unfolding v using ne by (intro Max_eqI) (auto simp: Suc_le_eq)
  moreover have "s_version (last ?ss) = last (map s_version ?ss)" using ne by (simp add: last_map)
  moreover have "last [1..int (length ?ss)] = int (length ?ss)"
    using ne by (subst upto_rec2) (auto simp: Suc_le_eq)
  moreover have "latest_version d eid = Max (set (map s_version ?ss))"
    using ne by (simp add: latest_version_def endpoint_secrets_def [symmetric] Let_def)
  ultimately show ?thesis using v by simp
qed

lemma active_of_history:
  assumes "secret_history_ok (endpoint_secrets d eid)"
  shows "active_secret_of d eid = Some (last (endpoint_secrets d eid))"
proof -
  have find_filter: "find (\<lambda>s. P s \<and> Q s) xs = find Q (filter P xs)" for P Q and xs :: "webhook_secret list"
    by (induction xs) auto
  have "find active (ss @ [s]) = Some s" if "list_all (\<lambda>s. \<not> active s \<and> retired_at s \<noteq> None) ss" "active s" for ss s
    using that by (induction ss) auto
  from this [of "butlast (endpoint_secrets d eid)" "last (endpoint_secrets d eid)"] assms
  show ?thesis by (simp add: active_secret_of_def find_filter endpoint_secrets_def [symmetric] secret_history_ok_def)
qed

section \<open>Registration and rotation\<close>

lemma secrets_ok_register:
  assumes "secrets_ok d" and "w_id e \<notin> w_id ` set (webhook_endpoints d)"
    and "secret_integrity_ok (d\<lparr>webhook_endpoints := webhook_endpoints d @ [e]\<rparr>) s"
    and "s_endpoint_id s = w_id e" and "s_version s = 1" and "active s" and "retired_at s = None"
    and "s_secret_hash s = w_secret_hash e"
    and "webhook_endpoints d' = webhook_endpoints d @ [e]" and "webhook_secrets d' = webhook_secrets d @ [s]"
  shows "secrets_ok d'"
proof -
  have "s_endpoint_id x \<in> w_id ` set (webhook_endpoints d)" if "x \<in> set (webhook_secrets d)" for x
    using assms(1) that by (auto simp: secrets_ok_def)
  then have none: "endpoint_secrets d (w_id e) = []"
    using assms(2) unfolding endpoint_secrets_def filter_empty_conv by metis
  have other: "endpoint_secrets d' (w_id x) = endpoint_secrets d (w_id x)" if "x \<in> set (webhook_endpoints d)" for x
    using that assms(2,4,10) by (auto simp: endpoint_secrets_def)
  have new: "endpoint_secrets d' (w_id e) = [s]"
    using none assms(4,10) by (simp add: endpoint_secrets_def)
  have "endpoint_ok d' e"
    using assms(5-8) by (simp add: endpoint_ok_def new secret_history_one)
  moreover have "endpoint_ok d' x" if "x \<in> set (webhook_endpoints d)" for x
    using that assms(1) by (simp add: endpoint_ok_def other secrets_ok_def list_all_iff)
  ultimately show ?thesis
    using assms(1-4,9,10) by (auto simp: secrets_ok_def list_all_iff secret_integrity_ok_def)
qed

text \<open>The tables after the rotation of the secret of an endpoint.\<close>

definition retire :: "int \<Rightarrow> webhook_secret \<Rightarrow> webhook_secret" where
  "retire t s = s\<lparr>active := False, retired_at := Some t\<rparr>"

lemma row_set_last_secret:
  assumes "secrets_ok d" and "endpoint_secrets d eid = ss @ [a]"
  shows "filter (\<lambda>s. s_endpoint_id s = eid) (row_set s_id (s_id a) (retire t) (webhook_secrets d)) = ss @ [retire t a]"
    and "x \<noteq> eid \<Longrightarrow> filter (\<lambda>s. s_endpoint_id s = x) (row_set s_id (s_id a) (retire t) (webhook_secrets d)) =
      endpoint_secrets d x"
proof -
  let ?f = "\<lambda>s. if s_id s = s_id a then retire t s else s"
  have ids: "s_endpoint_id (?f s) = s_endpoint_id s" for s by (simp add: retire_def)
  have split: "filter (\<lambda>s. s_endpoint_id s = y) (row_set s_id (s_id a) (retire t) (webhook_secrets d)) =
      map ?f (endpoint_secrets d y)" for y
    unfolding row_set_def endpoint_secrets_def filter_map using ids by (simp add: comp_def)
  have "a \<in> set (endpoint_secrets d eid)" by (simp add: assms(2))
  then have a: "a \<in> set (webhook_secrets d)" "s_endpoint_id a = eid" by (simp_all add: endpoint_secrets_def)
  have only: "s = a" if "s \<in> set (webhook_secrets d)" "s_id s = s_id a" for s
    using assms(1) a(1) that by (auto simp: secrets_ok_def distinct_map dest: inj_onD)
  have "distinct (map s_id (endpoint_secrets d eid))"
    using assms(1) by (simp add: secrets_ok_def endpoint_secrets_def distinct_map_filter)
  then have "s_id s \<noteq> s_id a" if "s \<in> set ss" for s using that assms(2) by (auto simp: image_iff)
  then have "map ?f ss = ss" by (intro map_idI) simp
  then show "filter (\<lambda>s. s_endpoint_id s = eid) (row_set s_id (s_id a) (retire t) (webhook_secrets d)) = ss @ [retire t a]"
    unfolding split assms(2) by simp
  show "filter (\<lambda>s. s_endpoint_id s = x) (row_set s_id (s_id a) (retire t) (webhook_secrets d)) = endpoint_secrets d x"
    if "x \<noteq> eid"
    unfolding split using that only a(2) by (intro map_idI) (auto simp: endpoint_secrets_def)
qed

text \<open>A fresh secret of an endpoint, and what a registration and a rotation leave.\<close>

definition fresh_secret :: "ext \<Rightarrow> uuid \<Rightarrow> int \<Rightarrow> string \<Rightarrow> webhook_secret \<Rightarrow> bool" where
  "fresh_secret ext eid v secret s \<longleftrightarrow>
     s_endpoint_id s = eid \<and> s_version s = v \<and> active s \<and> retired_at s = None \<and>
     s_secret_hash s = hash_secret ext secret \<and>
     (\<exists>n. secret_ciphertext s = encrypt_secret ext n secret (webhook_secret_master_key ext))"

definition registered :: "ext \<Rightarrow> uuid \<Rightarrow> webhook_create \<Rightarrow> db \<Rightarrow> json \<Rightarrow> db \<Rightarrow> bool" where
  "registered ext mid req d body d' \<longleftrightarrow>
     (\<exists>e s secret. body = JObj [(''endpoint_id'', JStr (uuid_str (w_id e))), (''signing_secret'', JStr secret)] \<and>
        w_id e \<notin> w_id ` set (webhook_endpoints d) \<and> w_merchant_id e = mid \<and> url e = wc_url req \<and>
        event_types e = wc_event_types req \<and> enabled e \<and> w_secret_hash e = hash_secret ext secret \<and>
        fresh_secret ext (w_id e) 1 secret s \<and>
        secret_integrity_ok (d\<lparr>webhook_endpoints := webhook_endpoints d @ [e]\<rparr>) s \<and>
        webhook_endpoints d' = webhook_endpoints d @ [e] \<and> webhook_secrets d' = webhook_secrets d @ [s])"

definition rotated :: "ext \<Rightarrow> uuid \<Rightarrow> uuid \<Rightarrow> db \<Rightarrow> json \<Rightarrow> db \<Rightarrow> bool" where
  "rotated ext mid eid d body d' \<longleftrightarrow>
     (\<exists>e s t secret. body = JObj [(''endpoint_id'', JStr (uuid_str eid)), (''signing_secret'', JStr secret)] \<and>
        row_at w_id eid (webhook_endpoints d) = Some e \<and> w_merchant_id e = mid \<and>
        fresh_secret ext eid (latest_version d eid + 1) secret s \<and> s_id s \<notin> s_id ` set (webhook_secrets d) \<and>
        webhook_endpoints d' =
          row_set w_id eid (\<lambda>e. e\<lparr>w_secret_hash := hash_secret ext secret\<rparr>) (webhook_endpoints d) \<and>
        webhook_secrets d' =
          row_set s_id (s_id (last (endpoint_secrets d eid))) (retire t) (webhook_secrets d) @ [s])"

lemma register_webhook_effect:
  "wp (register_webhook ext mid req corr) (\<lambda>body v. registered ext mid req (tables w) body (tables v)) (\<lambda>_ _. True) w"
  unfolding register_webhook_def fresh_id_def now_def insert_endpoint_def insert_secret_def
  by (auto simp: wp_simps endpoint_integrity_ok_def registered_def fresh_secret_def secret_integrity_ok_def
      intro!: append_audit_rule)

lemma endpoint_history:
  "secrets_ok d \<Longrightarrow> row_at w_id eid (webhook_endpoints d) = Some e \<Longrightarrow> secret_history_ok (endpoint_secrets d eid)"
  using row_at_SomeD [of w_id eid "webhook_endpoints d" e] by (auto simp: secrets_ok_def list_all_iff endpoint_ok_def)

lemma last_secret_row:
  assumes "secrets_ok d" and "secret_history_ok (endpoint_secrets d eid)"
  shows "row_at s_id (s_id (last (endpoint_secrets d eid))) (webhook_secrets d) = Some (last (endpoint_secrets d eid))"
proof -
  have "last (endpoint_secrets d eid) \<in> set (endpoint_secrets d eid)"
    using assms(2) by (simp add: secret_history_ok_def)
  then have "last (endpoint_secrets d eid) \<in> set (webhook_secrets d)" by (simp add: endpoint_secrets_def)
  then show ?thesis using assms(1) by (simp add: row_at_Some_iff secrets_ok_def)
qed

lemma rotatedI:
  assumes "row_at w_id eid (webhook_endpoints d) = Some e" and "w_merchant_id e = mid"
    and "webhook_secrets d' = row_set s_id (s_id (last (endpoint_secrets d eid))) (retire t) (webhook_secrets d) @ [s]"
    and "s_id s \<notin> s_id ` set (row_set s_id (s_id (last (endpoint_secrets d eid))) (retire t) (webhook_secrets d))"
    and "fresh_secret ext eid (latest_version d eid + 1) secret s"
    and "webhook_endpoints d' =
      row_set w_id eid (\<lambda>e. e\<lparr>w_secret_hash := hash_secret ext secret\<rparr>) (webhook_endpoints d)"
  shows "rotated ext mid eid d
    (JObj [(''endpoint_id'', JStr (uuid_str eid)), (''signing_secret'', JStr secret)]) d'"
proof -
  have "map s_id (row_set s_id k (retire t) (webhook_secrets d)) = map s_id (webhook_secrets d)" for k
    by (rule map_key_row_set) (simp add: retire_def)
  then have "s_id ` set (row_set s_id k (retire t) (webhook_secrets d)) = s_id ` set (webhook_secrets d)" for k
    by (metis set_map)
  then show ?thesis using assms unfolding rotated_def by metis
qed

lemma rotate_webhook_secret_effect:
  assumes "secrets_ok (tables w)"
  shows "wp (rotate_webhook_secret ext mid eid corr) (\<lambda>body v. rotated ext mid eid (tables w) body (tables v))
    (\<lambda>_ _. True) w"
proof (cases "row_at w_id eid (webhook_endpoints (tables w))")
  case None
  then show ?thesis by (simp add: rotate_webhook_secret_def wp_simps not_owned_def)
next
  case (Some e)
  have h: "secret_history_ok (endpoint_secrets (tables w) eid)" by (rule endpoint_history [OF assms Some])
  have retire: "(\<lambda>s. s\<lparr>active := False, retired_at := Some t\<rparr>) = retire t" for t
    by (simp add: fun_eq_iff retire_def)
  show ?thesis
    unfolding rotate_webhook_secret_def now_def fresh_id_def update_secret_def update_endpoint_def insert_secret_def
      retire
    using last_secret_row [OF assms h] active_of_history [OF h] Some
    by (auto simp: wp_simps not_owned_def secret_integrity_ok_def
        intro!: append_audit_rule rotatedI [where t = "utc_now ext (draws w)"])
      (auto simp: fresh_secret_def)
qed

lemma registered_secrets_ok:
  assumes "secrets_ok d" and "registered ext mid req d body d'"
  shows "secrets_ok d'"
proof -
  show ?thesis
    using assms(2) unfolding registered_def
    by - (elim exE conjE, rule secrets_ok_register [OF assms(1)]; (assumption | simp add: fresh_secret_def))
qed

text \<open>The secrets of the endpoints after a rotation.\<close>

lemma rotated_endpoint_secrets:
  assumes "secrets_ok d" and "rotated ext mid eid d body d'"
  shows "\<exists>ss a t s secret. endpoint_secrets d eid = ss @ [a] \<and> endpoint_secrets d' eid = ss @ [retire t a, s] \<and>
      fresh_secret ext eid (s_version a + 1) secret s \<and> s_id s \<notin> s_id ` set (webhook_secrets d) \<and>
      body = JObj [(''endpoint_id'', JStr (uuid_str eid)), (''signing_secret'', JStr secret)] \<and>
      webhook_endpoints d' = row_set w_id eid (\<lambda>e. e\<lparr>w_secret_hash := hash_secret ext secret\<rparr>) (webhook_endpoints d) \<and>
      webhook_secrets d' = row_set s_id (s_id a) (retire t) (webhook_secrets d) @ [s] \<and>
      secret_history_ok (ss @ [a])"
proof -
  obtain e s t secret where r: "row_at w_id eid (webhook_endpoints d) = Some e"
    "fresh_secret ext eid (latest_version d eid + 1) secret s" "s_id s \<notin> s_id ` set (webhook_secrets d)"
    "body = JObj [(''endpoint_id'', JStr (uuid_str eid)), (''signing_secret'', JStr secret)]"
    "webhook_endpoints d' = row_set w_id eid (\<lambda>e. e\<lparr>w_secret_hash := hash_secret ext secret\<rparr>) (webhook_endpoints d)"
    "webhook_secrets d' = row_set s_id (s_id (last (endpoint_secrets d eid))) (retire t) (webhook_secrets d) @ [s]"
    using assms(2) unfolding rotated_def by blast
  have h: "secret_history_ok (endpoint_secrets d eid)" by (rule endpoint_history [OF assms(1) r(1)])
  then obtain ss a where ss: "endpoint_secrets d eid = ss @ [a]"
    by (metis secret_history_ok_def append_butlast_last_id)
  have "endpoint_secrets d' eid = (ss @ [retire t a]) @ [s]"
    using row_set_last_secret(1) [OF assms(1) ss, of t] r(2,6)
    unfolding endpoint_secrets_def by (simp add: ss [unfolded endpoint_secrets_def] fresh_secret_def)
  then show ?thesis
    using r h latest_of_history [OF h] by (auto simp: ss)
qed

lemma rotated_secrets_ok:
  assumes "secrets_ok d" and "rotated ext mid eid d body d'"
  shows "secrets_ok d'"
proof -
  obtain ss a t s secret where r: "endpoint_secrets d eid = ss @ [a]" "endpoint_secrets d' eid = ss @ [retire t a, s]"
    "fresh_secret ext eid (s_version a + 1) secret s" "s_id s \<notin> s_id ` set (webhook_secrets d)"
    "webhook_endpoints d' = row_set w_id eid (\<lambda>e. e\<lparr>w_secret_hash := hash_secret ext secret\<rparr>) (webhook_endpoints d)"
    "webhook_secrets d' = row_set s_id (s_id a) (retire t) (webhook_secrets d) @ [s]" "secret_history_ok (ss @ [a])"
    using rotated_endpoint_secrets [OF assms] by blast
  have h': "secret_history_ok (ss @ [retire t a, s])"
    using r(3) by (intro secret_history_rotate [OF r(7)]) (simp_all add: retire_def fresh_secret_def)
  have other: "endpoint_secrets d' x = endpoint_secrets d x" if "x \<noteq> eid" for x
    using row_set_last_secret(2) [OF assms(1) r(1) that, of t] r(3,6) that
    by (simp add: endpoint_secrets_def fresh_secret_def)
  have "endpoint_ok d' e" if e: "e \<in> set (webhook_endpoints d')" for e
  proof -
    obtain x where x: "x \<in> set (webhook_endpoints d)" "e = (if w_id x = eid then x\<lparr>w_secret_hash := hash_secret ext secret\<rparr> else x)"
      using e r(5) by (auto simp: row_set_def)
    show ?thesis
    proof (cases "w_id x = eid")
      case True
      then show ?thesis using x r(2,3) h' by (simp add: endpoint_ok_def fresh_secret_def)
    next
      case False
      then show ?thesis using x assms(1) by (simp add: endpoint_ok_def other secrets_ok_def list_all_iff)
    qed
  qed
  moreover have ids: "map w_id (webhook_endpoints d') = map w_id (webhook_endpoints d)"
    unfolding r(5) by (rule map_key_row_set) simp
  moreover have sids: "map s_id (row_set s_id (s_id a) (retire t) (webhook_secrets d)) = map s_id (webhook_secrets d)"
    "map s_endpoint_id (row_set s_id (s_id a) (retire t) (webhook_secrets d)) = map s_endpoint_id (webhook_secrets d)"
    by (rule map_key_row_set map_row_set_frame; simp add: retire_def)+
  moreover have "eid \<in> w_id ` set (webhook_endpoints d)"
    using assms(2) by (auto simp: rotated_def dest!: row_at_SomeD)
  ultimately show ?thesis
    using assms(1) r(3,4,6) unfolding secrets_ok_def list_all_iff fresh_secret_def
    by (simp del: set_map add: set_map [symmetric])
qed

interpretation secrets: transaction_invariant ext secrets_ok for ext
proof unfold_locales
  fix w :: world and mid req corr eid
  assume ok: "secrets_ok (tables w)"
  show "wp (register_webhook ext mid req corr) (\<lambda>_ v. secrets_ok (tables v)) (\<lambda>_ _. True) w"
    by (rule wp_mono [OF register_webhook_effect]) (auto intro: registered_secrets_ok [OF ok])
  show "wp (rotate_webhook_secret ext mid eid corr) (\<lambda>_ v. secrets_ok (tables v)) (\<lambda>_ _. True) w"
    by (rule wp_mono [OF rotate_webhook_secret_effect [OF ok]]) (auto intro: rotated_secrets_ok [OF ok])
qed (rule wp_frame_keeps, rule frame_rules, simp add: secrets_ok_def endpoint_ok_def [abs_def] endpoint_secrets_def,
  assumption)+

text \<open>
  C35: in every reachable database the secrets of every endpoint have the versions 1, 2, ... without a
  gap, all but the last are retired, the last is active, and its hash is the one of the endpoint.
\<close>

theorem secret_versions:
  "let d = tables (run ext as initial_world) in
   list_all (\<lambda>e. secret_history_ok (endpoint_secrets d (w_id e)) \<and>
       s_secret_hash (last (endpoint_secrets d (w_id e))) = w_secret_hash e) (webhook_endpoints d) \<and>
   distinct (map w_id (webhook_endpoints d))"
proof -
  have "on_tables secrets_ok initial_world"
    by (simp add: on_tables_def secrets_ok_def initial_world_def empty_db_def)
  then have "on_tables secrets_ok (run ext as initial_world)"
    unfolding run_def by (rule secrets.machine.run_inv)
  then show ?thesis by (simp add: on_tables_def secrets_ok_def endpoint_ok_def [abs_def] Let_def)
qed

section \<open>The secret in use\<close>

lemma active_secret_of_fresh:
  assumes "endpoint_secrets d eid = ss @ [s]" and "secret_history_ok (ss @ [s])"
    and "fresh_secret ext eid v secret s" and "fernet_round_trip ext" and "tables w = d"
  shows "active_webhook_secret ext eid w = (Inr secret, w)"
proof -
  have "active_secret_of d eid = Some s" using active_of_history [of d eid] assms(1,2) by simp
  moreover obtain n where "secret_ciphertext s = encrypt_secret ext n secret (webhook_secret_master_key ext)"
    using assms(3) by (auto simp: fresh_secret_def)
  ultimately show ?thesis
    using assms(4,5) by (simp add: active_webhook_secret_def query_def gets_op_def bind_op_def lift_sum_def decrypt_encrypt)
qed

text \<open>
  C36: after a committed rotation the dispatcher signs with exactly the secret that the answer gave to
  the merchant, and the secret used before is retired.
\<close>

theorem rotation_takes_effect:
  assumes "secrets_ok (tables w)" and "fernet_round_trip ext"
    and "atomically (rotate_webhook_secret ext mid eid corr) w = (Inr body, w')"
  shows "\<exists>secret. body = JObj [(''endpoint_id'', JStr (uuid_str eid)), (''signing_secret'', JStr secret)] \<and>
    active_webhook_secret ext eid w' = (Inr secret, w') \<and>
    list_all (\<lambda>s. \<not> active s) (butlast (endpoint_secrets (tables w') eid)) \<and>
    length (endpoint_secrets (tables w') eid) = length (endpoint_secrets (tables w) eid) + 1"
proof -
  have r: "rotated ext mid eid (tables w) body (tables w')"
    using atomically_effect [OF rotate_webhook_secret_effect assms(3)] assms(1) by simp
  obtain ss a t s secret where e: "endpoint_secrets (tables w) eid = ss @ [a]"
    "endpoint_secrets (tables w') eid = (ss @ [retire t a]) @ [s]" "fresh_secret ext eid (s_version a + 1) secret s"
    "body = JObj [(''endpoint_id'', JStr (uuid_str eid)), (''signing_secret'', JStr secret)]"
    "secret_history_ok (ss @ [a])"
    using rotated_endpoint_secrets [OF assms(1) r] by auto
  have h: "secret_history_ok ((ss @ [retire t a]) @ [s])"
    using e(3) secret_history_rotate [OF e(5), of "retire t a" s] by (simp add: retire_def fresh_secret_def)
  show ?thesis
    using e active_secret_of_fresh [OF e(2) h e(3) assms(2) refl] h
    by (auto simp: secret_history_ok_def list_all_iff butlast_append)
qed

lemma sample_rotate:
  "fst (atomically (rotate_webhook_secret sample_ext 1 5 7) shop_world) =
     Inr (JObj [(''endpoint_id'', JStr (uuid_str 5)), (''signing_secret'', JStr ''whsec_token'')])"
  by (simp add: rotate_webhook_secret_def active_secret_of_def latest_version_def not_owned_def Let_def
      generate_webhook_secret_def encrypt_secret_def sample_run)

lemma shop_secrets_ok: "secrets_ok (tables shop_world)"
  by (simp add: secrets_ok_def endpoint_ok_def secret_history_ok_def endpoint_secrets_def shop_world_def shop_db_def
      empty_db_def sample_endpoint_def)

lemma rotation_takes_effect_witness:
  "\<exists>(w' :: world). active_webhook_secret sample_ext 5 w' = (Inr ''whsec_token'', w') \<and>
     length (endpoint_secrets (tables w') 5) = 2"
proof -
  obtain w' where w': "atomically (rotate_webhook_secret sample_ext 1 5 7) shop_world =
      (Inr (JObj [(''endpoint_id'', JStr (uuid_str 5)), (''signing_secret'', JStr ''whsec_token'')]), w')"
    using ran [OF sample_rotate] ..
  have "fernet_round_trip sample_ext" by (simp add: fernet_round_trip_def sample_ext_def)
  from rotation_takes_effect [OF shop_secrets_ok this w'] show ?thesis
    by (auto simp: endpoint_secrets_def shop_world_def shop_db_def)
qed

end
