(* ===== verification/Receiver.thy ===== *)
theory Receiver
  imports Security
begin

text \<open>
  \<open>services/webhook_receiver_demo/main.py\<close>: the server of a merchant that receives webhooks.  The
  module variables are the state \<open>receiver\<close>; \<open>clock\<close> counts the readings of \<open>time.time()\<close>.  The
  header \<open>ForgePay-Timestamp\<close> is an argument after FastAPI parsed it as an integer.  Bodies are byte
  strings (character lists), and text is represented by its UTF-8 encoding.  The set of accepted
  secrets is a list without duplicates: \<open>any\<close> goes through it in some order, and every theorem here
  holds for each of them.
\<close>

record received_webhook =
  rw_body :: string
  rw_signature :: string
  rw_path :: "string option"
  rw_correlation_id :: "string option"

record receiver =
  received :: "received_webhook list"
  attempts_by_path :: "(string \<times> int) list"
  accepted_secrets :: "string list"
  clock :: nat

definition initial_receiver :: receiver where
  "initial_receiver = \<lparr>received = [], attempts_by_path = [], accepted_secrets = [''dev-only-change-me''], clock = 0\<rparr>"

type_synonym 'a receiver_op = "(receiver, exn, 'a) op"

text \<open>\<open>int(time.time())\<close> in \<open>verify_webhook\<close>.\<close>

definition read_clock :: "ext \<Rightarrow> int receiver_op" where
  "read_clock ext = (\<lambda>v. (Inr (unix_time ext (clock v)), v\<lparr>clock := Suc (clock v)\<rparr>))"

text \<open>\<open>any(verify_webhook(secret, ...) for secret in accepted_secrets)\<close>, with the default tolerance.\<close>

fun any_secret_verifies :: "ext \<Rightarrow> string \<Rightarrow> int \<Rightarrow> string \<Rightarrow> string list \<Rightarrow> bool receiver_op" where
  "any_secret_verifies ext signature timestamp body [] = ret False"
| "any_secret_verifies ext signature timestamp body (secret # secrets) =
     bind_op (read_clock ext) (\<lambda>now.
     bind_op (lift_sum (verify_webhook ext now secret signature timestamp body 300)) (\<lambda>valid.
     if valid then ret True else any_secret_verifies ext signature timestamp body secrets))"

definition signature_is_valid :: "ext \<Rightarrow> string \<Rightarrow> int \<Rightarrow> string \<Rightarrow> bool receiver_op" where
  "signature_is_valid ext signature timestamp body =
     bind_op (gets_op accepted_secrets) (any_secret_verifies ext signature timestamp body)"

text \<open>\<open>body.decode()\<close>: well-formed UTF-8 as in the Unicode standard, table 3-7.\<close>

definition byte_in :: "nat \<Rightarrow> nat \<Rightarrow> char \<Rightarrow> bool" where
  "byte_in a b c \<longleftrightarrow> a \<le> of_char c \<and> of_char c \<le> b"

fun utf8_ok :: "string \<Rightarrow> bool" where
  "utf8_ok [] = True"
| "utf8_ok (a # s) =
     (if byte_in 0 127 a then utf8_ok s
      else case s of
        [] \<Rightarrow> False
      | b # s2 \<Rightarrow>
          if byte_in 194 223 a then byte_in 128 191 b \<and> utf8_ok s2
          else case s2 of
            [] \<Rightarrow> False
          | c # s3 \<Rightarrow>
              if byte_in 224 239 a
              then byte_in (if of_char a = (224 :: nat) then 160 else 128) (if of_char a = (237 :: nat) then 159 else 191) b \<and>
                byte_in 128 191 c \<and> utf8_ok s3
              else case s3 of
                [] \<Rightarrow> False
              | d # s4 \<Rightarrow>
                  byte_in 240 244 a \<and>
                  byte_in (if of_char a = (240 :: nat) then 144 else 128) (if of_char a = (244 :: nat) then 143 else 191) b \<and>
                  byte_in 128 191 c \<and> byte_in 128 191 d \<and> utf8_ok s4)"

definition decode_body :: "string \<Rightarrow> exn + string" where
  "decode_body body = (if utf8_ok body then Inr body else Inl (ValueError ''invalid UTF-8''))"

section \<open>Endpoints\<close>

text \<open>The status code and the JSON answer.\<close>

definition answer :: "int \<Rightarrow> string \<Rightarrow> (int \<times> json) receiver_op" where
  "answer status text = ret (status, JObj [(''status'', JStr text)])"

definition record_webhook :: "string \<Rightarrow> string \<Rightarrow> string option \<Rightarrow> string option \<Rightarrow> unit receiver_op" where
  "record_webhook body signature path corr =
     bind_op (lift_sum (decode_body body)) (\<lambda>text.
     modify_op (\<lambda>v. v\<lparr>received := received v @
       [\<lparr>rw_body = text, rw_signature = signature, rw_path = path, rw_correlation_id = corr\<rparr>]\<rparr>))"

definition receive :: "ext \<Rightarrow> string \<Rightarrow> int \<Rightarrow> string option \<Rightarrow> string \<Rightarrow> (int \<times> json) receiver_op" where
  "receive ext signature timestamp corr body =
     bind_op (signature_is_valid ext signature timestamp body) (\<lambda>valid.
     if \<not> valid then answer 200 ''invalid''
     else
       bind_op (record_webhook body signature None corr) (\<lambda>_.
       answer 200 ''ok''))"

definition attempts_of :: "string \<Rightarrow> receiver \<Rightarrow> int" where
  "attempts_of key v = (case map_of (attempts_by_path v) key of None \<Rightarrow> 0 | Some n \<Rightarrow> n)"

definition count_attempt :: "string \<Rightarrow> receiver \<Rightarrow> receiver" where
  "count_attempt key v =
     v\<lparr>attempts_by_path := (key, attempts_of key v + 1) # filter (\<lambda>(k, n). k \<noteq> key) (attempts_by_path v)\<rparr>"

definition fail_then_ok ::
  "ext \<Rightarrow> int \<Rightarrow> string \<Rightarrow> string \<Rightarrow> int \<Rightarrow> string option \<Rightarrow> string \<Rightarrow> (int \<times> json) receiver_op" where
  "fail_then_ok ext failures path signature timestamp corr body =
     bind_op (signature_is_valid ext signature timestamp body) (\<lambda>valid.
     if \<not> valid then answer 401 ''invalid''
     else
       bind_op (modify_op (count_attempt path)) (\<lambda>_.
       bind_op (gets_op (attempts_of path)) (\<lambda>n.
       if n \<le> failures then answer 500 ''temporary_failure''
       else
         bind_op (record_webhook body signature (Some path) corr) (\<lambda>_.
         answer 200 ''ok''))))"

definition always_fail :: "ext \<Rightarrow> string \<Rightarrow> int \<Rightarrow> string \<Rightarrow> (int \<times> json) receiver_op" where
  "always_fail ext signature timestamp body =
     bind_op (signature_is_valid ext signature timestamp body) (\<lambda>valid.
     if \<not> valid then answer 401 ''invalid'' else answer 500 ''failed'')"

definition list_received :: "received_webhook list receiver_op" where
  "list_received = gets_op received"

definition reset :: "(int \<times> json) receiver_op" where
  "reset =
     bind_op (modify_op (\<lambda>v. v\<lparr>received := [], attempts_by_path := [], accepted_secrets := [''dev-only-change-me'']\<rparr>)) (\<lambda>_.
     answer 200 ''reset'')"

definition add_secret :: "(string \<times> string) list \<Rightarrow> (int \<times> json) receiver_op" where
  "add_secret payload =
     (case map_of payload ''secret'' of
        None \<Rightarrow> raise (KeyError ''secret'')
      | Some secret \<Rightarrow>
          bind_op (modify_op (\<lambda>v. v\<lparr>accepted_secrets := List.insert secret (accepted_secrets v)\<rparr>)) (\<lambda>_.
          answer 200 ''ok''))"

section \<open>Facts\<close>

text \<open>
  What a positive verification means, and when a signed message passes.  The clock is read once for
  each secret that is tried, and only while the message is checked.
\<close>

lemma any_secret_verifies_sound:
  "any_secret_verifies ext sig ts body secrets v = (Inr True, v') \<Longrightarrow>
     (\<exists>secret \<in> set secrets. sig = sign_webhook ext secret ts body) \<and>
     (\<exists>n \<ge> clock v. n < clock v' \<and> \<bar>unix_time ext n - ts\<bar> \<le> 300) \<and> v' = v\<lparr>clock := clock v'\<rparr>"
proof (induction secrets arbitrary: v)
  case Nil
  then show ?case by (simp add: ret_def)
next
  case (Cons s secrets)
  let ?r = "verify_webhook ext (unix_time ext (clock v)) s sig ts body 300" and ?v = "v\<lparr>clock := Suc (clock v)\<rparr>"
  show ?case
  proof (cases "?r = Inr True")
    case True
    with webhook_auth.accepted_sound [OF this] Cons.prems show ?thesis
      by (auto simp: bind_op_def read_clock_def lift_sum_def ret_def intro!: exI [of _ "clock v"])
  next
    case False
    then have "any_secret_verifies ext sig ts body secrets ?v = (Inr True, v')"
      using Cons.prems by (auto simp: bind_op_def read_clock_def lift_sum_def ret_def split: sum.splits if_splits)
    from Cons.IH [OF this] obtain secret n where "secret \<in> set secrets" "sig = sign_webhook ext secret ts body"
        "Suc (clock v) \<le> n" "n < clock v'" "\<bar>unix_time ext n - ts\<bar> \<le> 300" "v' = v\<lparr>clock := clock v'\<rparr>"
      by auto
    then show ?thesis by (auto intro!: exI [of _ n])
  qed
qed

lemma verify_webhook_ascii:
  assumes "list_all (\<lambda>c. of_char c < (128 :: nat)) sig" and "ascii_digests ext"
  shows "\<exists>b. verify_webhook ext now s sig ts body tol = Inr b"
  using assms int_str_ascii [of ts]
  by (auto simp: verify_webhook_def compare_digest_def sign_webhook_def ascii_digests_def list_all_iff)

lemma any_secret_verifies_complete:
  assumes "secret \<in> set secrets" and "sig = sign_webhook ext secret ts body" and "ascii_digests ext"
    and "\<And>n. clock v \<le> n \<Longrightarrow> n < clock v + length secrets \<Longrightarrow> \<bar>unix_time ext n - ts\<bar> \<le> 300"
  shows "\<exists>n. any_secret_verifies ext sig ts body secrets v = (Inr True, v\<lparr>clock := n\<rparr>)"
  using assms(1,4)
proof (induction secrets arbitrary: v)
  case (Cons s secrets)
  have ascii: "list_all (\<lambda>c. of_char c < (128 :: nat)) sig"
    using int_str_ascii [of ts] assms(2,3) by (auto simp: sign_webhook_def ascii_digests_def list_all_iff)
  obtain b where b: "verify_webhook ext (unix_time ext (clock v)) s sig ts body 300 = Inr b"
    using verify_webhook_ascii [OF ascii assms(3)] by blast
  show ?case
  proof (cases b)
    case True
    then show ?thesis using b by (auto simp: bind_op_def read_clock_def lift_sum_def ret_def)
  next
    case False
    have "s \<noteq> secret"
      using b False verify_webhook_signed [OF assms(3) Cons.prems(2), of "clock v", where k = s and m = body] assms(2) by auto
    then have "secret \<in> set secrets" using Cons.prems by simp
    from Cons.IH [OF this, of "v\<lparr>clock := Suc (clock v)\<rparr>"] show ?thesis
      using b False Cons.prems(2) by (auto simp: bind_op_def read_clock_def lift_sum_def)
  qed
qed simp

text \<open>The endpoints in terms of the verification.\<close>

lemma record_webhook_ok:
  "utf8_ok body \<Longrightarrow> record_webhook body sig path corr v = (Inr (), v\<lparr>received := received v @
     [\<lparr>rw_body = body, rw_signature = sig, rw_path = path, rw_correlation_id = corr\<rparr>]\<rparr>)"
  by (simp add: record_webhook_def decode_body_def bind_op_def lift_sum_def modify_op_def)

lemma utf8_ok_ascii: "list_all (\<lambda>c. of_char c < (128 :: nat)) s \<Longrightarrow> utf8_ok s"
  by (induction s) (auto simp: byte_in_def)

declare utf8_ok.simps [simp del]

text \<open>A signed message, in time, to \<open>receive\<close> and to \<open>fail_then_ok\<close>.\<close>

lemma receive_signed:
  assumes "secret \<in> set (accepted_secrets v)" and "sig = sign_webhook ext secret ts body" and "ascii_digests ext"
    and "\<And>n. clock v \<le> n \<Longrightarrow> n < clock v + length (accepted_secrets v) \<Longrightarrow> \<bar>unix_time ext n - ts\<bar> \<le> 300"
    and "utf8_ok body"
  shows "\<exists>n. receive ext sig ts corr body v = (Inr (200, JObj [(''status'', JStr ''ok'')]),
    v\<lparr>clock := n, received := received v @
      [\<lparr>rw_body = body, rw_signature = sig, rw_path = None, rw_correlation_id = corr\<rparr>]\<rparr>)"
proof -
  obtain n where "any_secret_verifies ext sig ts body (accepted_secrets v) v = (Inr True, v\<lparr>clock := n\<rparr>)"
    using any_secret_verifies_complete [OF assms(1-4)] by blast
  then show ?thesis
    by (auto simp: receive_def signature_is_valid_def bind_op_def gets_op_def answer_def ret_def
        record_webhook_ok [OF assms(5)])
qed

lemma attempts_of_count [simp]: "attempts_of key (count_attempt key v) = attempts_of key v + 1"
  by (simp add: attempts_of_def count_attempt_def)

text \<open>
  The flaky endpoint: with a valid signature in time, attempt number \<open>n\<close> on a path is answered
  with 500 as long as \<open>n\<close> is at most \<open>failures\<close>, and with 200 and a record from then on.
\<close>

lemma fail_then_ok_counts:
  assumes "secret \<in> set (accepted_secrets v)" and "sig = sign_webhook ext secret ts body" and "ascii_digests ext"
    and "\<And>n. clock v \<le> n \<Longrightarrow> n < clock v + length (accepted_secrets v) \<Longrightarrow> \<bar>unix_time ext n - ts\<bar> \<le> 300"
    and "utf8_ok body"
  shows "\<exists>v'. fail_then_ok ext failures path sig ts corr body v =
      (Inr (if attempts_of path v + 1 \<le> failures then (500, JObj [(''status'', JStr ''temporary_failure'')])
            else (200, JObj [(''status'', JStr ''ok'')])), v') \<and>
    attempts_of path v' = attempts_of path v + 1 \<and>
    length (received v') = length (received v) + (if attempts_of path v + 1 \<le> failures then 0 else 1)"
proof -
  obtain n where n: "any_secret_verifies ext sig ts body (accepted_secrets v) v = (Inr True, v\<lparr>clock := n\<rparr>)"
    using any_secret_verifies_complete [OF assms(1-4)] by blast
  have "attempts_of path (v\<lparr>clock := n\<rparr>) = attempts_of path v" by (simp add: attempts_of_def)
  moreover have "attempts_of path (u\<lparr>received := l\<rparr>) = attempts_of path u" for u l by (simp add: attempts_of_def)
  moreover have "received (count_attempt path u) = received u" for u by (simp add: count_attempt_def)
  ultimately show ?thesis
    using n by (simp add: fail_then_ok_def signature_is_valid_def bind_op_def gets_op_def modify_op_def answer_def
        ret_def record_webhook_ok [OF assms(5)])
qed

end
