(* ===== verification/EndToEnd.thy ===== *)
theory EndToEnd
  imports Secrets Receiver
begin

text \<open>
  The dispatcher of the payment service and the receiver of a merchant together: what the dispatcher
  posts with the active secret of an endpoint is accepted by a receiver that knows the secret, and a
  receiver records nothing else.
\<close>

text \<open>
  C38: the receiver records a webhook only if its signature is the one that an accepted secret gives to
  its body and timestamp, and the timestamp is within five minutes of the time at which the receiver
  checks this message: of a reading of the clock that it took while it handled the request.  No
  endpoint records anything else, whatever it answers.
\<close>

theorem only_authentic_webhooks_recorded:
  assumes "received (snd (m v)) \<noteq> received v"
    and "m = receive ext sig ts corr body \<or> m = fail_then_ok ext failures path sig ts corr body \<or>
      m = always_fail ext sig ts body"
  shows "(\<exists>secret \<in> set (accepted_secrets v). sig = sign_webhook ext secret ts body) \<and>
    (\<exists>n \<ge> clock v. n < clock (snd (m v)) \<and> \<bar>unix_time ext n - ts\<bar> \<le> 300) \<and>
    (\<exists>path. received (snd (m v)) = received v @
       [\<lparr>rw_body = body, rw_signature = sig, rw_path = path, rw_correlation_id = corr\<rparr>])"
proof -
  obtain r v1 where check: "any_secret_verifies ext sig ts body (accepted_secrets v) v = (r, v1)"
    by (metis prod.collapse)
  have same: "received (snd (any_secret_verifies ext sig ts body secrets u)) = received u" for secrets u
    by (induction secrets arbitrary: u)
      (auto simp: ret_def bind_op_def read_clock_def lift_sum_def split: sum.split)
  from same [of "accepted_secrets v" v] check have v1: "received v1 = received v" by simp
  have valid: "r = Inr True"
  proof (cases r)
    case (Inr b)
    then show ?thesis
      using assms check v1
      by (cases b) (auto simp: receive_def fail_then_ok_def always_fail_def signature_is_valid_def bind_op_def
          gets_op_def answer_def ret_def)
  qed (use assms check v1 in \<open>auto simp: receive_def fail_then_ok_def always_fail_def signature_is_valid_def
    bind_op_def gets_op_def\<close>)
  have "\<exists>path. received (snd (m v)) = received v @
       [\<lparr>rw_body = body, rw_signature = sig, rw_path = path, rw_correlation_id = corr\<rparr>]"
    using assms check v1 valid
    by (auto simp: receive_def fail_then_ok_def always_fail_def signature_is_valid_def bind_op_def gets_op_def
        answer_def ret_def record_webhook_def decode_body_def lift_sum_def modify_op_def count_attempt_def
        split: if_splits)
  moreover have "clock (snd (m v)) = clock v1"
    using assms check valid
    by (auto simp: receive_def fail_then_ok_def always_fail_def signature_is_valid_def bind_op_def gets_op_def
        answer_def ret_def record_webhook_def decode_body_def lift_sum_def modify_op_def count_attempt_def
        split: if_splits)
  ultimately show ?thesis
    using any_secret_verifies_sound [OF check [unfolded valid]] by auto
qed

text \<open>A clock that runs out of the window after one reading.\<close>

definition merchant_ext :: ext where
  "merchant_ext = sample_ext\<lparr>unix_time := (\<lambda>n. 1000 + 400 * int n)\<rparr>"

lemma merchant_ext_ascii: "ascii_digests merchant_ext"
  by (simp add: ascii_digests_def merchant_ext_def sample_ext_def)

lemma only_authentic_webhooks_recorded_witness:
  "\<exists>path. received (snd (receive merchant_ext (sign_webhook merchant_ext ''dev-only-change-me'' 990 ''hello'') 990 None
       ''hello'' initial_receiver)) =
     [\<lparr>rw_body = ''hello'', rw_signature = sign_webhook merchant_ext ''dev-only-change-me'' 990 ''hello'',
       rw_path = path, rw_correlation_id = None\<rparr>]"
proof -
  let ?sig = "sign_webhook merchant_ext ''dev-only-change-me'' 990 ''hello''"
  have "utf8_ok ''hello''" by (rule utf8_ok_ascii) simp
  moreover have "\<bar>unix_time merchant_ext n - 990\<bar> \<le> 300"
    if "n < clock initial_receiver + length (accepted_secrets initial_receiver)" for n
    using that by (simp add: merchant_ext_def initial_receiver_def)
  moreover have "''dev-only-change-me'' \<in> set (accepted_secrets initial_receiver)" by (simp add: initial_receiver_def)
  ultimately obtain n where "receive merchant_ext ?sig 990 None ''hello'' initial_receiver =
      (Inr (200, JObj [(''status'', JStr ''ok'')]), initial_receiver\<lparr>clock := n, received := received initial_receiver @
        [\<lparr>rw_body = ''hello'', rw_signature = ?sig, rw_path = None, rw_correlation_id = None\<rparr>]\<rparr>)"
    using receive_signed [of "''dev-only-change-me''" initial_receiver, OF _ refl merchant_ext_ascii] by blast
  then have "received (snd (receive merchant_ext ?sig 990 None ''hello'' initial_receiver)) \<noteq> received initial_receiver"
    by simp
  from only_authentic_webhooks_recorded [where m = "receive merchant_ext ?sig 990 None ''hello''" and v = initial_receiver,
      OF this disjI1 [OF refl]] show ?thesis by (auto simp: initial_receiver_def)
qed

section \<open>What the dispatcher posts\<close>

lemma digit_char_ascii: "n < 16 \<Longrightarrow> of_char (digit_char n) < (128 :: nat)"
proof -
  have "list_all (\<lambda>n. of_char (digit_char n) < (128 :: nat)) [0..<16]" by code_simp
  then show "n < 16 \<Longrightarrow> ?thesis" by (simp add: list_all_iff)
qed

lemma escape_char_ascii: "list_all (\<lambda>c. of_char c < (128 :: nat)) (escape_char c)"
  by (simp add: escape_char_def Let_def digit_char_ascii)

lemma delivery_body_ascii: "list_all (\<lambda>c. of_char c < (128 :: nat)) (delivery_body ext r)"
  using escape_char_ascii by (auto simp: delivery_body_def json_quote_def list_all_iff)

lemma frames_requests_outcome:
  "frames requests (on_response ext r n status)" "frames requests (on_http_error ext r n msg)"
  unfolding on_response_def on_http_error_def count_failure_def retry_at_def set_delivery_def now_def statement_defs
  by (intro frame_intros; simp)+

lemma dispatch_delivery_posts:
  assumes "row_at w_id (d_endpoint_id r) (webhook_endpoints (tables w)) = Some e"
    and "active_webhook_secret ext (w_id e) w = (Inr secret, w)"
  shows "wp (dispatch_delivery ext reply r)
    (\<lambda>_ v. \<exists>corr. requests v = requests w @
       [\<lparr>post_url = url e, post_body = delivery_body ext r,
         post_signature = sign_webhook ext secret (unix_time ext (draws w)) (delivery_body ext r),
         post_timestamp = int_str (unix_time ext (draws w)), post_correlation_id = corr\<rparr>])
    (\<lambda>_ _. True) w"
proof -
  have secret: "wp (active_webhook_secret ext (w_id e)) Q E w = Q secret w" for Q E
    by (simp add: wp_def assms(2))
  show ?thesis
    unfolding dispatch_delivery_def Let_def post_webhook_def sign_delivery_body_def
    by (simp add: wp_simps assms(1) secret split: sum.split)
      (auto intro!: wp_frames [OF frames_requests_outcome(1)] wp_frames [OF frames_requests_outcome(2)])
qed

text \<open>
  C37: end to end: when the dispatcher has sent a delivery of an endpoint, the request is one that the
  merchant's receiver accepts and records with the correlation id, provided it knows the active
  secret and its clock, while it handles this request, is within five minutes of the time at which
  the dispatcher signed.  The receiver reads its clock at most once for each secret it accepts; no
  other reading matters.
\<close>

theorem webhook_end_to_end:
  assumes "dispatch_delivery ext reply r w = (Inr k, w')"
    and "row_at w_id (d_endpoint_id r) (webhook_endpoints (tables w)) = Some e"
    and "active_webhook_secret ext (w_id e) w = (Inr secret, w)"
    and "secret \<in> set (accepted_secrets v)" and "ascii_digests mext" and "hmac_sha256 mext = hmac_sha256 ext"
    and "\<And>n. clock v \<le> n \<Longrightarrow> n < clock v + length (accepted_secrets v) \<Longrightarrow>
      \<bar>unix_time mext n - unix_time ext (draws w)\<bar> \<le> 300"
  shows "\<exists>p n. requests w' = requests w @ [p] \<and> post_url p = url e \<and>
    post_timestamp p = int_str (unix_time ext (draws w)) \<and>
    receive mext (post_signature p) (unix_time ext (draws w)) (Some (post_correlation_id p)) (post_body p) v =
      (Inr (200, JObj [(''status'', JStr ''ok'')]),
       v\<lparr>clock := n, received := received v @
         [\<lparr>rw_body = post_body p, rw_signature = post_signature p, rw_path = None,
           rw_correlation_id = Some (post_correlation_id p)\<rparr>]\<rparr>)"
proof -
  let ?ts = "unix_time ext (draws w)" and ?body = "delivery_body ext r"
  obtain corr where p: "requests w' = requests w @
       [\<lparr>post_url = url e, post_body = ?body, post_signature = sign_webhook ext secret ?ts ?body,
         post_timestamp = int_str ?ts, post_correlation_id = corr\<rparr>]"
    using wp_result [OF dispatch_delivery_posts [OF assms(2,3)] assms(1)] by blast
  have "sign_webhook mext secret ?ts ?body = sign_webhook ext secret ?ts ?body"
    by (simp add: sign_webhook_def assms(6))
  then show ?thesis
    using receive_signed [OF assms(4) _ assms(5,7) utf8_ok_ascii [OF delivery_body_ascii], of _ ext r "Some corr"] p
    by auto
qed

lemma webhook_end_to_end_witness:
  "\<exists>(w' :: world) p n v'. requests w' = [p] \<and>
     receive (sample_ext\<lparr>unix_time := (\<lambda>n. 100 + 400 * int n)\<rparr>) (post_signature p) 100 (Some (post_correlation_id p)) (post_body p)
       (initial_receiver\<lparr>accepted_secrets := [''whsec_token'']\<rparr>) = (Inr (200, JObj [(''status'', JStr ''ok'')]), v')"
proof -
  obtain w' where w': "dispatch_delivery sample_ext (\<lambda>_. Inr 404) pending_delivery delivery_world = (Inr 0, w')"
    using ran [OF sample_dispatch] ..
  have "row_at w_id (d_endpoint_id pending_delivery) (webhook_endpoints (tables delivery_world)) = Some sample_endpoint"
    by (simp add: pending_delivery_def delivery_world_def shop_db_def sample_endpoint_def row_simps)
  moreover have "active_webhook_secret sample_ext (w_id sample_endpoint) delivery_world = (Inr ''whsec_token'', delivery_world)"
    by (simp add: sample_dispatch_defs)
  moreover have "ascii_digests (sample_ext\<lparr>unix_time := (\<lambda>n. 100 + 400 * int n)\<rparr>)" by (simp add: ascii_digests_def sample_ext_def)
  moreover have "unix_time sample_ext (draws delivery_world) = 100" "requests delivery_world = []"
    by (simp_all add: sample_ext_def delivery_world_def shop_world_def initial_world_def)
  ultimately show ?thesis
    using webhook_end_to_end [OF w', of sample_endpoint "''whsec_token''"
        "initial_receiver\<lparr>accepted_secrets := [''whsec_token'']\<rparr>" "sample_ext\<lparr>unix_time := (\<lambda>n. 100 + 400 * int n)\<rparr>"]
    by (auto simp: initial_receiver_def)
qed

end
