(* ===== verification/Access.thy ===== *)
theory Access
  imports EndToEnd
begin

text \<open>
  Who may do what over the API: requests without a valid key or scope, requests that fail, and the
  separation of the merchants from each other.
\<close>

section \<open>Failed requests\<close>

text \<open>A computation that raises has left the tables alone.\<close>

definition clean :: "'a db_op \<Rightarrow> bool" where
  "clean m \<longleftrightarrow> (\<forall>w e w'. m w = (Inl e, w') \<longrightarrow> tables w' = tables w)"

named_theorems clean_intros \<open>rules for computations that leave the tables alone when they raise\<close>

lemma clean_ret [clean_intros]: "clean (ret a)"
  by (simp add: clean_def ret_def)

lemma clean_raise [clean_intros]: "clean (raise e)"
  by (simp add: clean_def raise_def)

lemma clean_lift_sum [clean_intros]: "clean (lift_sum r)"
  by (simp add: clean_def lift_sum_def)

lemma clean_atomically [clean_intros]: "clean (atomically m)"
  by (auto simp: clean_def dest: atomically_raises)

lemma clean_bind_read:
  "frames tables m \<Longrightarrow> (\<And>a. clean (f a)) \<Longrightarrow> clean (bind_op m f)"
  unfolding clean_def bind_op_def frames_def
  by (auto split: prod.splits sum.splits) (metis snd_conv)+

lemma clean_bind_ret: "clean m \<Longrightarrow> clean (bind_op m (\<lambda>a. ret (f a)))"
  by (auto simp: clean_def bind_op_def ret_def split: prod.splits sum.splits)

lemma clean_option [clean_intros]:
  "clean m \<Longrightarrow> (\<And>x. clean (f x)) \<Longrightarrow> clean (case v of None \<Rightarrow> m | Some x \<Rightarrow> f x)"
  by (cases v) auto

text \<open>The authorize route is the one that commits a failure.\<close>

definition commits_failures :: "request \<Rightarrow> bool" where
  "commits_failures req \<longleftrightarrow> (\<exists>pid. req = Authorize pid)"

lemma clean_route:
  assumes "\<not> commits_failures req"
  shows "clean (route ext corr auth req)"
  using assms
  by (cases req; simp only: commits_failures_def route.simps with_status_def create_merchant_route_def
      create_customer_route_def fund_account_route_def create_payment_route_def get_payment_route_def
      capture_route_def cancel_route_def refund_route_def register_webhook_route_def
      rotate_webhook_secret_route_def replay_webhook_delivery_route_def)
    (intro clean_bind_ret clean_bind_read clean_intros frame_intros frames_require_api_key | simp)+

lemma frames_correlation_id: "frames tables (correlation_id_of ext raw)"
  unfolding correlation_id_of_def fresh_id_def by (intro frame_intros) simp_all

lemma clean_catch_raise: "clean m \<Longrightarrow> clean (catch_op m (\<lambda>e. raise (f e)))"
  by (auto simp: clean_def catch_op_def raise_def split: prod.splits sum.splits)

text \<open>
  C16: atomicity of requests: a request that ends in an error, whatever its status, has changed no table,
  except that a failed authorisation commits the failure.
\<close>

theorem failed_request_changes_nothing:
  assumes "serve ext raw auth req w = (Inl e, w')" and "\<not> commits_failures req"
  shows "tables w' = tables w"
proof -
  have "clean (serve ext raw auth req)"
    unfolding serve_def by (intro clean_bind_read frames_correlation_id clean_catch_raise clean_route assms(2))
  then show ?thesis using assms(1) by (simp add: clean_def)
qed

section \<open>Authentication and scopes\<close>

text \<open>The principal that an authorization header stands for.\<close>

definition caller :: "ext \<Rightarrow> string option \<Rightarrow> db \<Rightarrow> principal option" where
  "caller ext auth d =
     (case auth of
        None \<Rightarrow> None
      | Some header \<Rightarrow>
          if \<not> startswith ''Bearer '' header then None
          else map_option (\<lambda>k. \<lparr>pl_merchant_id = k_merchant_id k, pl_scopes = scopes k\<rparr>)
            (find (\<lambda>k. key_hash k = hash_secret ext (strip (removeprefix ''Bearer '' header)) \<and> revoked_at k = None)
              (api_keys d)))"

fun needed_scope :: "request \<Rightarrow> string" where
  "needed_scope (GetPayment pid) = ''payments:read''"
| "needed_scope (RefundPayment pid n) = ''refunds:write''"
| "needed_scope (RegisterWebhook address types) = ''webhooks:manage''"
| "needed_scope (RotateSecret eid) = ''webhooks:manage''"
| "needed_scope (ReplayDelivery did) = ''webhooks:manage''"
| "needed_scope _ = ''payments:write''"

fun open_request :: "request \<Rightarrow> bool" where
  "open_request (CreateMerchant name level) = True"
| "open_request _ = False"

definition permitted :: "ext \<Rightarrow> string option \<Rightarrow> request \<Rightarrow> db \<Rightarrow> bool" where
  "permitted ext auth req d \<longleftrightarrow>
     open_request req \<or> (case caller ext auth d of None \<Rightarrow> False | Some p \<Rightarrow> needed_scope req \<in> set (pl_scopes p))"

definition missing_key :: "string option \<Rightarrow> bool" where
  "missing_key auth \<longleftrightarrow> (case auth of None \<Rightarrow> True | Some header \<Rightarrow> \<not> startswith ''Bearer '' header)"

lemma wp_require_api_key:
  "wp (require_api_key ext corr auth) Q E w =
     (case caller ext auth (tables w) of
        Some p \<Rightarrow> Q p w
      | None \<Rightarrow> E (HTTPException 401 ''UNAUTHENTICATED''
          (if missing_key auth then ''Missing bearer API key.'' else ''Invalid API key.'') corr) w)"
  by (auto simp: require_api_key_def caller_def missing_key_def wp_simps Let_def api_error_def split: option.split)

lemma wp_require_scope:
  "wp (lift_sum (require_scope p s corr)) Q E w =
     (if s \<in> set (pl_scopes p) then Q () w
      else E (HTTPException 403 ''INSUFFICIENT_SCOPE'' ''API key does not have required scope.'' corr) w)"
  by (simp add: require_scope_def wp_simps api_error_def)

text \<open>Validation of the fields of a request raises nothing but \<open>ValidationError\<close>.\<close>

definition validates :: "exn + 'a \<Rightarrow> bool" where
  "validates r \<longleftrightarrow> (case r of Inl e \<Rightarrow> e = ValidationError | Inr _ \<Rightarrow> True)"

lemma wp_validates:
  "validates r \<Longrightarrow> (\<And>a. Q a w) \<Longrightarrow> E ValidationError w \<Longrightarrow> wp (lift_sum r) Q E w"
  by (auto simp: validates_def wp_simps split: sum.splits)

lemma validates_fields:
  "validates (path_uuid ext s)" "validates (required_header h)" "validates (MerchantCreate name level)"
  "validates (CustomerCreate ext address cur)" "validates (FundAccountRequest n cur)"
  "validates (PaymentCreate ext customer n cur)" "validates (RefundRequest n)"
  "validates (WebhookEndpointCreate ext address types)"
  by (simp_all add: validates_def path_uuid_def required_header_def MerchantCreate_def CustomerCreate_def
      FundAccountRequest_def PaymentCreate_def RefundRequest_def WebhookEndpointCreate_def split: option.split)

definition refused :: "ext \<Rightarrow> string option \<Rightarrow> world \<Rightarrow> exn \<Rightarrow> world \<Rightarrow> bool" where
  "refused ext auth w e v \<longleftrightarrow>
     tables v = tables w \<and> (\<forall>c. handle_exception c e = e) \<and>
     http_status (Inl e) \<in> (if caller ext auth (tables w) = None then {401} else {403, 422})"

text \<open>One rule for each check that a route makes.\<close>

lemma refused_without_key:
  "(\<And>p. caller ext auth (tables w) = Some p \<Longrightarrow> wp (f p) (\<lambda>_ _. False) (refused ext auth w) w) \<Longrightarrow>
     wp (bind_op (require_api_key ext corr auth) f) (\<lambda>_ _. False) (refused ext auth w) w"
  by (auto simp: wp_bind wp_require_api_key refused_def split: option.split)

lemma refused_invalid:
  "validates r \<Longrightarrow> caller ext auth (tables w) = Some p \<Longrightarrow>
     (\<And>a. wp (f a) (\<lambda>_ _. False) (refused ext auth w) w) \<Longrightarrow>
     wp (bind_op (lift_sum r) f) (\<lambda>_ _. False) (refused ext auth w) w"
  unfolding wp_bind by (rule wp_validates) (simp_all add: refused_def)

lemma refused_without_scope:
  "caller ext auth (tables w) = Some p \<Longrightarrow> s \<notin> set (pl_scopes p) \<Longrightarrow>
     wp (bind_op (lift_sum (require_scope p s corr)) f) (\<lambda>_ _. False) (refused ext auth w) w"
  by (simp add: wp_bind wp_require_scope refused_def)

lemma refused_with_status:
  "wp m (\<lambda>_ _. False) E w \<Longrightarrow> wp (with_status status m) (\<lambda>_ _. False) E w"
  by (simp add: with_status_def wp_bind) (erule wp_mono; simp)

lemma route_refused:
  assumes "\<not> permitted ext auth req (tables w)"
  shows "wp (route ext corr auth req) (\<lambda>_ _. False) (refused ext auth w) w"
proof (cases "open_request req")
  case True
  then show ?thesis using assms by (simp add: permitted_def)
next
  case False
  have scope: "needed_scope req \<notin> set (pl_scopes p)" if "caller ext auth (tables w) = Some p" for p
    using assms that by (simp add: permitted_def)
  show ?thesis
    using False scope
    by (cases req; simp only: route.simps open_request.simps needed_scope.simps simp_thms create_customer_route_def
        fund_account_route_def create_payment_route_def get_payment_route_def authorize_route_def capture_route_def
        cancel_route_def refund_route_def register_webhook_route_def rotate_webhook_secret_route_def
        replay_webhook_delivery_route_def)
      ((intro refused_with_status)?, rule refused_without_key,
       ((rule refused_invalid, rule validates_fields, assumption)+)?, rule refused_without_scope, assumption, blast)+
qed

text \<open>A correlation id the middleware accepts.\<close>

definition correlation_ok :: "string option \<Rightarrow> bool" where
  "correlation_ok raw \<longleftrightarrow> (case raw of None \<Rightarrow> True | Some s \<Rightarrow> s = [] \<or> uuid_parse s \<noteq> None)"

lemma correlation_id_ok:
  "correlation_ok raw \<Longrightarrow> \<exists>corr w'. correlation_id_of ext raw w = (Inr corr, w') \<and> tables w' = tables w"
  by (auto simp: correlation_ok_def correlation_id_of_def fresh_id_def draw_def lift_sum_def UUID_def split: option.splits)

text \<open>
  C15: no request gets past authentication and scopes: without a valid API key every request but the
  creation of a merchant is answered with 401, and without the scope of the endpoint with 403 (or 422
  when its fields do not validate, which FastAPI checks first); nothing changes in the database.
\<close>

theorem unauthorized_requests_refused:
  assumes "\<not> permitted ext auth req (tables w)" and "correlation_ok raw"
  shows "http_status (fst (serve ext raw auth req w)) \<in>
      (if caller ext auth (tables w) = None then {401} else {403, 422}) \<and>
    tables (snd (serve ext raw auth req w)) = tables w"
proof -
  obtain corr v where v: "correlation_id_of ext raw w = (Inr corr, v)" "tables v = tables w"
    using correlation_id_ok [OF assms(2)] by blast
  have "wp (route ext corr auth req) (\<lambda>_ _. False) (refused ext auth v) v"
    using assms(1) v(2) by (intro route_refused) simp
  then obtain e u where "route ext corr auth req v = (Inl e, u)" "refused ext auth v e u"
    by (auto simp: wp_def split: prod.splits sum.splits)
  then show ?thesis
    using v by (simp add: serve_def bind_op_def catch_op_def raise_def refused_def)
qed

lemma unauthorized_requests_refused_witness:
  "http_status (fst (serve sample_ext None (Some ''Bearer wrong'') (Capture (uuid_str 20)) shop_world)) = 401"
proof -
  have "caller sample_ext (Some ''Bearer wrong'') (tables shop_world) = None"
    by (simp add: caller_def shop_world_def shop_db_def hash_secret_def sample_ext_def startswith_def
        removeprefix_def strip_def strip_chars_def is_space_def)
  then show ?thesis
    using unauthorized_requests_refused [of sample_ext "Some ''Bearer wrong''" "Capture (uuid_str 20)" shop_world None]
    by (simp add: permitted_def correlation_ok_def)
qed

lemma failed_request_changes_nothing_witness:
  "\<exists>e w'. serve sample_ext None None (Cancel (uuid_str 20)) shop_world = (Inl e, w') \<and> tables w' = shop_db"
proof -
  obtain e w' where s: "serve sample_ext None None (Cancel (uuid_str 20)) shop_world = (Inl e, w')"
    by (simp add: serve_def correlation_id_of_def cancel_route_def with_status_def require_api_key_def sample_run
        api_error_def)
  from failed_request_changes_nothing [OF this] show ?thesis
    using s by (simp add: commits_failures_def shop_world_def)
qed

end
