(* ===== verification/RequestSteps.thy ===== *)
theory RequestSteps
  imports Access
begin

text \<open>
  What one request can do to the tables, from what its transaction can do.  The locale \<open>request_step\<close>
  is the contract of a relation \<open>R\<close> between the tables before and after: every transaction stays in \<open>R\<close>
  in databases that satisfy \<open>P\<close>, for the merchants that are \<open>allowed\<close>.  Then every request of an
  allowed caller stays in \<open>R\<close>, whatever its outcome.
\<close>

section \<open>Computations within a relation\<close>

definition stays_in :: "(db \<Rightarrow> db \<Rightarrow> bool) \<Rightarrow> world \<Rightarrow> 'a db_op \<Rightarrow> bool" where
  "stays_in R w s \<longleftrightarrow> R (tables w) (tables (snd (s w)))"

named_theorems stays_in_intros \<open>rules that decompose a route\<close>

lemma stays_in_bind_lift [stays_in_intros]:
  "R (tables w) (tables w) \<Longrightarrow> (\<And>a. r = Inr a \<Longrightarrow> stays_in R w (f a)) \<Longrightarrow> stays_in R w (bind_op (lift_sum r) f)"
  by (simp add: stays_in_def bind_op_def lift_sum_def split: sum.split)

lemma stays_in_bind_ret [stays_in_intros]: "stays_in R w s \<Longrightarrow> stays_in R w (bind_op s (\<lambda>a. ret (f a)))"
  by (auto simp: stays_in_def bind_op_def ret_def split: prod.splits sum.splits)

lemma stays_in_then_lift [stays_in_intros]: "stays_in R w s \<Longrightarrow> stays_in R w (bind_op s (\<lambda>a. lift_sum (f a)))"
  by (auto simp: stays_in_def bind_op_def lift_sum_def split: prod.splits sum.splits)

lemma stays_in_caller [stays_in_intros]:
  "R (tables w) (tables w) \<Longrightarrow> (\<And>p. caller ext auth (tables w) = Some p \<Longrightarrow> stays_in R w (f p)) \<Longrightarrow>
     stays_in R w (bind_op (require_api_key ext corr auth) f)"
  using wp_require_api_key [of ext corr auth "\<lambda>p v. caller ext auth (tables w) = Some p \<and> v = w" "\<lambda>_ v. v = w" w]
  by (auto simp: stays_in_def bind_op_def wp_def split: prod.splits sum.splits option.splits)

lemma stays_in_transaction:
  assumes "R (tables w) (tables w)"
    and "wp s (\<lambda>_ v. R (tables (w\<lparr>deferred := []\<rparr>)) (tables v)) (\<lambda>_ _. True) (w\<lparr>deferred := []\<rparr>)"
  shows "stays_in R w (atomically s)"
  using assms by (auto simp: stays_in_def wp_def atomically_def rollback_def split: prod.splits sum.splits)

lemma stays_in_frames: "R (tables w) (tables w) \<Longrightarrow> frames tables s \<Longrightarrow> stays_in R w s"
  by (simp add: stays_in_def framesD)

section \<open>The contract\<close>

locale request_step =
  fixes ext :: ext and P :: "db \<Rightarrow> bool" and allowed :: "uuid \<Rightarrow> bool" and R :: "db \<Rightarrow> db \<Rightarrow> bool"
  assumes stays: "R d d"
    and tx_create_merchant: "P (tables w) \<Longrightarrow>
      wp (create_merchant ext mreq corr) (\<lambda>_ v. R (tables w) (tables v)) (\<lambda>_ _. True) w"
    and tx_create_customer: "P (tables w) \<Longrightarrow> allowed m \<Longrightarrow>
      wp (create_customer ext m creq corr) (\<lambda>_ v. R (tables w) (tables v)) (\<lambda>_ _. True) w"
    and tx_fund_account: "P (tables w) \<Longrightarrow> allowed m \<Longrightarrow> 0 < fr_amount_minor freq \<Longrightarrow>
      wp (fund_account ext m a freq corr) (\<lambda>_ v. R (tables w) (tables v)) (\<lambda>_ _. True) w"
    and tx_create_payment: "P (tables w) \<Longrightarrow> allowed m \<Longrightarrow> 0 < pr_amount_minor preq \<Longrightarrow>
      wp (create_payment ext m preq key corr) (\<lambda>_ v. R (tables w) (tables v)) (\<lambda>_ _. True) w"
    and tx_authorize: "P (tables w) \<Longrightarrow> allowed m \<Longrightarrow>
      wp (authorize_block ext m p corr) (\<lambda>_ v. R (tables w) (tables v)) (\<lambda>_ _. True) w"
    and tx_capture: "P (tables w) \<Longrightarrow> allowed m \<Longrightarrow>
      wp (capture_payment ext m p corr) (\<lambda>_ v. R (tables w) (tables v)) (\<lambda>_ _. True) w"
    and tx_cancel: "P (tables w) \<Longrightarrow> allowed m \<Longrightarrow>
      wp (cancel_payment ext m p corr) (\<lambda>_ v. R (tables w) (tables v)) (\<lambda>_ _. True) w"
    and tx_refund: "P (tables w) \<Longrightarrow> allowed m \<Longrightarrow>
      wp (refund_payment ext m p rreq corr) (\<lambda>_ v. R (tables w) (tables v)) (\<lambda>_ _. True) w"
    and tx_register: "P (tables w) \<Longrightarrow> allowed m \<Longrightarrow>
      wp (register_webhook ext m wreq corr) (\<lambda>_ v. R (tables w) (tables v)) (\<lambda>_ _. True) w"
    and tx_rotate: "P (tables w) \<Longrightarrow> allowed m \<Longrightarrow>
      wp (rotate_webhook_secret ext m e corr) (\<lambda>_ v. R (tables w) (tables v)) (\<lambda>_ _. True) w"
    and tx_replay: "P (tables w) \<Longrightarrow> allowed m \<Longrightarrow>
      wp (replay_delivery ext m d' corr) (\<lambda>_ v. R (tables w) (tables v)) (\<lambda>_ _. True) w"
begin

lemmas transactions_stay = tx_create_merchant tx_create_customer tx_fund_account tx_create_payment tx_authorize
  tx_capture tx_cancel tx_refund tx_register tx_rotate tx_replay

lemma route_stays_in:
  assumes "P (tables w)" and "\<And>p. caller ext auth (tables w) = Some p \<Longrightarrow> allowed (pl_merchant_id p)"
  shows "stays_in R w (route ext corr auth req)"
proof -
  have P: "P (tables (w\<lparr>deferred := []\<rparr>))" using assms(1) by simp
  have get: "stays_in R w (get_payment_route ext corr auth pid)" for pid
    unfolding get_payment_route_def by (intro stays_in_frames stays frame_intros frames_require_api_key)
  show ?thesis
    by (cases req; simp only: route.simps with_status_def create_merchant_route_def create_customer_route_def
        fund_account_route_def create_payment_route_def authorize_route_def capture_route_def cancel_route_def
        refund_route_def register_webhook_route_def rotate_webhook_secret_route_def replay_webhook_delivery_route_def)
      (intro get stays_in_intros stays_in_transaction stays transactions_stay P assms(2) FundAccountRequest_Inr
        PaymentCreate_Inr; assumption)+
qed

lemma serve_stays_in:
  assumes "P (tables w)" and "\<And>p. caller ext auth (tables w) = Some p \<Longrightarrow> allowed (pl_merchant_id p)"
  shows "R (tables w) (tables (snd (serve ext raw auth req w)))"
proof -
  obtain r v where v: "correlation_id_of ext raw w = (r, v)" by (metis prod.collapse)
  have same: "tables v = tables w" using framesD [OF frames_correlation_id, of ext raw w] v by simp
  have "stays_in R v (route ext corr auth req)" for corr
    using assms same by (intro route_stays_in) simp_all
  then show ?thesis
    using v same stays [of "tables w"]
    by (auto simp: serve_def bind_op_def catch_op_def raise_def stays_in_def split: prod.splits sum.splits) (metis snd_conv)+
qed

end

end
