(* ===== verification/Postings.thy ===== *)
theory Postings
  imports RequestSteps
begin

text \<open>
  Where the money of each operation is booked.  \<open>new_posting\<close> says that exactly one journal was added,
  with one debit and one credit, and names the two ledger accounts by owner, name and currency; funding,
  capture and refund each post between the accounts that \<open>service.py\<close> passes to \<open>create_journal\<close>.
\<close>

text \<open>The journal \<open>j\<close> with its debit \<open>e\<close> of the account \<open>x\<close> and its credit \<open>f\<close> of the account \<open>y\<close>.\<close>

definition transfer ::
  "string \<times> uuid \<Rightarrow> ledger_account \<Rightarrow> ledger_account \<Rightarrow> int \<Rightarrow> journal \<Rightarrow> journal_entry \<Rightarrow> journal_entry \<Rightarrow> bool" where
  "transfer ref x y n j e f \<longleftrightarrow>
     0 < n \<and> j_reference j = ref \<and> e_journal_id e = j_id j \<and> e_journal_id f = j_id j \<and>
     ledger_account_id e = la_id x \<and> ledger_account_id f = la_id y \<and>
     e_direction e = ''DEBIT'' \<and> e_direction f = ''CREDIT'' \<and> e_amount_minor e = n \<and> e_amount_minor f = n \<and>
     e_currency e = j_currency j \<and> e_currency f = j_currency j \<and>
     la_currency x = j_currency j \<and> la_currency y = j_currency j"

definition new_posting ::
  "string \<times> uuid \<Rightarrow> uuid \<times> string \<times> string \<Rightarrow> uuid \<times> string \<times> string \<Rightarrow> int \<Rightarrow> db \<Rightarrow> db \<Rightarrow> bool" where
  "new_posting ref debited credited n d d' \<longleftrightarrow>
     (\<exists>las x y j e f. ledger_accounts d' = ledger_accounts d @ las \<and> la_key ` set las \<subseteq> {debited, credited} \<and>
        x \<in> set (ledger_accounts d') \<and> y \<in> set (ledger_accounts d') \<and> la_key x = debited \<and> la_key y = credited \<and>
        journals d' = journals d @ [j] \<and> journal_entries d' = journal_entries d @ [e, f] \<and>
        j_id j \<notin> j_id ` set (journals d) \<and> transfer ref x y n j e f)"

lemma new_postingI:
  assumes "posts d0 rtype rid cur (la_id x) (la_id y) m j e f" and "journals d0 = journals d"
    and "ledger_accounts d' = ledger_accounts d @ las" and "set las \<subseteq> {x, y}"
    and "x \<in> set (ledger_accounts d')" and "y \<in> set (ledger_accounts d')"
    and "la_key x = (ow, nx, cur)" and "la_key y = (ow', ny, cur)"
    and "journals d' = journals d @ [j]" and "journal_entries d' = journal_entries d @ [e, f]"
    and "amount_minor m = n" and "currency_value (money_currency m) = cur"
    and "ref = (rtype, rid)" and "k = (ow, nx, cur)" and "k' = (ow', ny, cur)"
  shows "new_posting ref k k' n d d'"
proof -
  have "la_key ` set las \<subseteq> {k, k'}" using assms(4,7,8,14,15) by auto
  moreover have "transfer ref x y n j e f"
    using assms(1,7,8,11-13) by (auto simp: posts_def transfer_def j_reference_def la_key_def)
  moreover have "j_id j \<notin> j_id ` set (journals d)" using assms(1,2) by (simp add: posts_def)
  ultimately show ?thesis unfolding new_posting_def using assms(3,5-10,14,15) by blast
qed

text \<open>The accounts that two calls of \<open>ensure_ledger_account\<close> added, in either order of the sides.\<close>

lemma ensured_accounts:
  assumes "xs = [] \<or> xs = [a] \<and> P" and "ys = [] \<or> ys = [b] \<and> Q"
  shows "set (xs @ ys) \<subseteq> {a, b}" "set (xs @ ys) \<subseteq> {b, a}"
  using assms by auto

lemma ensured_member: "a \<in> A \<or> a \<in> B \<Longrightarrow> a \<in> A \<or> a \<in> B \<or> a \<in> C"
  by blast

lemma payment_for_update_id:
  "payment_for_update pid mid d = Some p \<Longrightarrow> (rtype, pid) = (rtype, p_id p)"
  by (simp add: payment_for_update_SomeD)

lemma customer_key:
  "row_at c_id i cs = Some c \<Longrightarrow> (i, n, cur) = (c_id c, n, cur)"
  using row_at_SomeD [of c_id i cs c] by simp

lemma account_key:
  "row_at a_id i as = Some a \<Longrightarrow> (rtype, i) = (rtype, a_id a)"
  using row_at_SomeD [of a_id i as a] by simp

lemmas posting_facts = ensured_accounts ensured_member payment_for_update_id customer_key account_key

lemma capture_payment_posting:
  assumes ok: "books_ok (tables w)"
  shows "wp (capture_payment ext mid pid corr)
    (\<lambda>_ v. \<forall>p. payment_for_update pid mid (tables w) = Some p \<longrightarrow>
       new_posting (''payment_capture'', pid) (mid, ''merchant_receivable'', p_currency p)
         (p_customer_id p, ''customer_cash'', p_currency p) (p_amount_minor p) (tables w) (tables v))
    (\<lambda>_ _. True) w"
  unfolding capture_payment_def Let_def now_def
  apply (clarsimp simp: wp_simps split: option.split sum.split)
  apply (rule ensure_ledger_account_rule)
  apply (clarsimp simp: wp_simps)
  apply (rule ensure_ledger_account_rule)
  apply (clarsimp simp: wp_simps Money_def line_builders Currency_Inr split: sum.split)
  apply (rule create_journal_ruleE)
   apply (rule create_journal_rule, rule refl, simp, simp)
   apply (clarsimp simp: wp_simps update_payment_def payment_row [OF ok, of pid mid] audit_payment_def)
   apply (rule append_outbox_rule)
   apply (clarsimp simp: wp_simps)
   apply (rule append_audit_rule)
   apply (clarsimp simp: wp_simps)
   apply (rule new_postingI, assumption, simp, simp)
               apply (assumption | rule refl | rule posting_facts, assumption+ | simp (no_asm))+
  apply (simp add: wp_raise)
  done

lemma refund_payment_posting:
  assumes ok: "books_ok (tables w)"
  shows "wp (refund_payment ext mid pid req corr)
    (\<lambda>_ v. \<forall>p r. payment_for_update pid mid (tables w) = Some p \<longrightarrow> refunds (tables v) = refunds (tables w) @ [r] \<longrightarrow>
       new_posting (''payment_refund'', r_id r) (p_customer_id p, ''customer_cash'', p_currency p)
         (mid, ''merchant_receivable'', p_currency p) (r_amount_minor r) (tables w) (tables v))
    (\<lambda>_ _. True) w"
  unfolding refund_payment_def Let_def now_def fresh_id_def
  apply (clarsimp simp: wp_simps PaymentStatus_Inr split: option.split sum.split)
  apply (rule ensure_ledger_account_rule)
  apply (clarsimp simp: wp_simps)
  apply (rule ensure_ledger_account_rule)
  apply (clarsimp simp: wp_simps insert_refund_def Money_def line_builders Currency_Inr split: sum.split)
  apply (rule create_journal_rule, rule refl, simp, simp)
  apply (clarsimp simp: wp_simps update_payment_def payment_row [OF ok, of pid mid])
  apply (rule append_outbox_rule)
  apply (clarsimp simp: wp_simps)
  apply (rule new_postingI, assumption, simp, simp)
               apply (assumption | rule refl | rule posting_facts, assumption+ | simp (no_asm))+
  done

lemma fund_account_posting:
  "wp (fund_account ext mid aid req corr)
    (\<lambda>body v. \<exists>jid. body = JObj [(''journal_id'', JStr (uuid_str jid))] \<and> jid \<notin> j_id ` set (journals (tables w)) \<and>
       j_id (last (journals (tables v))) = jid \<and>
       (\<forall>a. row_at a_id aid (accounts (tables w)) = Some a \<longrightarrow>
       new_posting (''account_funding'', aid) (a_customer_id a, ''customer_cash'', a_currency a)
         (mid, ''simulated_provider_funding'', a_currency a) (fr_amount_minor req) (tables w) (tables v)))
    (\<lambda>_ _. True) w"
  unfolding fund_account_def
  apply (clarsimp simp: wp_simps split: option.split)
  apply (rule ensure_ledger_account_rule)
  apply (clarsimp simp: wp_simps)
  apply (rule ensure_ledger_account_rule)
  apply (clarsimp simp: wp_simps Money_def line_builders)
  apply (rule create_journal_rule, rule refl, simp, simp)
  apply (clarsimp simp: wp_simps)
  apply (rule append_audit_rule)
  apply (clarsimp simp: wp_simps)
  apply (rule conjI, simp add: posts_def)
  apply (rule new_postingI, assumption, simp, simp)
               apply (assumption | rule refl | rule posting_facts, assumption+ | simp (no_asm))+
  done

end
