(* ===== verification/Tenants.thy ===== *)
theory Tenants
  imports Postings
begin

text \<open>
  Separation of the merchants.  \<open>tenant m d\<close> is everything in the database that belongs to merchant
  \<open>m\<close>, directly or through a customer, a payment, an endpoint or a ledger account, with the balances of
  the customers and of the ledger accounts.  No request of another merchant changes it.
\<close>

section \<open>What belongs to a merchant\<close>

text \<open>The first row with a key belongs to the merchant.\<close>

definition owned :: "('r \<Rightarrow> uuid) \<Rightarrow> ('r \<Rightarrow> uuid) \<Rightarrow> 'r list \<Rightarrow> uuid \<Rightarrow> uuid \<Rightarrow> bool" where
  "owned key merchant_of t m k \<longleftrightarrow> (case row_at key k t of None \<Rightarrow> False | Some r \<Rightarrow> merchant_of r = m)"

abbreviation owned_customer :: "db \<Rightarrow> uuid \<Rightarrow> uuid \<Rightarrow> bool" where
  "owned_customer d \<equiv> owned c_id c_merchant_id (customers d)"

abbreviation owned_payment :: "db \<Rightarrow> uuid \<Rightarrow> uuid \<Rightarrow> bool" where
  "owned_payment d \<equiv> owned p_id p_merchant_id (payments d)"

abbreviation owned_endpoint :: "db \<Rightarrow> uuid \<Rightarrow> uuid \<Rightarrow> bool" where
  "owned_endpoint d \<equiv> owned w_id w_merchant_id (webhook_endpoints d)"

text \<open>
  A ledger account belongs to \<open>m\<close> if \<open>m\<close> is its owner or, for the cash account of a customer, the
  merchant of its owner; \<open>cust\<close> tells which customers are customers of \<open>m\<close>.
\<close>

definition owns_key :: "(uuid \<Rightarrow> bool) \<Rightarrow> uuid \<Rightarrow> uuid \<times> string \<times> string \<Rightarrow> bool" where
  "owns_key cust m k \<longleftrightarrow> (case k of (ow, name, _) \<Rightarrow> if name = ''customer_cash'' then cust ow else ow = m)"

definition owned_ledger :: "(uuid \<Rightarrow> bool) \<Rightarrow> uuid \<Rightarrow> ledger_account list \<Rightarrow> uuid \<Rightarrow> bool" where
  "owned_ledger cust m t i \<longleftrightarrow> (case row_at la_id i t of None \<Rightarrow> False | Some a \<Rightarrow> owns_key cust m (la_key a))"

text \<open>The ledger of a merchant: its accounts, their balances, their entries and the journals of these.\<close>

record ledger_view =
  lv_accounts :: "ledger_account list"
  lv_balance :: "uuid \<Rightarrow> int"
  lv_journals :: "journal list"
  lv_entries :: "journal_entry list"

definition ledger_view :: "(uuid \<Rightarrow> bool) \<Rightarrow> uuid \<Rightarrow> db \<Rightarrow> ledger_view" where
  "ledger_view cust m d =
     (let own = owned_ledger cust m (ledger_accounts d) in
       \<lparr>lv_accounts = filter (\<lambda>a. owns_key cust m (la_key a)) (ledger_accounts d),
        lv_balance = (\<lambda>i. if own i then balance_of d {i} else 0),
        lv_journals = filter (\<lambda>j. \<exists>e \<in> set (journal_entries d). e_journal_id e = j_id j \<and>
          own (ledger_account_id e)) (journals d),
        lv_entries = filter (\<lambda>e. own (ledger_account_id e)) (journal_entries d)\<rparr>)"

record tenant_view =
  tv_merchant :: "merchant list"
  tv_api_keys :: "api_key list"
  tv_customers :: "customer list"
  tv_accounts :: "account list"
  tv_balance :: "uuid \<Rightarrow> string \<Rightarrow> int"
  tv_ledger :: ledger_view
  tv_payments :: "payment list"
  tv_refunds :: "refund_row list"
  tv_idempotency :: "idempotency_record list"
  tv_endpoints :: "webhook_endpoint list"
  tv_secrets :: "webhook_secret list"
  tv_deliveries :: "webhook_delivery list"
  tv_outbox :: "outbox_event list"
  tv_audit :: "audit_log list"

definition audit_of :: "uuid \<Rightarrow> db \<Rightarrow> audit_log list" where
  "audit_of m d = filter (\<lambda>l. actor l = merchant_ref m) (audit_logs d)"

definition tenant :: "uuid \<Rightarrow> db \<Rightarrow> tenant_view" where
  "tenant m d = 
     \<lparr>tv_merchant = filter (\<lambda>r. m_id r = m) (merchants d),
      tv_api_keys = filter (\<lambda>k. k_merchant_id k = m) (api_keys d),
      tv_customers = filter (\<lambda>c. c_merchant_id c = m) (customers d),
      tv_accounts = filter (\<lambda>a. owned_customer d m (a_customer_id a)) (accounts d),
      tv_balance = (\<lambda>c cur. if owned_customer d m c then available_balance d c cur else 0),
      tv_ledger = ledger_view (owned_customer d m) m d,
      tv_payments = filter (\<lambda>p. p_merchant_id p = m) (payments d),
      tv_refunds = filter (\<lambda>r. owned_payment d m (r_payment_id r)) (refunds d),
      tv_idempotency = filter (\<lambda>r. i_merchant_id r = m) (idempotency_records d),
      tv_endpoints = filter (\<lambda>e. w_merchant_id e = m) (webhook_endpoints d),
      tv_secrets = filter (\<lambda>s. owned_endpoint d m (s_endpoint_id s)) (webhook_secrets d),
      tv_deliveries = filter (\<lambda>r. owned_endpoint d m (d_endpoint_id r)) (webhook_deliveries d),
      tv_outbox = filter (\<lambda>e. owned_payment d m (o_aggregate_id e)) (outbox_events d),
      tv_audit = audit_of m d\<rparr>"

lemma owned_append_other: "merchant_of r \<noteq> m \<Longrightarrow> owned key merchant_of (t @ [r]) m = owned key merchant_of t m"
  by (auto simp: fun_eq_iff owned_def row_at_append row_simps split: option.split)

lemma owned_row_set:
  "(\<And>r. key (f r) = key r) \<Longrightarrow> (\<And>r. merchant_of (f r) = merchant_of r) \<Longrightarrow>
     owned key merchant_of (row_set key k f t) m = owned key merchant_of t m"
  by (auto simp: fun_eq_iff owned_def row_at_row_set split: option.split)

lemma owned_row: "row_at key k t = Some r \<Longrightarrow> owned key merchant_of t m k \<longleftrightarrow> merchant_of r = m"
  by (simp add: owned_def)

section \<open>The ledger of a merchant\<close>

lemma ledger_view_cong:
  "ledger_accounts d' = ledger_accounts d \<Longrightarrow> journals d' = journals d \<Longrightarrow> journal_entries d' = journal_entries d \<Longrightarrow>
     ledger_view cust m d' = ledger_view cust m d"
  by (simp add: ledger_view_def balance_of_def Let_def cong: if_cong)

lemma owned_ledger_append:
  "\<forall>a \<in> set las. \<not> owns_key cust m (la_key a) \<Longrightarrow> owned_ledger cust m (t @ las) = owned_ledger cust m t"
  by (auto simp: fun_eq_iff owned_ledger_def row_at_append dest!: row_at_SomeD split: option.splits)

lemma balance_of_append:
  "journal_entries d' = journal_entries d @ es \<Longrightarrow> \<forall>e \<in> set es. ledger_account_id e \<notin> A \<Longrightarrow>
     balance_of d' A = balance_of d A"
  by (simp add: balance_of_def sum_where_none)

text \<open>A posting between accounts of others adds nothing to the ledger of a merchant.\<close>

lemma ledger_view_posting:
  assumes ok: "books_ok d" "books_ok d'" and post: "new_posting ref k k' n d d'"
    and others: "\<not> owns_key cust m k" "\<not> owns_key cust m k'"
  shows "ledger_view cust m d' = ledger_view cust m d"
proof -
  obtain las x y j e f where las: "ledger_accounts d' = ledger_accounts d @ las" "la_key ` set las \<subseteq> {k, k'}"
      and xy: "x \<in> set (ledger_accounts d')" "y \<in> set (ledger_accounts d')" "la_key x = k" "la_key y = k'"
      and new: "journals d' = journals d @ [j]" "journal_entries d' = journal_entries d @ [e, f]"
        "j_id j \<notin> j_id ` set (journals d)" "transfer ref x y n j e f"
    using post unfolding new_posting_def by blast
  let ?own = "owned_ledger cust m (ledger_accounts d')"
  have las_other: "\<forall>a \<in> set las. \<not> owns_key cust m (la_key a)" using las(2) others by auto
  then have own: "?own = owned_ledger cust m (ledger_accounts d)"
    unfolding las(1) by (rule owned_ledger_append)
  have ids: "distinct (map la_id (ledger_accounts d'))" using ok(2) by (simp add: books_ok_def book_ok_def)
  have row: "row_at la_id (la_id a) (ledger_accounts d') = Some a" if "a \<in> set (ledger_accounts d')" for a
    using row_at_Some_iff [OF ids] that by simp
  have "\<not> ?own (la_id x)" "\<not> ?own (la_id y)"
    using row xy others by (simp_all add: owned_ledger_def)
  then have ef: "\<not> ?own (ledger_account_id e)" "\<not> ?own (ledger_account_id f)"
    using new(4) by (simp_all add: transfer_def)
  then have "balance_of d' {i} = balance_of d {i}" if "?own i" for i
    using that by (intro balance_of_append [OF new(2)]) auto
  moreover have "e_journal_id a \<noteq> j_id j" if "a \<in> set (journal_entries d)" for a
  proof -
    have "e_journal_id a \<in> j_id ` set (journals d)"
      using ok(1) that by (auto simp: books_ok_def book_ok_def entries_have_journals_def)
    then show ?thesis using new(3) by metis
  qed
  moreover have "filter (\<lambda>a. owns_key cust m (la_key a)) las = []"
    using las_other by (simp add: filter_empty_conv)
  ultimately show ?thesis
    using ef unfolding own by (simp add: ledger_view_def Let_def las(1) new(1,2) own [unfolded las(1)] fun_eq_iff)
qed

section \<open>A payment's customer belongs to the payment's merchant\<close>

definition payments_owned :: "db \<Rightarrow> bool" where
  "payments_owned d \<longleftrightarrow> list_all (\<lambda>p. owned_customer d (p_merchant_id p) (p_customer_id p)) (payments d)"

definition ownership_ok :: "db \<Rightarrow> bool" where
  "ownership_ok d \<longleftrightarrow> books_ok d \<and> payments_owned d"

text \<open>
  What the operations on a payment have in common: they change one payment of the merchant but not
  whose it is, move money of its customer only, and add refunds of it only.
\<close>

definition payment_changed :: "uuid \<Rightarrow> uuid \<Rightarrow> db \<Rightarrow> db \<Rightarrow> bool" where
  "payment_changed pid mid d d' \<longleftrightarrow>
     (\<exists>p q n rs. payment_for_update pid mid d = Some p \<and> payments d' = put_payment q (payments d) \<and>
        p_id q = p_id p \<and> p_merchant_id q = p_merchant_id p \<and> p_customer_id q = p_customer_id p \<and>
        moved (p_customer_id p) (p_currency p) n d d' \<and>
        refunds d' = refunds d @ rs \<and> list_all (\<lambda>r. r_payment_id r = pid) rs \<and>
        (\<exists>row. outbox_events d' = outbox_events d @ [row] \<and> o_aggregate_id row = pid))"

lemma payment_changedI:
  "payment_for_update pid mid d = Some p \<Longrightarrow> payments d' = put_payment q (payments d) \<Longrightarrow>
     p_id q = p_id p \<Longrightarrow> p_merchant_id q = p_merchant_id p \<Longrightarrow> p_customer_id q = p_customer_id p \<Longrightarrow>
     moved (p_customer_id p) (p_currency p) n d d' \<Longrightarrow> refunds d' = refunds d @ rs \<Longrightarrow>
     list_all (\<lambda>r. r_payment_id r = pid) rs \<Longrightarrow> emitted ext etype pid payload corr d d' \<Longrightarrow>
     payment_changed pid mid d d'"
  unfolding payment_changed_def emitted_def outbox_row_for_def by blast

lemma payment_identity:
  "p_id (captured p t) = p_id p" "p_merchant_id (captured p t) = p_merchant_id p"
  "p_customer_id (captured p t) = p_customer_id p"
  "p_id (refunded p n) = p_id p" "p_merchant_id (refunded p n) = p_merchant_id p"
  "p_customer_id (refunded p n) = p_customer_id p"
  "p_id (with_payment_status st u p) = p_id p" "p_merchant_id (with_payment_status st u p) = p_merchant_id p"
  "p_customer_id (with_payment_status st u p) = p_customer_id p"
  by (simp_all add: captured_def refunded_def with_payment_status_def split: option.split)

lemma payment_changed_effects:
  "authorize_done ext mid pid corr d r d' \<Longrightarrow> payment_changed pid mid d d'"
  "capture_done ext mid pid corr d body d' \<Longrightarrow> payment_changed pid mid d d'"
  "cancel_done ext mid pid corr d body d' \<Longrightarrow> payment_changed pid mid d d'"
  "refund_done ext mid pid n corr d body d' \<Longrightarrow> payment_changed pid mid d d'"
  by (auto simp: authorize_done_def capture_done_def cancel_done_def refund_done_def split: if_splits
      intro!: payment_changedI simp: payment_identity)

section \<open>The transactions\<close>

lemma wp_with_frame:
  assumes "wp m Q E w" and "frames v m" and "\<And>a w'. Q a w' \<Longrightarrow> v w' = v w \<Longrightarrow> Q' a w'"
  shows "wp m Q' (\<lambda>_ _. True) w"
  using assms framesD [OF assms(2), of w] by (auto simp: wp_def split: prod.splits sum.splits)

lemma wp_conj: "wp s Q E w \<Longrightarrow> wp s Q' E' w \<Longrightarrow> wp s (\<lambda>a v. Q a v \<and> Q' a v) (\<lambda>e v. E e v \<and> E' e v) w"
  by (auto simp: wp_def split: prod.splits sum.splits)

lemma wp_and:
  "wp s Q (\<lambda>_ _. True) w \<Longrightarrow> wp s Q' (\<lambda>_ _. True) w \<Longrightarrow> wp s (\<lambda>a v. Q a v \<and> Q' a v) (\<lambda>_ _. True) w"
  using wp_conj [of s Q "\<lambda>_ _. True" w Q' "\<lambda>_ _. True"] by simp

lemma owned_unique: "owned key merchant_of t m k \<Longrightarrow> owned key merchant_of t m' k \<Longrightarrow> m = m'"
  by (auto simp: owned_def split: option.splits)

lemma row_at_put_payment:
  "row_at p_id k (put_payment q ps) =
     (if k = p_id q then (if k \<in> p_id ` set ps then Some q else None) else row_at p_id k ps)"
  by (induction ps) (auto simp: put_payment_def row_simps)

lemma owned_put_payment:
  assumes "row_at p_id (p_id q) ps = Some p" and "p_merchant_id q = p_merchant_id p"
  shows "owned p_id p_merchant_id (put_payment q ps) m = owned p_id p_merchant_id ps m"
proof -
  have "p_id q \<in> p_id ` set ps" using row_at_SomeD [OF assms(1)] by (auto intro: rev_image_eqI)
  then show ?thesis using assms by (auto simp: fun_eq_iff owned_def row_at_put_payment)
qed

lemma filter_put_payment:
  assumes "distinct (map p_id ps)" and "p \<in> set ps" and "p_id q = p_id p"
    and "p_merchant_id p \<noteq> m" and "p_merchant_id q \<noteq> m"
  shows "filter (\<lambda>r. p_merchant_id r = m) (put_payment q ps) = filter (\<lambda>r. p_merchant_id r = m) ps"
proof -
  have "r = p" if "r \<in> set ps" "p_id r = p_id q" for r
    using assms(1,2,3) that by (auto simp: distinct_map dest: inj_onD)
  then have "filter (\<lambda>r. p_merchant_id r = m) (map (\<lambda>r. if p_id r = p_id q then q else r) ps) =
      filter (\<lambda>r. p_merchant_id r = m) ps"
    using assms(4,5) by (induction ps) auto
  then show ?thesis by (simp add: put_payment_def)
qed

text \<open>The tables that no operation on payments, balances or refunds writes.\<close>

definition apart :: "db \<Rightarrow> merchant list \<times> api_key list \<times> customer list \<times> account list \<times> idempotency_record list \<times>
    webhook_endpoint list \<times> webhook_secret list \<times> webhook_delivery list" where
  "apart d = (merchants d, api_keys d, customers d, accounts d, idempotency_records d, webhook_endpoints d,
     webhook_secrets d, webhook_deliveries d)"

lemma frames_both: "frames v s \<Longrightarrow> frames u s \<Longrightarrow> frames (\<lambda>w. (v w, u w)) s"
  by (simp add: frames_def)

lemma merchant_ref_inject: "merchant_ref a = merchant_ref b \<longleftrightarrow> a = b"
  using uuid_parse_uuid_str by (auto simp: merchant_ref_def) (metis option.inject)

text \<open>Every operation signs its audit entries with the merchant it works for.\<close>

lemma frames_audit:
  assumes "mid \<noteq> m"
  shows "frames (\<lambda>w. audit_of m (tables w)) (create_customer ext mid creq corr)"
    and "frames (\<lambda>w. audit_of m (tables w)) (fund_account ext mid aid freq corr)"
    and "frames (\<lambda>w. audit_of m (tables w)) (create_payment ext mid preq key corr)"
    and "frames (\<lambda>w. audit_of m (tables w)) (authorize_block ext mid pid corr)"
    and "frames (\<lambda>w. audit_of m (tables w)) (capture_payment ext mid pid corr)"
    and "frames (\<lambda>w. audit_of m (tables w)) (cancel_payment ext mid pid corr)"
    and "frames (\<lambda>w. audit_of m (tables w)) (refund_payment ext mid pid rreq corr)"
    and "frames (\<lambda>w. audit_of m (tables w)) (register_webhook ext mid wreq corr)"
    and "frames (\<lambda>w. audit_of m (tables w)) (rotate_webhook_secret ext mid eid corr)"
    and "frames (\<lambda>w. audit_of m (tables w)) (replay_delivery ext mid did corr)"
  unfolding create_customer_def fund_account_def create_payment_def persist_payment_def authorize_block_def
    authorize_payment_def capture_payment_def cancel_payment_def refund_payment_def register_webhook_def
    rotate_webhook_secret_def replay_delivery_def repository_defs statement_defs
  using assms
  by (intro frame_intros; simp add: frames_raise frames_ret audit_of_def merchant_ref_inject split: exn.split)+

lemma moved_elsewhere:
  assumes "moved c cur n d d'" and "owned_customer d mid c" and "mid \<noteq> m"
  shows "(if owned_customer d m k then available_balance d' k cu else 0) =
    (if owned_customer d m k then available_balance d k cu else 0)"
  using assms owned_unique [of c_id c_merchant_id "customers d" m c mid] by (auto simp: moved_def)

lemma tenant_payment_changed:
  assumes ok: "ownership_ok d" and "mid \<noteq> m" and "payment_changed pid mid d d'" and "apart d' = apart d"
    and ledger: "ledger_view (owned_customer d m) m d' = ledger_view (owned_customer d m) m d"
    and audit: "audit_of m d' = audit_of m d"
  shows "tenant m d' = tenant m d"
proof -
  obtain p q n rs row where c: "payment_for_update pid mid d = Some p" "payments d' = put_payment q (payments d)"
      "p_id q = p_id p" "p_merchant_id q = p_merchant_id p" "moved (p_customer_id p) (p_currency p) n d d'"
      "refunds d' = refunds d @ rs" "list_all (\<lambda>r. r_payment_id r = pid) rs"
      "outbox_events d' = outbox_events d @ [row]" "o_aggregate_id row = pid"
    using assms(3) unfolding payment_changed_def by blast
  have books: "books_ok d" using ok by (simp add: ownership_ok_def)
  have p: "p \<in> set (payments d)" "p_id p = pid" "p_merchant_id p = mid" "row_at p_id (p_id p) (payments d) = Some p"
    using payment_for_update_SomeD [OF c(1)] payment_row [OF books c(1)] by auto
  have customer: "owned_customer d mid (p_customer_id p)"
    using ok p(1,3) by (auto simp: ownership_ok_def payments_owned_def list_all_iff)
  have "owned_payment d' m = owned_payment d m"
    using owned_put_payment [of q "payments d" p] c p by simp
  moreover have "\<not> owned_payment d m pid"
    using p assms(2) owned_row [of p_id pid "payments d" p p_merchant_id m] by simp
  then have "filter (\<lambda>r. owned_payment d m (r_payment_id r)) rs = []" "\<not> owned_payment d m (o_aggregate_id row)"
    using c(7,9) by (auto simp: filter_empty_conv list_all_iff)
  moreover have "filter (\<lambda>r. p_merchant_id r = m) (put_payment q (payments d)) = filter (\<lambda>r. p_merchant_id r = m) (payments d)"
    using c(3,4) p assms(2) books_distinct [OF books] by (intro filter_put_payment [of _ p]) auto
  ultimately show ?thesis
    using assms(4) c(2,6,8) moved_elsewhere [OF c(5) customer assms(2)] ledger audit
    by (simp add: tenant_def apart_def fun_eq_iff)
qed

text \<open>The posting of a capture or a refund is between the merchant and a customer of the payment.\<close>

lemma payment_posting_elsewhere:
  assumes ok: "ownership_ok d" "books_ok d'" and "mid \<noteq> m" and p: "payment_for_update pid mid d = Some p"
    and post: "new_posting ref (mid, ''merchant_receivable'', cur) (p_customer_id p, ''customer_cash'', cur) n d d' \<or>
      new_posting ref (p_customer_id p, ''customer_cash'', cur) (mid, ''merchant_receivable'', cur) n d d'"
  shows "ledger_view (owned_customer d m) m d' = ledger_view (owned_customer d m) m d"
proof -
  have "owned_customer d mid (p_customer_id p)"
    using ok p payment_for_update_SomeD [OF p] by (auto simp: ownership_ok_def payments_owned_def list_all_iff)
  then have "\<not> owned_customer d m (p_customer_id p)"
    using assms(3) owned_unique [of c_id c_merchant_id "customers d" mid "p_customer_id p" m] by blast
  then have "\<not> owns_key (owned_customer d m) m (mid, ''merchant_receivable'', cur)"
      "\<not> owns_key (owned_customer d m) m (p_customer_id p, ''customer_cash'', cur)"
    using assms(3) by (simp_all add: owns_key_def)
  then show ?thesis using ok post by (auto simp: ownership_ok_def intro: ledger_view_posting)
qed

text \<open>One lemma for each operation: the tables of another merchant are the same afterwards.\<close>

lemma frames_to_apart:
  "frames (\<lambda>w. apart (tables w)) (capture_payment ext mid pid corr)"
  "frames (\<lambda>w. (apart (tables w), ledger_accounts (tables w), journals (tables w), journal_entries (tables w)))
     (authorize_block ext mid pid corr)"
  "frames (\<lambda>w. (apart (tables w), ledger_accounts (tables w), journals (tables w), journal_entries (tables w)))
     (cancel_payment ext mid pid corr)"
  "frames (\<lambda>w. apart (tables w)) (refund_payment ext mid pid rreq corr)"
  "frames (\<lambda>w. (apart (tables w), payments (tables w), refunds (tables w), outbox_events (tables w)))
     (fund_account ext mid aid freq corr)"
  by (rule frames_mono, rule frame_rules, simp add: apart_def)+

lemma payment_operations_apart:
  assumes ok: "ownership_ok (tables w)" and "mid \<noteq> m"
  shows "wp (authorize_block ext mid pid corr) (\<lambda>_ v. tenant m (tables v) = tenant m (tables w)) (\<lambda>_ _. True) w"
    and "wp (capture_payment ext mid pid corr) (\<lambda>_ v. tenant m (tables v) = tenant m (tables w)) (\<lambda>_ _. True) w"
    and "wp (cancel_payment ext mid pid corr) (\<lambda>_ v. tenant m (tables v) = tenant m (tables w)) (\<lambda>_ _. True) w"
    and "wp (refund_payment ext mid pid rreq corr) (\<lambda>_ v. tenant m (tables v) = tenant m (tables w)) (\<lambda>_ _. True) w"
proof -
  have books: "books_ok (tables w)" using ok by (simp add: ownership_ok_def)
  note audit = frames_audit [OF assms(2)] and changed = tenant_payment_changed [OF assms]
  show "wp (authorize_block ext mid pid corr) (\<lambda>_ v. tenant m (tables v) = tenant m (tables w)) (\<lambda>_ _. True) w"
    by (rule wp_with_frame [OF authorize_block_effect [OF books] frames_both [OF frames_to_apart(2) audit(4)]])
      (auto intro!: changed payment_changed_effects(1) ledger_view_cong)
  show "wp (cancel_payment ext mid pid corr) (\<lambda>_ v. tenant m (tables v) = tenant m (tables w)) (\<lambda>_ _. True) w"
    by (rule wp_with_frame [OF cancel_payment_effect [OF books] frames_both [OF frames_to_apart(3) audit(6)]])
      (auto intro!: changed payment_changed_effects(3) ledger_view_cong)
  note elsewhere = payment_posting_elsewhere [OF ok _ assms(2)]
  have capture: "\<exists>p. payment_for_update pid mid d = Some p" if "capture_done ext mid pid corr d body d'" for d body d'
    using that by (auto simp: capture_done_def)
  have refund: "ledger_view (owned_customer (tables w) m) m d' = ledger_view (owned_customer (tables w) m) m (tables w)"
    if eff: "refund_done ext mid pid n corr (tables w) body d'" and "books_ok d'"
      and post: "\<forall>p r. payment_for_update pid mid (tables w) = Some p \<longrightarrow> refunds d' = refunds (tables w) @ [r] \<longrightarrow>
        new_posting (''payment_refund'', r_id r) (p_customer_id p, ''customer_cash'', p_currency p)
          (mid, ''merchant_receivable'', p_currency p) (r_amount_minor r) (tables w) d'" for n d' body
  proof -
    obtain p r where "payment_for_update pid mid (tables w) = Some p" "refunds d' = refunds (tables w) @ [r]"
      using eff unfolding refund_done_def by blast
    with post show ?thesis by (blast intro: elsewhere [OF \<open>books_ok d'\<close>])
  qed
  show "wp (capture_payment ext mid pid corr) (\<lambda>_ v. tenant m (tables v) = tenant m (tables w)) (\<lambda>_ _. True) w"
    by (rule wp_with_frame [OF wp_and [OF wp_and [OF capture_payment_effect [OF books] capture_payment_books [OF books]]
        capture_payment_posting [OF books]] frames_both [OF frames_to_apart(1) audit(5)]])
      (rule changed, auto dest: capture intro: payment_changed_effects(2) elsewhere)
  show "wp (refund_payment ext mid pid rreq corr) (\<lambda>_ v. tenant m (tables v) = tenant m (tables w)) (\<lambda>_ _. True) w"
    by (rule wp_with_frame [OF wp_and [OF wp_and [OF refund_payment_effect [OF books] refund_payment_books [OF books]]
        refund_payment_posting [OF books]] frames_both [OF frames_to_apart(4) audit(7)]])
      (rule changed, auto intro: payment_changed_effects(4) refund)
qed

lemma fund_account_apart:
  assumes ok: "ownership_ok (tables w)" and "mid \<noteq> m"
  shows "wp (fund_account ext mid aid req corr) (\<lambda>_ v. tenant m (tables v) = tenant m (tables w)) (\<lambda>_ _. True) w"
proof (rule wp_with_frame [OF wp_and [OF wp_and [OF fund_account_effect fund_account_books] fund_account_posting]
      frames_both [OF frames_to_apart(5) frames_audit(2) [OF assms(2)]]])
  let ?d = "tables w"
  show books: "books_ok ?d" "books_ok ?d" using ok by (simp_all add: ownership_ok_def)
  fix body and v :: world
  assume effect: "(fund_done mid aid req ?d (tables v) \<and> books_ok (tables v)) \<and>
    (\<exists>jid. body = JObj [(''journal_id'', JStr (uuid_str jid))] \<and> jid \<notin> j_id ` set (journals ?d) \<and>
       j_id (last (journals (tables v))) = jid \<and>
       (\<forall>a. row_at a_id aid (accounts ?d) = Some a \<longrightarrow>
       new_posting (''account_funding'', aid) (a_customer_id a, ''customer_cash'', a_currency a)
         (mid, ''simulated_provider_funding'', a_currency a) (fr_amount_minor req) ?d (tables v)))"
  then obtain a :: account and c :: customer where a: "row_at a_id aid (accounts ?d) = Some a"
      and c: "row_at c_id (a_customer_id a) (customers ?d) = Some c" "c_merchant_id c = mid"
      "moved (a_customer_id a) (a_currency a) (fr_amount_minor req) ?d (tables v)"
    unfolding fund_done_def by blast
  from c have own: "owned_customer ?d mid (a_customer_id a)" by (simp add: owned_row)
  have "\<not> owned_customer ?d m (a_customer_id a)" using c(1,2) assms(2) by (simp add: owned_row)
  then have "ledger_view (owned_customer ?d m) m (tables v) = ledger_view (owned_customer ?d m) m ?d"
    using effect a assms(2) by (intro ledger_view_posting [OF books(1)]) (auto simp: owns_key_def)
  moreover assume "((apart (tables v), payments (tables v), refunds (tables v), outbox_events (tables v)), audit_of m (tables v)) =
    ((apart ?d, payments ?d, refunds ?d, outbox_events ?d), audit_of m ?d)"
  ultimately show "tenant m (tables v) = tenant m ?d"
    using moved_elsewhere [OF c(3) own assms(2)] by (simp add: tenant_def apart_def fun_eq_iff)
qed

lemma available_balance_cong:
  "ledger_accounts d = ledger_accounts d' \<Longrightarrow> journal_entries d = journal_entries d' \<Longrightarrow>
     available_balance d = available_balance d'"
  by (intro ext) (simp only: available_balance_def cash_account_ids_def)

text \<open>The idempotency records of another merchant.\<close>

definition records_of :: "uuid \<Rightarrow> db \<Rightarrow> idempotency_record list" where
  "records_of m d = filter (\<lambda>r. i_merchant_id r = m) (idempotency_records d)"

lemma persist_payment_records:
  assumes "i_merchant_id record \<noteq> m" and "records_of m (tables w) = rs"
  shows "wp (persist_payment ext mid req record risk corr) (\<lambda>_ v. records_of m (tables v) = rs) (\<lambda>_ _. True) w"
proof -
  have "records_of m (d\<lparr>idempotency_records := row_set i_pk (i_pk record) f (idempotency_records d)\<rparr>) = records_of m d"
    if "\<And>r. i_merchant_id (f r) = i_merchant_id r" for f and d :: db
    using that assms(1) by (auto simp: records_of_def i_pk_def intro!: filter_row_set)
  then show ?thesis
    unfolding persist_payment_def Let_def fresh_id_def now_def insert_payment_def complete_idempotency_def
    using assms(2)
    by (auto simp: wp_simps records_of_def split: option.split intro!: append_outbox_rule append_audit_rule)
qed

lemma create_payment_records:
  assumes "mid \<noteq> m"
  shows "wp (create_payment ext mid req key corr) (\<lambda>_ v. records_of m (tables v) = records_of m (tables w))
    (\<lambda>_ _. True) w"
proof -
  have mine: "i_merchant_id r \<noteq> m"
    if "row_at i_pk (key, mid) (idempotency_records (tables w)) = Some r \<or> i_pk r = (key, mid)" for r
    using that row_at_SomeD [of i_pk "(key, mid)" _ r] assms by (auto simp: i_pk_def)
  then show ?thesis
    unfolding create_payment_def Let_def
    by (clarsimp simp: wp_simps)
      (rule claim_idempotency_spec,
       auto simp: wp_simps records_of_def intro!: persist_payment_records [unfolded records_of_def]
         split: option.split sum.split exn.split)
qed

lemma frames_create_payment:
  "frames (\<lambda>w. (merchants (tables w), api_keys (tables w), customers (tables w), accounts (tables w), refunds (tables w),
     ledger_accounts (tables w), journals (tables w), journal_entries (tables w), webhook_endpoints (tables w),
     webhook_secrets (tables w), webhook_deliveries (tables w))) (create_payment ext mid req key corr)"
  by (rule frames_mono, rule frame_create_payment) simp

lemma create_done_new:
  assumes "create_done ext mid req key corr d a d'"
  obtains "d' = d"
    | p row where "payments d' = payments d @ [p]" "p_merchant_id p = mid" "p_id p \<notin> p_id ` set (payments d)"
        "outbox_events d' = outbox_events d @ [row]" "o_aggregate_id row = p_id p"
  using assms unfolding create_done_def
proof (elim disjE exE conjE, goal_cases)
  case (2 i st t t' risk)
  have "p_merchant_id (new_payment i mid req st t t') = mid" "p_id (new_payment i mid req st t t') = i"
    by (simp_all add: new_payment_def)
  with 2 show ?case unfolding emitted_def outbox_row_for_def by metis
qed simp

lemma create_payment_apart:
  assumes "ownership_ok (tables w)" and "mid \<noteq> m"
  shows "wp (create_payment ext mid req key corr) (\<lambda>_ v. tenant m (tables v) = tenant m (tables w)) (\<lambda>_ _. True) w"
proof (rule wp_with_frame [OF wp_and [OF create_payment_effect create_payment_records [OF assms(2)]]
      frames_both [OF frames_create_payment frames_audit(3) [OF assms(2)]]])
  let ?same = "\<lambda>d. (merchants d, api_keys d, customers d, accounts d, refunds d, ledger_accounts d, journals d,
     journal_entries d, webhook_endpoints d, webhook_secrets d, webhook_deliveries d)"
  fix a and v :: world
  assume e: "create_done ext mid req key corr (tables w) a (tables v) \<and> records_of m (tables v) = records_of m (tables w)"
  assume f: "(?same (tables v), audit_of m (tables v)) = (?same (tables w), audit_of m (tables w))"
  from e consider "tables v = tables w"
    | p row where "payments (tables v) = payments (tables w) @ [p]" "p_merchant_id p = mid"
        "p_id p \<notin> p_id ` set (payments (tables w))"
        "outbox_events (tables v) = outbox_events (tables w) @ [row]" "o_aggregate_id row = p_id p"
    using create_done_new by blast
  then show "tenant m (tables v) = tenant m (tables w)"
  proof cases
    case 2
    then have "owned_payment (tables v) m = owned_payment (tables w) m"
      using assms(2) by (simp add: owned_append_other)
    moreover have "\<not> owned_payment (tables w) m (p_id p)"
      using 2(3) by (simp add: owned_def row_at_None_iff [THEN iffD2])
    moreover have "available_balance (tables v) = available_balance (tables w)"
      using f by (intro available_balance_cong) simp_all
    moreover have "ledger_view c m (tables v) = ledger_view c m (tables w)" for c
      using f by (intro ledger_view_cong) simp_all
    ultimately show ?thesis using 2 e f assms(2) by (simp add: tenant_def fun_eq_iff records_of_def)
  qed simp
qed

text \<open>Merchants and customers.\<close>

text \<open>Everything but the tables of merchants, API keys, customers, accounts and audit entries.\<close>

definition business :: "db \<Rightarrow> payment list \<times> refund_row list \<times> ledger_account list \<times> journal list \<times> journal_entry list \<times>
    idempotency_record list \<times> outbox_event list \<times> webhook_endpoint list \<times> webhook_secret list \<times> webhook_delivery list" where
  "business d = (payments d, refunds d, ledger_accounts d, journals d, journal_entries d, idempotency_records d,
     outbox_events d, webhook_endpoints d, webhook_secrets d, webhook_deliveries d)"

lemma business_views:
  "business d' = business d \<Longrightarrow> available_balance d' = available_balance d"
  "business d' = business d \<Longrightarrow> ledger_view c m d' = ledger_view c m d"
  using available_balance_cong [of d' d] ledger_view_cong [of d' d c m] by (simp_all add: business_def)

lemma frames_create_merchant:
  "frames (\<lambda>w. (customers (tables w), accounts (tables w), business (tables w))) (create_merchant ext req corr)"
  by (rule frames_mono, rule frame_create_merchant) (simp add: business_def)

lemma create_merchant_rows:
  "wp (create_merchant ext req corr) (\<lambda>_ v. \<exists>r k l. m_id r \<notin> m_id ` set (merchants (tables w)) \<and>
     merchants (tables v) = merchants (tables w) @ [r] \<and> k_merchant_id k = m_id r \<and>
     api_keys (tables v) = api_keys (tables w) @ [k] \<and> actor l = merchant_ref (m_id r) \<and>
     audit_logs (tables v) = audit_logs (tables w) @ [l]) (\<lambda>_ _. True) w"
  unfolding create_merchant_def fresh_id_def now_def insert_merchant_def insert_api_key_def
  by (auto simp: wp_simps merchant_integrity_ok_def split: prod.split intro!: append_audit_rule)

lemma create_merchant_apart:
  assumes "m \<in> m_id ` set (merchants (tables w))"
  shows "wp (create_merchant ext req corr) (\<lambda>_ v. tenant m (tables v) = tenant m (tables w)) (\<lambda>_ _. True) w"
proof (rule wp_with_frame [OF create_merchant_rows frames_create_merchant])
  fix v :: world
  assume "\<exists>r k l. m_id r \<notin> m_id ` set (merchants (tables w)) \<and> merchants (tables v) = merchants (tables w) @ [r] \<and>
     k_merchant_id k = m_id r \<and> api_keys (tables v) = api_keys (tables w) @ [k] \<and> actor l = merchant_ref (m_id r) \<and>
     audit_logs (tables v) = audit_logs (tables w) @ [l]"
  then obtain r k l where new: "m_id r \<noteq> m" "merchants (tables v) = merchants (tables w) @ [r]"
      "k_merchant_id k = m_id r" "api_keys (tables v) = api_keys (tables w) @ [k]"
      "audit_of m (tables v) = audit_of m (tables w)"
    using assms by (fastforce simp: audit_of_def merchant_ref_inject)
  assume "(customers (tables v), accounts (tables v), business (tables v)) =
    (customers (tables w), accounts (tables w), business (tables w))"
  then show "tenant m (tables v) = tenant m (tables w)"
    using new business_views [of "tables v" "tables w"] by (simp add: tenant_def fun_eq_iff business_def)
qed

lemma frames_create_customer:
  "frames (\<lambda>w. (merchants (tables w), api_keys (tables w), business (tables w))) (create_customer ext mid req corr)"
  by (rule frames_mono, rule frame_create_customer) (simp add: business_def)

lemma create_customer_rows:
  "wp (create_customer ext mid req corr) (\<lambda>_ v. \<exists>c a. c_id c \<notin> c_id ` set (customers (tables w)) \<and>
     c_merchant_id c = mid \<and> customers (tables v) = customers (tables w) @ [c] \<and> a_customer_id a = c_id c \<and>
     accounts (tables v) = accounts (tables w) @ [a]) (\<lambda>_ _. True) w"
  unfolding create_customer_def fresh_id_def now_def insert_customer_def insert_account_def
  by (auto simp: wp_simps customer_integrity_ok_def intro!: append_audit_rule)

lemma create_customer_apart:
  assumes "mid \<noteq> m"
  shows "wp (create_customer ext mid req corr) (\<lambda>_ v. tenant m (tables v) = tenant m (tables w)) (\<lambda>_ _. True) w"
proof (rule wp_with_frame [OF create_customer_rows frames_both [OF frames_create_customer frames_audit(1) [OF assms]]])
  fix v :: world
  assume "\<exists>c a. c_id c \<notin> c_id ` set (customers (tables w)) \<and> c_merchant_id c = mid \<and>
     customers (tables v) = customers (tables w) @ [c] \<and> a_customer_id a = c_id c \<and>
     accounts (tables v) = accounts (tables w) @ [a]"
  then obtain c a where new: "c_id c \<notin> c_id ` set (customers (tables w))" "c_merchant_id c = mid"
      "customers (tables v) = customers (tables w) @ [c]" "a_customer_id a = c_id c"
      "accounts (tables v) = accounts (tables w) @ [a]"
    by blast
  have "owned_customer (tables v) m = owned_customer (tables w) m"
    using new assms by (simp add: owned_append_other)
  moreover have "\<not> owned_customer (tables w) m (c_id c)"
    using new(1) by (simp add: owned_def row_at_None_iff [THEN iffD2])
  moreover assume "((merchants (tables v), api_keys (tables v), business (tables v)), audit_of m (tables v)) =
    ((merchants (tables w), api_keys (tables w), business (tables w)), audit_of m (tables w))"
  ultimately show "tenant m (tables v) = tenant m (tables w)"
    using new assms business_views [of "tables v" "tables w"] by (simp add: tenant_def business_def cong: if_cong)
qed

text \<open>Webhooks.\<close>

definition webhook_free :: "db \<Rightarrow> merchant list \<times> api_key list \<times> customer list \<times> account list \<times> payment list \<times>
    refund_row list \<times> ledger_account list \<times> journal list \<times> journal_entry list \<times> idempotency_record list \<times>
    outbox_event list" where
  "webhook_free d = (merchants d, api_keys d, customers d, accounts d, payments d, refunds d, ledger_accounts d,
     journals d, journal_entries d, idempotency_records d, outbox_events d)"

text \<open>What is left to compare when an operation only writes the webhook tables.\<close>

lemma tenant_webhook:
  assumes "webhook_free d' = webhook_free d" and "audit_of m d' = audit_of m d"
    and "filter (\<lambda>e. w_merchant_id e = m) (webhook_endpoints d') = filter (\<lambda>e. w_merchant_id e = m) (webhook_endpoints d)"
    and "filter (\<lambda>s. owned_endpoint d' m (s_endpoint_id s)) (webhook_secrets d') =
      filter (\<lambda>s. owned_endpoint d m (s_endpoint_id s)) (webhook_secrets d)"
    and "filter (\<lambda>r. owned_endpoint d' m (d_endpoint_id r)) (webhook_deliveries d') =
      filter (\<lambda>r. owned_endpoint d m (d_endpoint_id r)) (webhook_deliveries d)"
  shows "tenant m d' = tenant m d"
  using assms available_balance_cong [of d' d] ledger_view_cong [of d' d "owned_customer d m" m]
  by (simp add: tenant_def webhook_free_def fun_eq_iff)

lemma frames_webhook_free:
  "frames (\<lambda>w. (webhook_free (tables w), webhook_deliveries (tables w))) (register_webhook ext mid req corr)"
  "frames (\<lambda>w. (webhook_free (tables w), webhook_deliveries (tables w))) (rotate_webhook_secret ext mid eid corr)"
  "frames (\<lambda>w. (webhook_free (tables w), webhook_endpoints (tables w), webhook_secrets (tables w)))
     (replay_delivery ext mid did corr)"
  by (rule frames_mono, rule frame_rules, simp add: webhook_free_def)+

lemma register_webhook_apart:
  assumes "mid \<noteq> m"
  shows "wp (register_webhook ext mid req corr) (\<lambda>_ v. tenant m (tables v) = tenant m (tables w)) (\<lambda>_ _. True) w"
proof (rule wp_with_frame [OF register_webhook_effect frames_both [OF frames_webhook_free(1) frames_audit(8) [OF assms]]])
  fix body and v :: world
  assume "registered ext mid req (tables w) body (tables v)"
  then obtain e s where new: "w_id e \<notin> w_id ` set (webhook_endpoints (tables w))" "w_merchant_id e = mid"
      "s_endpoint_id s = w_id e" "webhook_endpoints (tables v) = webhook_endpoints (tables w) @ [e]"
      "webhook_secrets (tables v) = webhook_secrets (tables w) @ [s]"
    by (auto simp: registered_def fresh_secret_def)
  have "owned_endpoint (tables v) m = owned_endpoint (tables w) m" "\<not> owned_endpoint (tables w) m (w_id e)"
    using new assms by (simp_all add: owned_append_other) (simp add: owned_def row_at_None_iff [THEN iffD2])
  moreover assume "((webhook_free (tables v), webhook_deliveries (tables v)), audit_of m (tables v)) =
    ((webhook_free (tables w), webhook_deliveries (tables w)), audit_of m (tables w))"
  ultimately show "tenant m (tables v) = tenant m (tables w)"
    using new assms by (intro tenant_webhook) simp_all
qed

lemma rotate_webhook_secret_apart:
  assumes ok: "secrets_ok (tables w)" and "mid \<noteq> m"
  shows "wp (rotate_webhook_secret ext mid eid corr) (\<lambda>_ v. tenant m (tables v) = tenant m (tables w)) (\<lambda>_ _. True) w"
proof (rule wp_with_frame [OF rotate_webhook_secret_effect [OF ok]
      frames_both [OF frames_webhook_free(2) frames_audit(9) [OF assms(2)]]])
  let ?d = "tables w"
  fix body and v :: world
  assume "rotated ext mid eid ?d body (tables v)"
  then obtain e s t h where r: "row_at w_id eid (webhook_endpoints ?d) = Some e" "w_merchant_id e = mid"
      "s_endpoint_id s = eid"
      "webhook_endpoints (tables v) = row_set w_id eid (\<lambda>e. e\<lparr>w_secret_hash := h\<rparr>) (webhook_endpoints ?d)"
      "webhook_secrets (tables v) =
         row_set s_id (s_id (last (endpoint_secrets ?d eid))) (retire t) (webhook_secrets ?d) @ [s]"
    by (auto simp: rotated_def fresh_secret_def)
  have other: "\<not> owned_endpoint ?d m eid" using r(1,2) assms(2) by (simp add: owned_row)
  have last: "row_at s_id (s_id (last (endpoint_secrets ?d eid))) (webhook_secrets ?d) =
      Some (last (endpoint_secrets ?d eid))"
    by (rule last_secret_row [OF ok endpoint_history [OF ok r(1)]])
  have "endpoint_secrets ?d eid \<noteq> []" using endpoint_history [OF ok r(1)] by (simp add: secret_history_ok_def)
  then have mine: "s_endpoint_id (last (endpoint_secrets ?d eid)) = eid"
    using last_in_set by (fastforce simp: endpoint_secrets_def)
  have s_only: "s_endpoint_id x = eid"
    if "x \<in> set (webhook_secrets ?d)" "s_id x = s_id (last (endpoint_secrets ?d eid))" for x
  proof -
    have "distinct (map s_id (webhook_secrets ?d))" using ok by (simp add: secrets_ok_def)
    from row_at_Some_iff [OF this, of "s_id x" x] that last have "last (endpoint_secrets ?d eid) = x" by simp
    then show ?thesis using mine by simp
  qed
  have w_only: "w_merchant_id x = mid" if "x \<in> set (webhook_endpoints ?d)" "w_id x = eid" for x
  proof -
    have "distinct (map w_id (webhook_endpoints ?d))" using ok by (simp add: secrets_ok_def)
    from row_at_Some_iff [OF this, of eid x] that r(1,2) show ?thesis by simp
  qed
  have endpoints: "filter (\<lambda>e. w_merchant_id e = m) (row_set w_id eid (\<lambda>e. e\<lparr>w_secret_hash := h\<rparr>) (webhook_endpoints ?d)) =
      filter (\<lambda>e. w_merchant_id e = m) (webhook_endpoints ?d)"
    by (rule filter_row_set) (use w_only assms(2) in auto)
  have secrets: "filter (\<lambda>s. owned_endpoint ?d m (s_endpoint_id s))
        (row_set s_id (s_id (last (endpoint_secrets ?d eid))) (retire t) (webhook_secrets ?d)) =
      filter (\<lambda>s. owned_endpoint ?d m (s_endpoint_id s)) (webhook_secrets ?d)"
    by (rule filter_row_set) (use s_only other in \<open>auto simp: retire_def\<close>)
  have own: "owned_endpoint (tables v) m = owned_endpoint ?d m" by (simp add: r(4) owned_row_set)
  assume "((webhook_free (tables v), webhook_deliveries (tables v)), audit_of m (tables v)) =
    ((webhook_free ?d, webhook_deliveries ?d), audit_of m ?d)"
  then show "tenant m (tables v) = tenant m ?d"
    using own other by (intro tenant_webhook) (simp_all add: r(3-5) endpoints secrets)
qed

lemma replay_delivery_apart:
  assumes "distinct (map d_id (webhook_deliveries (tables w)))" and "mid \<noteq> m"
  shows "wp (replay_delivery ext mid did corr) (\<lambda>_ v. tenant m (tables v) = tenant m (tables w)) (\<lambda>_ _. True) w"
proof -
  let ?d = "tables w"
  define replayed where "replayed did v \<longleftrightarrow> (\<exists>r e. row_at d_id did (webhook_deliveries ?d) = Some r \<and>
      row_at w_id (d_endpoint_id r) (webhook_endpoints ?d) = Some e \<and> w_merchant_id e = mid \<and>
      webhook_deliveries v = row_set d_id did (\<lambda>r. r\<lparr>d_status := ''PENDING'', next_attempt_at := None,
         last_error := Some ''manual replay requested''\<rparr>) (webhook_deliveries ?d))" for did :: uuid and v :: db
  have effect: "wp (replay_delivery ext mid did corr) (\<lambda>_ v. replayed did (tables v)) (\<lambda>_ _. True) w"
    unfolding replay_delivery_def update_delivery_def replayed_def
    by (auto simp: wp_simps split: option.split intro!: append_audit_rule)
  show ?thesis
  proof (rule wp_with_frame [OF effect frames_both [OF frames_webhook_free(3) frames_audit(10) [OF assms(2)]]])
    fix v :: world
    assume "replayed did (tables v)"
    then obtain r e where r: "row_at d_id did (webhook_deliveries ?d) = Some r"
        "row_at w_id (d_endpoint_id r) (webhook_endpoints ?d) = Some e" "w_merchant_id e = mid"
        "webhook_deliveries (tables v) = row_set d_id did (\<lambda>r. r\<lparr>d_status := ''PENDING'', next_attempt_at := None,
           last_error := Some ''manual replay requested''\<rparr>) (webhook_deliveries ?d)"
      unfolding replayed_def by blast
    have only: "d_endpoint_id x = d_endpoint_id r" if "x \<in> set (webhook_deliveries ?d)" "d_id x = did" for x
      using row_at_Some_iff [OF assms(1), of did x] that r(1) by simp
    have other: "\<not> owned_endpoint ?d m (d_endpoint_id r)" using r(2,3) assms(2) by (simp add: owned_row)
    assume "((webhook_free (tables v), webhook_endpoints (tables v), webhook_secrets (tables v)), audit_of m (tables v)) =
      ((webhook_free ?d, webhook_endpoints ?d, webhook_secrets ?d), audit_of m ?d)"
    moreover have "filter (\<lambda>r. owned_endpoint ?d m (d_endpoint_id r)) (webhook_deliveries (tables v)) =
        filter (\<lambda>r. owned_endpoint ?d m (d_endpoint_id r)) (webhook_deliveries ?d)"
      unfolding r(4) by (rule filter_row_set) (use only other in auto)
    ultimately show "tenant m (tables v) = tenant m ?d"
      by (intro tenant_webhook) simp_all
  qed
qed

section \<open>Ownership after any run\<close>

lemma payments_owned_put:
  assumes "payments_owned d" and "payment_changed pid mid d d'" and "customers d' = customers d"
  shows "payments_owned d'"
proof -
  obtain p q where p: "payment_for_update pid mid d = Some p" "payments d' = put_payment q (payments d)"
      "p_merchant_id q = p_merchant_id p" "p_customer_id q = p_customer_id p"
    using assms(2) unfolding payment_changed_def by blast
  have "owned_customer d (p_merchant_id p) (p_customer_id p)"
    using assms(1) payment_for_update_SomeD [OF p(1)] by (auto simp: payments_owned_def list_all_iff)
  then have "owned_customer d' (p_merchant_id q) (p_customer_id q)" using p(3,4) assms(3) by simp
  then show ?thesis using assms(1,3) p(2) by (auto simp: payments_owned_def put_payment_def list_all_iff)
qed

lemma payments_owned_append:
  assumes "payments_owned d" and "payments d' = payments d @ ps" and "customers d' = customers d @ cs"
    and "list_all (\<lambda>p. owned_customer d (p_merchant_id p) (p_customer_id p)) ps"
  shows "payments_owned d'"
  using assms by (auto simp: payments_owned_def list_all_iff owned_def row_at_append split: option.splits)

lemma payments_owned_same:
  "payments_owned d \<Longrightarrow> payments d' = payments d \<Longrightarrow> customers d' = customers d @ cs \<Longrightarrow> payments_owned d'"
  by (rule payments_owned_append [where ps = "[]"]) simp_all

lemma ownership_wp:
  assumes "wp s Q (\<lambda>_ _. True) w" and "frames v s" and "wp s (\<lambda>_ w'. books_ok (tables w')) (\<lambda>_ _. True) w"
    and "\<And>a w'. Q a w' \<Longrightarrow> v w' = v w \<Longrightarrow> payments_owned (tables w')"
  shows "wp s (\<lambda>_ w'. ownership_ok (tables w')) (\<lambda>_ _. True) w"
  by (rule wp_with_frame [OF wp_and [OF assms(1,3)] assms(2)]) (auto simp: ownership_ok_def intro: assms(4))

lemma create_done_owned:
  assumes "payments_owned d" and "create_done ext mid req key corr d a d'" and "customers d' = customers d"
  shows "payments_owned d'"
proof -
  from assms(2) consider "d' = d"
    | p where "payments d' = payments d @ [p]" "owned_customer d (p_merchant_id p) (p_customer_id p)"
    by (auto simp: create_done_def new_payment_def owned_row)
  then show ?thesis
    using assms(1,3) by cases (auto intro: payments_owned_append [where cs = "[]"])
qed

lemma ownership_cong:
  "books d' = books d \<Longrightarrow> customers d' = customers d \<Longrightarrow> ownership_ok d' = ownership_ok d"
  using books_ok_cong [of d' d] by (simp add: ownership_ok_def payments_owned_def books_def)

lemma ownership_payment_operations:
  assumes "ownership_ok (tables w)"
  shows "wp (authorize_block ext mid pid corr) (\<lambda>_ v. ownership_ok (tables v)) (\<lambda>_ _. True) w"
    and "wp (capture_payment ext mid pid corr) (\<lambda>_ v. ownership_ok (tables v)) (\<lambda>_ _. True) w"
    and "wp (cancel_payment ext mid pid corr) (\<lambda>_ v. ownership_ok (tables v)) (\<lambda>_ _. True) w"
    and "wp (refund_payment ext mid pid rreq corr) (\<lambda>_ v. ownership_ok (tables v)) (\<lambda>_ _. True) w"
proof -
  have ok: "books_ok (tables w)" "payments_owned (tables w)" using assms by (simp_all add: ownership_ok_def)
  have put: "payments_owned (tables v)" if "payment_changed pid mid (tables w) (tables v)" "apart (tables v) = apart (tables w)" for v :: world
    using payments_owned_put [OF ok(2) that(1)] that(2) by (simp add: apart_def)
  show "wp (authorize_block ext mid pid corr) (\<lambda>_ v. ownership_ok (tables v)) (\<lambda>_ _. True) w"
    by (rule ownership_wp [OF authorize_block_effect [OF ok(1)] frames_to_apart(2) authorize_block_books [OF ok(1)]])
      (auto intro: put payment_changed_effects)
  show "wp (capture_payment ext mid pid corr) (\<lambda>_ v. ownership_ok (tables v)) (\<lambda>_ _. True) w"
    by (rule ownership_wp [OF capture_payment_effect [OF ok(1)] frames_to_apart(1) capture_payment_books [OF ok(1)]])
      (auto intro: put payment_changed_effects)
  show "wp (cancel_payment ext mid pid corr) (\<lambda>_ v. ownership_ok (tables v)) (\<lambda>_ _. True) w"
    by (rule ownership_wp [OF cancel_payment_effect [OF ok(1)] frames_to_apart(3) cancel_payment_books [OF ok(1)]])
      (auto intro: put payment_changed_effects)
  show "wp (refund_payment ext mid pid rreq corr) (\<lambda>_ v. ownership_ok (tables v)) (\<lambda>_ _. True) w"
    by (rule ownership_wp [OF refund_payment_effect [OF ok(1)] frames_to_apart(4) refund_payment_books [OF ok(1)]])
      (auto intro: put payment_changed_effects)
qed

interpretation ownership: transaction_invariant ext ownership_ok for ext
proof unfold_locales
  fix w :: world and mid aid corr key and creq :: customer_create and freq :: fund_request and preq :: payment_request
  assume "ownership_ok (tables w)"
  then have ok: "books_ok (tables w)" "payments_owned (tables w)" by (simp_all add: ownership_ok_def)
  show "wp (create_customer ext mid creq corr) (\<lambda>_ v. ownership_ok (tables v)) (\<lambda>_ _. True) w"
    by (rule ownership_wp [OF create_customer_rows frames_create_customer wp_same_books [OF create_customer_books ok(1)]])
      (auto simp: business_def intro: payments_owned_same [OF ok(2)])
  show "wp (fund_account ext mid aid freq corr) (\<lambda>_ v. ownership_ok (tables v)) (\<lambda>_ _. True) w"
    by (rule ownership_wp [OF fund_account_effect [OF ok(1)] frames_to_apart(5) fund_account_books [OF ok(1)]])
      (auto simp: apart_def intro: payments_owned_same [OF ok(2), where cs = "[]"])
  show "wp (create_payment ext mid preq key corr) (\<lambda>_ v. ownership_ok (tables v)) (\<lambda>_ _. True) w"
    if "0 < pr_amount_minor preq"
    by (rule ownership_wp [OF create_payment_effect frames_create_payment create_payment_books [OF ok(1) that]])
      (auto intro: create_done_owned [OF ok(2)])
qed (rule ownership_payment_operations, assumption |
  rule wp_frame_keeps, rule frame_rules, rule ownership_cong, simp add: books_def, simp, assumption)+

section \<open>Requests\<close>

definition tenancy_ok :: "db \<Rightarrow> bool" where
  "tenancy_ok d \<longleftrightarrow> ownership_ok d \<and> secrets_ok d \<and> distinct (map d_id (webhook_deliveries d))"

lemma run_tenancy_ok: "tenancy_ok (tables (run ext as initial_world))"
proof -
  have "on_tables ownership_ok initial_world"
    using books_ok_empty by (simp add: on_tables_def ownership_ok_def payments_owned_def initial_world_def empty_db_def)
  then have "on_tables ownership_ok (run ext as initial_world)"
    unfolding run_def by (rule ownership.machine.run_inv)
  moreover have "on_tables secrets_ok initial_world"
    by (simp add: on_tables_def secrets_ok_def initial_world_def empty_db_def)
  then have "on_tables secrets_ok (run ext as initial_world)"
    unfolding run_def by (rule secrets.machine.run_inv)
  ultimately show ?thesis
    using run_deliveries [of ext as] by (simp add: tenancy_ok_def on_tables_def deliveries_from_def)
qed

interpretation isolation: request_step ext "\<lambda>d. tenancy_ok d \<and> m \<in> m_id ` set (merchants d)" "\<lambda>mid. mid \<noteq> m"
    "\<lambda>d d'. tenant m d' = tenant m d" for ext m
  by unfold_locales
    (auto simp: tenancy_ok_def intro: create_merchant_apart create_customer_apart fund_account_apart create_payment_apart
      payment_operations_apart register_webhook_apart rotate_webhook_secret_apart replay_delivery_apart)

text \<open>
  C7: the merchants are isolated from each other.  In any reachable database no request, whatever it
  asks for and whatever its outcome, changes anything that belongs to merchant \<open>m\<close>, unless it comes
  with an API key of \<open>m\<close>: not its row and its API keys, its customers, their accounts and balances, its
  own ledger accounts and those of its customers with their balances, entries and journals, its
  payments and refunds, its idempotency records, its webhook endpoints, secrets and deliveries, the
  events of its payments, or the audit entries in its name.
\<close>

theorem tenant_isolation:
  assumes "m \<in> m_id ` set (merchants (tables (run ext as initial_world)))"
    and "\<And>p. caller ext auth (tables (run ext as initial_world)) = Some p \<Longrightarrow> pl_merchant_id p \<noteq> m"
  shows "tenant m (tables (snd (serve ext raw auth req (run ext as initial_world)))) =
    tenant m (tables (run ext as initial_world))"
  by (rule isolation.serve_stays_in) (use assms run_tenancy_ok in auto)

text \<open>Two merchants; the second one creates a customer.\<close>

definition two_ext :: ext where
  "two_ext = sample_ext\<lparr>token_urlsafe := (\<lambda>n. if n < 5 then ''a'' else ''b'')\<rparr>"

definition two_world :: world where
  "two_world = run two_ext [Serve None None (CreateMerchant ''A'' 1), Serve None None (CreateMerchant ''B'' 1)] initial_world"

lemma two_world:
  "map m_id (merchants (tables two_world)) = [2, 10]"
  "map (\<lambda>k. (k_merchant_id k, key_hash k, revoked_at k, scopes k)) (api_keys (tables two_world)) =
     [(2, ''fg_test_a'', None, merchant_scopes), (10, ''fg_test_b'', None, merchant_scopes)]"
  by (simp_all add: two_world_def run_def serve_def correlation_id_of_def create_merchant_route_def with_status_def
      MerchantCreate_def create_merchant_def two_ext_def generate_api_key_def sample_run)

lemma tenant_isolation_witness:
  "tenant 2 (tables (snd (serve two_ext None (Some ''Bearer fg_test_b'') (CreateCustomer ''x@b.example'' ''EUR'') two_world))) =
     tenant 2 (tables two_world) \<and> map k_merchant_id (tv_api_keys (tenant 2 (tables two_world))) = [2]"
proof -
  obtain a b where keys: "api_keys (tables two_world) = [a, b]" "k_merchant_id a = 2" "key_hash a = ''fg_test_a''"
      "k_merchant_id b = 10" "key_hash b = ''fg_test_b''" "revoked_at b = None"
    using two_world(2) by auto
  have "caller two_ext (Some ''Bearer fg_test_b'') (tables two_world) = Some \<lparr>pl_merchant_id = 10, pl_scopes = scopes b\<rparr>"
    by (simp add: caller_def keys hash_secret_def two_ext_def sample_ext_def startswith_def removeprefix_def
        strip_def strip_chars_def is_space_def)
  then have "p = \<lparr>pl_merchant_id = 10, pl_scopes = scopes b\<rparr>"
    if "caller two_ext (Some ''Bearer fg_test_b'') (tables two_world) = Some p" for p
    using that by simp
  moreover have "2 \<in> m_id ` set (merchants (tables two_world))"
    using two_world(1) by (metis list.set_intros(1) set_map)
  ultimately have "tenant 2 (tables (snd (serve two_ext None (Some ''Bearer fg_test_b'')
      (CreateCustomer ''x@b.example'' ''EUR'') two_world))) = tenant 2 (tables two_world)"
    unfolding two_world_def by (intro tenant_isolation) auto
  then show ?thesis by (simp add: tenant_def keys)
qed

end
