(* ===== verification/Integrity.thy ===== *)
theory Integrity
  imports Tenants
begin

text \<open>
  The schema of \<open>alembic/versions/\<close> as a type invariant of the database: in every reachable database
  each row fits the types of its columns, keys are unique, and foreign keys refer to rows.  Each
  statement is checked once; the operations follow by the structure rules of \<open>keeps\<close>.
\<close>

section \<open>The invariant\<close>

definition rows_ok :: "('r \<Rightarrow> bool) \<Rightarrow> ('r \<Rightarrow> 'k) \<Rightarrow> 'r list \<Rightarrow> bool" where
  "rows_ok P key t \<longleftrightarrow> list_all P t \<and> distinct (map key t)"

definition refers :: "('r \<Rightarrow> 'k) \<Rightarrow> 'r list \<Rightarrow> ('s \<Rightarrow> 'k) \<Rightarrow> 's list \<Rightarrow> bool" where
  "refers fk t key u \<longleftrightarrow> set (map fk t) \<subseteq> set (map key u)"

lemma rows_ok_Nil [simp]: "rows_ok P key []"
  by (simp add: rows_ok_def)

lemma rows_ok_append [simp]: "rows_ok P key (t @ [r]) \<longleftrightarrow> rows_ok P key t \<and> P r \<and> key r \<notin> key ` set t"
  by (auto simp: rows_ok_def)

lemma rows_ok_row_set:
  assumes "rows_ok P key t" and "row_at key' k t = Some r" and "P (f r)"
    and "\<And>x. key (f x) = key x" and "distinct (map key' t)"
  shows "rows_ok P key (row_set key' k f t)"
proof -
  have "x = r" if "x \<in> set t" "key' x = k" for x
    using assms(2) row_at_Some_iff [OF assms(5), of k x] that by simp
  then have "list_all P (row_set key' k f t)"
    using assms(1,3) by (auto simp: rows_ok_def row_set_def list_all_iff)
  then show ?thesis
    using assms(1,4) by (simp add: rows_ok_def map_row_set_frame)
qed

lemma rows_ok_distinct: "rows_ok P key t \<Longrightarrow> distinct (map key t)"
  by (simp add: rows_ok_def)

lemma refers_Nil [simp]: "refers fk [] key u"
  by (simp add: refers_def)

lemma refers_append [simp]: "refers fk (t @ [r]) key u \<longleftrightarrow> refers fk t key u \<and> fk r \<in> key ` set u"
  by (auto simp: refers_def)

lemma refers_to_append: "refers fk t key u \<Longrightarrow> refers fk t key (u @ x)"
  by (auto simp: refers_def)

lemma refers_row_set:
  "(\<And>x. fk (f x) = fk x) \<Longrightarrow> refers fk (row_set key' k f t) key u = refers fk t key u"
  by (simp only: refers_def map_row_set_frame)

lemma refers_to_row_set:
  "(\<And>x. key (f x) = key x) \<Longrightarrow> refers fk t key (row_set key' k f u) = refers fk t key u"
  by (simp only: refers_def map_row_set_frame)

text \<open>Column types and keys of the sixteen tables, then the foreign keys.\<close>

definition types_ok :: "db \<Rightarrow> bool" where
  "types_ok d \<longleftrightarrow>
     rows_ok merchant_data_ok m_id (merchants d) \<and>
     rows_ok api_key_data_ok k_id (api_keys d) \<and> distinct (map key_hash (api_keys d)) \<and>
     rows_ok customer_data_ok c_id (customers d) \<and>
     distinct (map (\<lambda>c. (c_merchant_id c, email c)) (customers d)) \<and>
     rows_ok account_data_ok a_id (accounts d) \<and>
     rows_ok (\<lambda>p. payment_data_ok p \<and> payment_checks p) p_id (payments d) \<and>
     rows_ok refund_data_ok r_id (refunds d) \<and>
     rows_ok (\<lambda>a. ledger_account_data_ok a \<and> normal_balance a \<in> {''DEBIT'', ''CREDIT''}) la_id (ledger_accounts d) \<and>
     distinct (map la_key (ledger_accounts d)) \<and>
     rows_ok (\<lambda>j. journal_data_ok j \<and> j_status j \<in> {''DRAFT'', ''POSTED''}) j_id (journals d) \<and>
     distinct (map j_reference (journals d)) \<and>
     rows_ok (\<lambda>e. entry_data_ok e \<and> e_direction e \<in> {''DEBIT'', ''CREDIT''} \<and> 0 < e_amount_minor e) e_id
       (journal_entries d) \<and>
     rows_ok idempotency_data_ok i_pk (idempotency_records d) \<and>
     rows_ok outbox_data_ok o_event_id (outbox_events d) \<and>
     rows_ok processed_data_ok pe_pk (processed_events d) \<and>
     rows_ok endpoint_data_ok w_id (webhook_endpoints d) \<and>
     rows_ok secret_data_ok s_id (webhook_secrets d) \<and>
     distinct (map (\<lambda>s. (s_endpoint_id s, s_version s)) (webhook_secrets d)) \<and>
     rows_ok delivery_data_ok d_id (webhook_deliveries d) \<and>
     distinct (map (\<lambda>x. (d_endpoint_id x, d_event_id x)) (webhook_deliveries d)) \<and>
     rows_ok audit_data_ok l_id (audit_logs d)"

definition references_exist :: "db \<Rightarrow> bool" where
  "references_exist d \<longleftrightarrow>
     refers k_merchant_id (api_keys d) m_id (merchants d) \<and>
     refers c_merchant_id (customers d) m_id (merchants d) \<and>
     refers a_customer_id (accounts d) c_id (customers d) \<and>
     refers p_merchant_id (payments d) m_id (merchants d) \<and>
     refers p_customer_id (payments d) c_id (customers d) \<and>
     refers r_payment_id (refunds d) p_id (payments d) \<and>
     refers e_journal_id (journal_entries d) j_id (journals d) \<and>
     refers ledger_account_id (journal_entries d) la_id (ledger_accounts d) \<and>
     refers w_merchant_id (webhook_endpoints d) m_id (merchants d) \<and>
     refers s_endpoint_id (webhook_secrets d) w_id (webhook_endpoints d) \<and>
     refers d_endpoint_id (webhook_deliveries d) w_id (webhook_endpoints d)"

definition schema_ok :: "db \<Rightarrow> bool" where
  "schema_ok d \<longleftrightarrow> types_ok d \<and> references_exist d"

lemmas schema_defs = schema_ok_def types_ok_def references_exist_def

lemma schema_ok_empty: "schema_ok empty_db"
  by (simp add: schema_defs empty_db_def)

section \<open>Statements\<close>

lemma keeps_insert_row:
  assumes "\<And>d. schema_ok d \<Longrightarrow> data r \<Longrightarrow> integrity d r \<Longrightarrow> schema_ok (put r d)"
  shows "keeps (on_tables schema_ok) (insert_row data integrity put r)"
  by (rule keeps_wp) (auto simp: wp_simps on_tables_def assms)

lemma keeps_inserts:
  "keeps (on_tables schema_ok) (insert_merchant a)"
  "keeps (on_tables schema_ok) (insert_api_key b)"
  "keeps (on_tables schema_ok) (insert_customer c)"
  "keeps (on_tables schema_ok) (insert_account e)"
  "keeps (on_tables schema_ok) (insert_payment p)"
  "keeps (on_tables schema_ok) (insert_refund r)"
  "keeps (on_tables schema_ok) (insert_outbox ev)"
  "keeps (on_tables schema_ok) (insert_endpoint w)"
  "keeps (on_tables schema_ok) (insert_delivery x)"
  "keeps (on_tables schema_ok) (insert_audit l)"
  unfolding insert_merchant_def insert_api_key_def insert_customer_def insert_account_def insert_payment_def
    insert_refund_def insert_outbox_def insert_endpoint_def insert_delivery_def insert_audit_def
  by (rule keeps_insert_row;
      simp add: schema_defs refers_to_append merchant_integrity_ok_def api_key_integrity_ok_def
        customer_integrity_ok_def account_integrity_ok_def payment_integrity_ok_def refund_integrity_ok_def
        outbox_integrity_ok_def endpoint_integrity_ok_def delivery_integrity_ok_def audit_integrity_ok_def)+

lemma keeps_insert_secret: "keeps (on_tables schema_ok) (insert_secret s)"
  unfolding insert_secret_def
  by (rule keeps_insert_row) (auto simp: schema_defs secret_integrity_ok_def)

lemma keeps_insert_journal: "keeps (on_tables schema_ok) (insert_journal j)"
  unfolding insert_journal_def
  by (intro keeps_bind keeps_defer_check keeps_insert_row)
    (simp add: schema_defs refers_to_append journal_integrity_ok_def)

lemma keeps_insert_entry: "keeps (on_tables schema_ok) (insert_entry e)"
proof (rule keeps_wp)
  fix w assume "on_tables schema_ok w"
  then show "wp (insert_entry e) (\<lambda>_. on_tables schema_ok) (\<lambda>_. on_tables schema_ok) w"
    by (auto simp: insert_entry_def wp_simps on_tables_def schema_defs entry_integrity_ok_def entry_checks_def
        split: sum.split)
qed

text \<open>Updates leave the keys alone; the statement checks the new row.\<close>

lemma keeps_update_row:
  assumes "\<And>d r. schema_ok d \<Longrightarrow> row_at key k (get d) = Some r \<Longrightarrow> data (f r) \<Longrightarrow> checks (f r) \<Longrightarrow>
    schema_ok (put (row_set key k f (get d)) d)"
  shows "keeps (on_tables schema_ok) (update_row key data checks get put k f)"
  by (rule keeps_wp) (auto simp: wp_simps on_tables_def assms split: option.split)

lemma keeps_update_payment:
  assumes "\<And>p. p_id (f p) = p_id p" "\<And>p. p_merchant_id (f p) = p_merchant_id p" "\<And>p. p_customer_id (f p) = p_customer_id p"
  shows "keeps (on_tables schema_ok) (update_payment k f)"
  unfolding update_payment_def
  by (rule keeps_update_row)
    (auto simp: schema_defs refers_row_set refers_to_row_set assms rows_ok_distinct intro!: rows_ok_row_set)

lemma keeps_update_outbox:
  assumes "\<And>e. o_event_id (f e) = o_event_id e"
  shows "keeps (on_tables schema_ok) (update_outbox k f)"
  unfolding update_outbox_def
  by (rule keeps_update_row) (auto simp: schema_defs assms rows_ok_distinct intro!: rows_ok_row_set)

lemma keeps_update_endpoint:
  assumes "\<And>e. w_id (f e) = w_id e" "\<And>e. w_merchant_id (f e) = w_merchant_id e"
  shows "keeps (on_tables schema_ok) (update_endpoint k f)"
  unfolding update_endpoint_def
  by (rule keeps_update_row)
    (auto simp: schema_defs refers_row_set refers_to_row_set assms rows_ok_distinct intro!: rows_ok_row_set)

lemma keeps_update_secret:
  assumes "\<And>s. s_id (f s) = s_id s" "\<And>s. s_endpoint_id (f s) = s_endpoint_id s" "\<And>s. s_version (f s) = s_version s"
  shows "keeps (on_tables schema_ok) (update_secret k f)"
  unfolding update_secret_def
  by (rule keeps_update_row)
    (auto simp: schema_defs refers_row_set map_row_set_frame assms rows_ok_distinct intro!: rows_ok_row_set)

lemma keeps_update_delivery:
  assumes "\<And>r. d_id (f r) = d_id r" "\<And>r. d_endpoint_id (f r) = d_endpoint_id r" "\<And>r. d_event_id (f r) = d_event_id r"
  shows "keeps (on_tables schema_ok) (update_delivery k f)"
  unfolding update_delivery_def
  by (rule keeps_update_row)
    (auto simp: schema_defs refers_row_set map_row_set_frame assms rows_ok_distinct intro!: rows_ok_row_set)

lemma keeps_update_journal:
  assumes keys: "\<And>j. j_id (f j) = j_id j" "\<And>j. j_reference (f j) = j_reference j"
  shows "keeps (on_tables schema_ok) (update_journal k f b)"
proof (rule keeps_wp)
  fix w assume "on_tables schema_ok w"
  then have ok: "schema_ok (tables w)" by (simp add: on_tables_def)
  have "schema_ok ((tables w)\<lparr>journals := row_set j_id k f (journals (tables w))\<rparr>)"
    if "row_at j_id k (journals (tables w)) = Some r" "journal_data_ok (f r)" "journal_update_ok (tables w) r (f r)" for r
    using ok that keys
    by (auto simp: schema_defs refers_to_row_set map_row_set_frame journal_update_ok_def rows_ok_distinct
        intro!: rows_ok_row_set)
  then show "wp (update_journal k f b) (\<lambda>_. on_tables schema_ok) (\<lambda>_. on_tables schema_ok) w"
    using ok by (auto simp: update_journal_def wp_simps on_tables_def split: option.split sum.split)
qed

lemma keeps_complete_idempotency: "keeps (on_tables schema_ok) (complete_idempotency record status body rid)"
  unfolding complete_idempotency_def
  by (rule keeps_update_row)
    (auto simp: schema_defs idempotency_data_ok_def i_pk_def rows_ok_distinct intro!: rows_ok_row_set)

text \<open>The three inserts with \<open>ON CONFLICT DO NOTHING\<close>.\<close>

lemma schema_ok_claimed:
  "schema_ok d \<Longrightarrow> idempotency_data_ok r \<Longrightarrow> claim_row i_pk r (idempotency_records d) = (c, t) \<Longrightarrow>
     schema_ok (d\<lparr>idempotency_records := t\<rparr>)"
  "schema_ok d \<Longrightarrow> processed_data_ok p \<Longrightarrow> claim_row pe_pk p (processed_events d) = (c', t') \<Longrightarrow>
     schema_ok (d\<lparr>processed_events := t'\<rparr>)"
  "schema_ok d \<Longrightarrow> ledger_account_data_ok a \<Longrightarrow> ledger_account_integrity_ok d a \<Longrightarrow>
     claim_row la_key a (ledger_accounts d) = (c'', t'') \<Longrightarrow> schema_ok (d\<lparr>ledger_accounts := t''\<rparr>)"
  by (auto simp: schema_defs claim_row_def ledger_account_integrity_ok_def refers_to_append split: if_splits)

lemma keeps_claim_idempotency: "keeps (on_tables schema_ok) (claim_idempotency ext mid key fp)"
proof (rule keeps_wp)
  fix w assume "on_tables schema_ok w"
  then have ok: "schema_ok (tables w)" by (simp add: on_tables_def)
  show "wp (claim_idempotency ext mid key fp) (\<lambda>_. on_tables schema_ok) (\<lambda>_. on_tables schema_ok) w"
    unfolding claim_idempotency_def now_def Let_def
    by (auto simp: wp_simps on_tables_def ok split: prod.split option.split intro: schema_ok_claimed(1) [OF ok])
qed

lemma keeps_mark_event_processed: "keeps (on_tables schema_ok) (mark_event_processed ext eid consumer)"
proof (rule keeps_wp)
  fix w assume "on_tables schema_ok w"
  then have ok: "schema_ok (tables w)" by (simp add: on_tables_def)
  show "wp (mark_event_processed ext eid consumer) (\<lambda>_. on_tables schema_ok) (\<lambda>_. on_tables schema_ok) w"
    unfolding mark_event_processed_def now_def inbox_claim_def
    by (auto simp: wp_simps on_tables_def ok split: prod.splits)
      (rule schema_ok_claimed(2) [OF ok], simp_all add: processed_data_ok_def)
qed

lemma keeps_ensure_ledger_account: "keeps (on_tables schema_ok) (ensure_ledger_account ext owner name cur normal)"
proof (rule keeps_wp)
  fix w assume "on_tables schema_ok w"
  then have ok: "schema_ok (tables w)" by (simp add: on_tables_def)
  show "wp (ensure_ledger_account ext owner name cur normal) (\<lambda>_. on_tables schema_ok) (\<lambda>_. on_tables schema_ok) w"
    unfolding ensure_ledger_account_def now_def fresh_id_def Let_def
    by (auto simp: wp_simps on_tables_def ok split: prod.split option.split intro: schema_ok_claimed(3) [OF ok])
qed

lemmas keeps_statements = keeps_inserts keeps_insert_secret keeps_insert_journal keeps_insert_entry keeps_update_payment
  keeps_update_outbox keeps_update_endpoint keeps_update_secret keeps_update_delivery keeps_update_journal
  keeps_complete_idempotency keeps_claim_idempotency keeps_mark_event_processed keeps_ensure_ledger_account

section \<open>Transactions and runs\<close>

lemmas composed_defs = append_outbox_def new_envelope_def append_audit_def add_line_def create_journal_def
  audit_payment_def fresh_id_def now_def mark_published_def bump_publish_retry_def

lemma keeps_schema:
  "keeps (on_tables schema_ok) (create_merchant ext mreq corr)"
  "keeps (on_tables schema_ok) (create_customer ext mid creq corr)"
  "keeps (on_tables schema_ok) (fund_account ext mid aid freq corr)"
  "keeps (on_tables schema_ok) (create_payment ext mid preq key corr)"
  "keeps (on_tables schema_ok) (authorize_payment ext mid pid corr)"
  "keeps (on_tables schema_ok) (capture_payment ext mid pid corr)"
  "keeps (on_tables schema_ok) (cancel_payment ext mid pid corr)"
  "keeps (on_tables schema_ok) (refund_payment ext mid pid rreq corr)"
  "keeps (on_tables schema_ok) (register_webhook ext mid wreq corr)"
  "keeps (on_tables schema_ok) (rotate_webhook_secret ext mid eid corr)"
  "keeps (on_tables schema_ok) (replay_delivery ext mid did corr)"
  unfolding create_merchant_def create_customer_def fund_account_def create_payment_def
    persist_payment_def authorize_payment_def capture_payment_def cancel_payment_def refund_payment_def
    register_webhook_def rotate_webhook_secret_def replay_delivery_def composed_defs Let_def
  by (intro keeps_intros keeps_bind keeps_statements; simp add: keeps_raise j_reference_def split: exn.split)+

lemma keeps_outside: "(\<And>w. tables (f w) = tables w) \<Longrightarrow> keeps (on_tables P) (modify_op f)"
  by (simp add: keeps_def modify_op_def on_tables_def)

lemma keeps_schema_publish_event: "keeps (on_tables schema_ok) (publish_event ext k e)"
  unfolding publish_event_def send_and_wait_def composed_defs
  by (intro keeps_intros keeps_bind keeps_statements keeps_outside; simp)

lemma keeps_schema_process: "keeps (on_tables schema_ok) (process_payment_event_for_webhooks ext i t j)"
  unfolding process_payment_event_for_webhooks_def add_delivery_def composed_defs
  by (intro keeps_intros keeps_bind keeps_statements; simp)

lemma keeps_schema_dispatch_delivery: "keeps (on_tables schema_ok) (dispatch_delivery ext reply r)"
  unfolding dispatch_delivery_def active_webhook_secret_def post_webhook_def on_response_def on_http_error_def
    count_failure_def retry_at_def set_delivery_def composed_defs Let_def
  by (intro keeps_intros keeps_bind keeps_statements keeps_outside; simp)

lemma keeps_dispatch_all:
  "(\<And>r. keeps I (dispatch_delivery ext reply r)) \<Longrightarrow> keeps I (dispatch_all ext reply rows n)"
  by (induction rows arbitrary: n) (auto intro!: keeps_intros keeps_bind)

lemma keeps_schema_batches:
  "keeps (on_tables schema_ok) (publish_batch ext k)" "keeps (on_tables schema_ok) (dispatch_batch ext reply)"
  unfolding publish_batch_def dispatch_batch_def now_def
  by (intro keeps_intros keeps_bind keeps_publish_rows keeps_dispatch_all keeps_schema_publish_event
      keeps_schema_dispatch_delivery)+

interpretation schema: transaction_invariant ext schema_ok for ext
  by unfold_locales
    (rule wp_keeps, (rule keeps_schema keeps_schema_process keeps_schema_batches | rule keeps_authorize_block, rule keeps_schema),
     assumption)+

lemma run_schema_ok: "schema_ok (tables (run ext as initial_world))"
proof -
  have "on_tables schema_ok initial_world"
    using schema_ok_empty by (simp add: on_tables_def initial_world_def)
  then have "on_tables schema_ok (run ext as initial_world)"
    unfolding run_def by (rule schema.machine.run_inv)
  then show ?thesis by (simp add: on_tables_def)
qed

end
