(* ===== verification/Totality.thy ===== *)
theory Totality
  imports Integrity
begin

text \<open>
  Total correctness.  The rules of the repositories are stated once more, now without exceptions: they
  need that the next identifiers the environment draws are new and that the values fit their columns.
  The locale \<open>decided_transaction\<close> is the contract of a transaction whose outcome follows from the
  tables it starts from.
\<close>

section \<open>New identifiers\<close>

text \<open>The primary keys that a drawn identifier must not meet.\<close>

definition used_ids :: "db \<Rightarrow> uuid set" where
  "used_ids d = la_id ` set (ledger_accounts d) \<union> j_id ` set (journals d) \<union> reference_id ` set (journals d) \<union>
     e_id ` set (journal_entries d) \<union>
     m_id ` set (merchants d) \<union> k_id ` set (api_keys d) \<union> c_id ` set (customers d) \<union> a_id ` set (accounts d) \<union>
     p_id ` set (payments d) \<union> r_id ` set (refunds d) \<union> o_event_id ` set (outbox_events d) \<union> l_id ` set (audit_logs d)"

lemma used_idsI [simp]:
  "i \<in> p_id ` set (payments d) \<Longrightarrow> i \<in> used_ids d" "i \<in> a_id ` set (accounts d) \<Longrightarrow> i \<in> used_ids d"
  "i \<in> r_id ` set (refunds d) \<Longrightarrow> i \<in> used_ids d"
  by (auto simp: used_ids_def)

text \<open>The next \<open>n\<close> draws of \<open>uuid4\<close> are pairwise different and in use nowhere.\<close>

definition fresh_ids :: "ext \<Rightarrow> nat \<Rightarrow> world \<Rightarrow> bool" where
  "fresh_ids ext n w \<longleftrightarrow>
     distinct (map (\<lambda>i. uuid4 ext (draws w + i)) [0..<n]) \<and>
     list_all (\<lambda>i. uuid4 ext (draws w + i) \<notin> used_ids (tables w)) [0..<n]"

lemma fresh_ids_unused: "fresh_ids ext n w \<Longrightarrow> i < n \<Longrightarrow> uuid4 ext (draws w + i) \<notin> used_ids (tables w)"
  by (simp add: fresh_ids_def list_all_iff)

lemma fresh_ids_apart:
  "fresh_ids ext n w \<Longrightarrow> i < n \<Longrightarrow> j < n \<Longrightarrow> uuid4 ext (draws w + i) = uuid4 ext (draws w + j) \<Longrightarrow> i = j"
  by (simp add: fresh_ids_def distinct_map inj_on_def)

lemma fresh_idsI:
  "(\<And>i. i < n \<Longrightarrow> uuid4 ext (draws w + i) \<notin> used_ids (tables w)) \<Longrightarrow>
     (\<And>i j. i < n \<Longrightarrow> j < n \<Longrightarrow> uuid4 ext (draws w + i) = uuid4 ext (draws w + j) \<Longrightarrow> i = j) \<Longrightarrow> fresh_ids ext n w"
  by (simp add: fresh_ids_def distinct_map inj_on_def list_all_iff)

lemma fresh_ids_fewer: "fresh_ids ext n w \<Longrightarrow> m \<le> n \<Longrightarrow> fresh_ids ext m w"
  by (rule fresh_idsI) (metis fresh_ids_unused le_trans order_less_le_trans, metis fresh_ids_apart order_less_le_trans)

lemma drawn_ids [simp]:
  "i < m \<Longrightarrow> uuid4 ext (k + i) \<in> (\<lambda>i. uuid4 ext (k + i)) ` {0..<m}"
  "0 < m \<Longrightarrow> uuid4 ext k \<in> (\<lambda>i. uuid4 ext (k + i)) ` {0..<m}"
  by (auto intro: rev_image_eqI [of i] rev_image_eqI [of 0])

lemma fresh_ids_later:
  assumes fresh: "fresh_ids ext n w" and later: "draws w' = draws w + m" and "m \<le> n"
    and used: "used_ids (tables w') \<subseteq> used_ids (tables w) \<union> (\<lambda>i. uuid4 ext (draws w + i)) ` {0..<m}"
  shows "fresh_ids ext (n - m) w'"
proof (rule fresh_idsI)
  fix i
  assume i: "i < n - m"
  let ?u = "uuid4 ext (draws w + (m + i))"
  have "m + i < n" using i by linarith
  then have "?u \<notin> used_ids (tables w)" by (rule fresh_ids_unused [OF fresh])
  moreover have "?u \<notin> (\<lambda>j. uuid4 ext (draws w + j)) ` {0..<m}"
  proof
    assume "?u \<in> (\<lambda>j. uuid4 ext (draws w + j)) ` {0..<m}"
    then obtain j where "j < m" "?u = uuid4 ext (draws w + j)" by auto
    then show False using fresh_ids_apart [OF fresh, of "m + i" j] \<open>m + i < n\<close> by simp
  qed
  ultimately have "?u \<notin> used_ids (tables w')" using used by blast
  then show "uuid4 ext (draws w' + i) \<notin> used_ids (tables w')" by (simp add: later add.assoc)
next
  fix i j
  assume "i < n - m" "j < n - m" "uuid4 ext (draws w' + i) = uuid4 ext (draws w' + j)"
  then show "i = j" using fresh_ids_apart [OF fresh, of "m + i" "m + j"] by (simp add: later add.assoc)
qed

lemma fresh_ids_draw:
  assumes "fresh_ids ext n w" and "1 \<le> n" and "used_ids d = used_ids (tables w)"
  shows "fresh_ids ext (n - 1) (w\<lparr>draws := Suc (draws w), tables := d\<rparr>)"
  by (rule fresh_ids_later [OF assms(1) _ assms(2)]) (auto simp: assms(3))

lemma fresh_ids_skip:
  assumes "fresh_ids ext n w" and "1 \<le> n"
  shows "fresh_ids ext (n - 1) (w\<lparr>draws := Suc (draws w)\<rparr>)"
  by (rule fresh_ids_later [OF assms(1) _ assms(2)]) auto

lemma fresh_ids_row:
  assumes "fresh_ids ext n w" and "2 \<le> n" and "used_ids d \<subseteq> insert (uuid4 ext (draws w)) (used_ids (tables w))"
  shows "fresh_ids ext (n - 2) (w\<lparr>draws := Suc (Suc (draws w)), tables := d\<rparr>)"
  by (rule fresh_ids_later [OF assms(1) _ assms(2)]) (use assms(3) in auto)

lemma fresh_ids_tables:
  "fresh_ids ext n w \<Longrightarrow> used_ids d = used_ids (tables w) \<Longrightarrow> fresh_ids ext n (w\<lparr>tables := d\<rparr>)"
  by (simp add: fresh_ids_def)

lemma fresh_ids_frame [simp]:
  "fresh_ids ext n (w\<lparr>counters := c\<rparr>) = fresh_ids ext n w" "fresh_ids ext n (w\<lparr>deferred := q\<rparr>) = fresh_ids ext n w"
  by (simp_all add: fresh_ids_def)

lemma used_ids_payment:
  "p_id ` set ps = p_id ` set (payments d) \<Longrightarrow> used_ids (d\<lparr>payments := ps\<rparr>) = used_ids d"
  by (simp add: used_ids_def)

lemma image_row_set: "(\<And>r. key (f r) = key r) \<Longrightarrow> key ` set (row_set key k f t) = key ` set t"
  by (metis list.set_map map_key_row_set)

section \<open>Operations that cannot fail\<close>

text \<open>Every posted row version queued for the trigger at commit is a row of the table.\<close>

definition deferred_stored :: "world \<Rightarrow> bool" where
  "deferred_stored w \<longleftrightarrow> (\<forall>r \<in> set (deferred w). j_status r = ''POSTED'' \<longrightarrow> r \<in> set (journals (tables w)))"

lemma deferred_stored_passes:
  "deferred_stored w \<Longrightarrow> ledger_tables_ok (tables w) \<Longrightarrow> run_deferred (tables w) (deferred w) = Inr ()"
  by (auto simp: deferred_stored_def run_deferred_Inr ledger_tables_ok_def posted_balanced_def)

lemma deferred_stored_cong:
  "deferred w' = deferred w \<Longrightarrow> journals (tables w') = journals (tables w) \<Longrightarrow> deferred_stored w' = deferred_stored w"
  by (simp add: deferred_stored_def)

lemma append_outbox_total:
  assumes "fresh_ids ext n w" and "3 \<le> n" and "varchar 80 atype"
    and "\<And>row w'. fresh_ids ext (n - 3) w' \<Longrightarrow>
      tables w' = (tables w)\<lparr>outbox_events := outbox_events (tables w) @ [row]\<rparr> \<Longrightarrow>
      deferred w' = deferred w \<Longrightarrow> Q row w'"
  shows "wp (append_outbox ext etype agg atype payload corr) Q E w"
proof -
  have new: "uuid4 ext (draws w) \<notin> o_event_id ` set (outbox_events (tables w))"
    using fresh_ids_unused [OF assms(1), of 0] assms(2) by (auto simp: used_ids_def)
  show ?thesis
    using assms(3) new
    by (auto simp: append_outbox_def new_envelope_def fresh_id_def now_def insert_outbox_def wp_simps Let_def
        outbox_integrity_ok_def outbox_data_ok_def varchar_def int4_def enum_value_lengths
        intro!: assms(4) fresh_ids_later [OF assms(1) _ assms(2)])
      (auto simp: used_ids_def)
qed

lemma append_audit_total:
  assumes "fresh_ids ext n w" and "2 \<le> n" and "varchar 120 a" and "varchar 120 b" and "varchar 160 c"
    and "\<And>row w'. fresh_ids ext (n - 2) w' \<Longrightarrow>
      tables w' = (tables w)\<lparr>audit_logs := audit_logs (tables w) @ [row]\<rparr> \<Longrightarrow>
      deferred w' = deferred w \<Longrightarrow> Q () w'"
  shows "wp (append_audit ext a b c corr meta) Q E w"
proof -
  have new: "uuid4 ext (draws w) \<notin> l_id ` set (audit_logs (tables w))"
    using fresh_ids_unused [OF assms(1), of 0] assms(2) by (auto simp: used_ids_def)
  show ?thesis
    using assms(3,4,5) new
    by (auto simp: append_audit_def fresh_id_def now_def insert_audit_def wp_simps
        audit_integrity_ok_def audit_data_ok_def
        intro!: assms(6) fresh_ids_later [OF assms(1) _ assms(2)])
      (auto simp: used_ids_def)
qed

lemma ensure_ledger_account_total:
  assumes "fresh_ids ext n w" and "2 \<le> n" and "varchar 120 name" and "varchar 3 cur"
    and "normal \<in> {''DEBIT'', ''CREDIT''}"
    and "\<And>account las w'. la_key account = (owner, name, cur) \<Longrightarrow> la_id account \<in> la_id ` set las \<Longrightarrow>
      la_id ` set (ledger_accounts (tables w)) \<subseteq> la_id ` set las \<Longrightarrow> fresh_ids ext (n - 2) w' \<Longrightarrow>
      tables w' = (tables w)\<lparr>ledger_accounts := las\<rparr> \<Longrightarrow> deferred w' = deferred w \<Longrightarrow> Q account w'"
  shows "wp (ensure_ledger_account ext owner name cur normal) Q E w"
proof (cases "row_at la_key (owner, name, cur) (ledger_accounts (tables w))")
  case None
  have new: "uuid4 ext (draws w) \<notin> la_id ` set (ledger_accounts (tables w))"
    using fresh_ids_unused [OF assms(1), of 0] assms(2) by (auto simp: used_ids_def)
  have free: "(owner, name, cur) \<notin> la_key ` set (ledger_accounts (tables w))"
    using None by (simp add: row_at_None_iff)
  have six: "length normal \<le> 6" using assms(5) by auto
  show ?thesis
    using new free assms(3,4,5) six
    by (simp add: ensure_ledger_account_def None fresh_id_def now_def wp_simps Let_def claim_row_def la_key_def
        ledger_account_integrity_ok_def ledger_account_data_ok_def varchar_def)
      (rule assms(6), auto simp: la_key_def used_ids_def intro!: fresh_ids_later [OF assms(1) _ assms(2)])
next
  case (Some account)
  then have "account \<in> set (ledger_accounts (tables w))" "la_key account = (owner, name, cur)"
    using row_at_SomeD [OF Some] by auto
  then show ?thesis
    by (auto simp: ensure_ledger_account_def Some wp_simps intro!: assms(6) [of account "ledger_accounts (tables w)"]
        fresh_ids_fewer [OF assms(1)])
qed

lemma create_journal_total:
  assumes fresh: "fresh_ids ext n w" and "7 \<le> n"
    and lines: "lines = [\<lparr>line_account = a, direction = ''DEBIT'', line_money = m\<rparr>,
      \<lparr>line_account = b, direction = ''CREDIT'', line_money = m\<rparr>]"
    and names: "map_of names a = Some x" "map_of names b = Some y"
    and accounts: "la_id x \<in> la_id ` set (ledger_accounts (tables w))" "la_id y \<in> la_id ` set (ledger_accounts (tables w))"
    and ref: "(rtype, rid) \<notin> j_reference ` set (journals (tables w))"
    and types: "varchar 50 rtype" "varchar 3 cur" "0 < amount_minor m" "int4 (amount_minor m)"
    and stored: "deferred_stored w" and known: "rid \<in> used_ids (tables w)"
    and post: "\<And>j e f w'. tables w' = posting j e f (tables w) \<Longrightarrow> fresh_ids ext (n - 7) w' \<Longrightarrow>
      deferred_stored w' \<Longrightarrow> Q (j_id j) w'"
  shows "wp (create_journal ext rtype rid cur names lines) Q E w"
proof -
  let ?n = "draws w"
  let ?j = "\<lparr>j_id = uuid4 ext ?n, reference_type = rtype, reference_id = rid, j_currency = cur,
      j_status = ''POSTED'', posted_at = Some (utc_now ext (?n + 6)), j_created_at = utc_now ext (?n + 1)\<rparr>"
  let ?e = "\<lparr>e_id = uuid4 ext (?n + 2), e_journal_id = uuid4 ext ?n, ledger_account_id = la_id x,
      e_direction = ''DEBIT'', e_amount_minor = amount_minor m,
      e_currency = currency_value (money_currency m), e_created_at = utc_now ext (?n + 3)\<rparr>"
  let ?f = "\<lparr>e_id = uuid4 ext (?n + 4), e_journal_id = uuid4 ext ?n, ledger_account_id = la_id y,
      e_direction = ''CREDIT'', e_amount_minor = amount_minor m,
      e_currency = currency_value (money_currency m), e_created_at = utc_now ext (?n + 5)\<rparr>"
  note run = create_journal_def insert_journal_def add_line_def insert_entry_def update_journal_def
    fresh_id_def now_def wp_simps names row_simps lines
  have new: "uuid4 ext ?n \<notin> j_id ` set (journals (tables w))"
    "uuid4 ext (?n + 2) \<notin> e_id ` set (journal_entries (tables w))"
    "uuid4 ext (?n + 4) \<notin> e_id ` set (journal_entries (tables w))"
    using fresh_ids_unused [OF fresh, of 0] fresh_ids_unused [OF fresh, of 2] fresh_ids_unused [OF fresh, of 4] assms(2)
    by (auto simp: used_ids_def)
  have apart: "uuid4 ext (?n + 4) \<noteq> uuid4 ext (?n + 2)"
    using fresh_ids_apart [OF fresh, of 4 2] assms(2) by auto
  have none: "row_at j_id (uuid4 ext ?n) (journals (tables w)) = None"
    using new(1) by (simp add: row_at_None_iff)
  have goal: "Q (uuid4 ext ?n) w'" if w': "tables w' = posting ?j ?e ?f (tables w)" "draws w' = ?n + 7"
      "deferred_stored w'" for w'
  proof -
    have "fresh_ids ext (n - 7) w'"
      by (rule fresh_ids_later [OF fresh w'(2) assms(2)]) (use known in \<open>auto simp: w'(1) used_ids_def posting_def drawn_ids(1) [where i = 2, simplified]\<close>)
    then show ?thesis using post [OF w'(1)] w'(3) by simp
  qed
  have unref: "\<forall>x \<in> set (journals (tables w)). j_reference x \<noteq> (rtype, rid)" using ref by (metis imageI)
  show ?thesis
    using new apart ref unref types accounts stored
    by (simp add: run none row_set_absent journal_data_ok_def journal_integrity_ok_def guard_entry_def entry_data_ok_def
        entry_integrity_ok_def entry_checks_def guard_journal_update_def journal_update_ok_def varchar_def int4_def numeral_eq_Suc)
      (rule goal; auto simp: posting_def deferred_stored_def numeral_eq_Suc)
qed

text \<open>How a journal fails: its reference is taken, or the amount does not fit the column.\<close>

lemma create_journal_taken:
  assumes "(rtype, rid) \<in> j_reference ` set (journals (tables w))" and "varchar 50 rtype" and "varchar 3 cur"
    and "\<And>v. E IntegrityError v"
  shows "wp (create_journal ext rtype rid cur names lines) Q E w"
  using assms
  by (simp add: create_journal_def insert_journal_def fresh_id_def now_def wp_simps journal_data_ok_def varchar_def
      journal_integrity_ok_def)

lemma create_journal_too_large:
  assumes fresh: "fresh_ids ext n w" "7 \<le> n" and lines: "lines = \<lparr>line_account = a, direction = dir, line_money = m\<rparr> # rest"
    and "map_of names a = Some x" and "(rtype, rid) \<notin> j_reference ` set (journals (tables w))"
    and "varchar 50 rtype" and "varchar 3 cur" and "\<not> int4 (amount_minor m)" and "\<And>v. E DataError v"
  shows "wp (create_journal ext rtype rid cur names lines) Q E w"
proof -
  have "uuid4 ext (draws w) \<notin> j_id ` set (journals (tables w))"
    using fresh_ids_unused [OF fresh(1), of 0] fresh(2) by (auto simp: used_ids_def)
  then show ?thesis
    using assms
    by (simp add: create_journal_def insert_journal_def add_line_def insert_entry_def fresh_id_def now_def wp_simps
        journal_data_ok_def varchar_def journal_integrity_ok_def entry_data_ok_def)
qed

section \<open>Transactions\<close>

text \<open>The invariants that hold in every reachable database.\<close>

definition sound :: "db \<Rightarrow> bool" where
  "sound d \<longleftrightarrow> books_ok d \<and> schema_ok d"

lemma sound_books [simp]: "sound d \<Longrightarrow> books_ok d"
  by (simp add: sound_def)

text \<open>
  The contract of a transaction whose outcome is decided by the tables it starts from: \<open>err\<close> is the
  error its guards call for, \<open>D\<close> what it does when there is none, \<open>n\<close> the number of values it may
  draw.  Then the whole transaction, its triggers at commit included, ends as \<open>err\<close> says.
\<close>

lemma commit_ok:
  assumes "deferred_stored w \<Longrightarrow> wp m (\<lambda>_ v. deferred_stored v \<and> F v) E w"
    and "books_ok (tables w) \<Longrightarrow> wp m (\<lambda>_ v. books_ok (tables v)) (\<lambda>_ _. True) w"
    and "sound (tables w)" and "deferred w = []"
  shows "wp m (\<lambda>_ v. run_deferred (tables v) (deferred v) = Inr () \<and> F v) E w"
proof -
  have "wp m (\<lambda>_ v. (deferred_stored v \<and> F v) \<and> books_ok (tables v)) E w"
    using wp_conj [OF assms(1,2)] assms(3,4) by (simp add: deferred_stored_def)
  then show ?thesis
    by (rule wp_mono) (auto simp: books_ok_def book_ok_def intro: deferred_stored_passes)
qed

locale decided_transaction =
  fixes ext :: ext and m :: "'a db_op" and n :: nat and D :: "db \<Rightarrow> 'a \<Rightarrow> db \<Rightarrow> bool" and err :: "db \<Rightarrow> exn option"
  assumes effect: "books_ok (tables w) \<Longrightarrow> wp m (\<lambda>a v. D (tables w) a (tables v)) (\<lambda>_ _. True) w"
    and total: "sound (tables w) \<Longrightarrow> fresh_ids ext k w \<Longrightarrow> n \<le> k \<Longrightarrow> deferred w = [] \<Longrightarrow>
      wp m (\<lambda>_ v. run_deferred (tables v) (deferred v) = Inr () \<and> fresh_ids ext (k - n) v)
        (\<lambda>e _. err (tables w) = Some e) w"
    and no_error: "D d a d' \<Longrightarrow> err d = None"
begin

text \<open>The identifiers beyond the first \<open>n\<close> are still new after the commit.\<close>

lemma commits:
  assumes "sound (tables w)" and "fresh_ids ext k w" and "n \<le> k"
  shows "wp (atomically m) (\<lambda>_ v. fresh_ids ext (k - n) v) (\<lambda>e _. err (tables w) = Some e) w"
  using total [of "w\<lparr>deferred := []\<rparr>" k] assms
  by (auto simp: fresh_ids_def wp_def atomically_def split: prod.splits sum.splits)

lemma outcome:
  assumes ok: "sound (tables w)" and run: "atomically m w = (r, w')"
  shows "case r of Inr a \<Rightarrow> D (tables w) a (tables w') \<and> err (tables w) = None
    | Inl e \<Rightarrow> tables w' = tables w \<and> (fresh_ids ext n w \<longrightarrow> err (tables w) = Some e)"
proof (cases r)
  case (Inr a)
  have "wp m (\<lambda>a v. D (tables w) a (tables v)) (\<lambda>_ _. True) (w\<lparr>deferred := []\<rparr>)"
    using effect [of "w\<lparr>deferred := []\<rparr>"] ok by simp
  from atomically_effect [where Q = "D (tables w)", OF this] show ?thesis
    using run Inr by (auto dest: no_error)
next
  case (Inl e)
  then show ?thesis
    using atomically_raises commits [OF ok, of n] run by (auto dest: wp_exception)
qed

text \<open>
  Symbolic execution of the transaction where there is no error to report; \<open>P\<close> is what else is known
  of its body, such as a frame condition.
\<close>

lemma runs:
  assumes ok: "sound (tables w)" "fresh_ids ext k w" "n \<le> k" and none: "err (tables w) = None"
    and P: "\<And>u. tables u = tables w \<Longrightarrow> wp m (\<lambda>a v. P a (tables v)) (\<lambda>_ _. True) u"
    and Q: "\<And>a v. D (tables w) a (tables v) \<Longrightarrow> P a (tables v) \<Longrightarrow> fresh_ids ext (k - n) v \<Longrightarrow> Q a v"
  shows "wp (atomically m) Q E w"
proof -
  obtain r v where run: "atomically m w = (r, v)" by fastforce
  show ?thesis
  proof (cases r)
    case (Inl e)
    then show ?thesis using wp_exception [OF commits [OF ok]] none run by simp
  next
    case (Inr a)
    then have run: "atomically m w = (Inr a, v)" using run by simp
    have "D (tables w) a (tables v)" using outcome [OF ok(1) run] by simp
    moreover have "P a (tables v)" using atomically_effect [OF P run] by simp
    moreover have "fresh_ids ext (k - n) v" using wp_result [OF commits [OF ok] run] .
    ultimately show ?thesis using Q run by (simp add: wp_def)
  qed
qed

text \<open>With fresh identifiers the transaction returns exactly when there is no error to report.\<close>

lemma returns_iff:
  "sound (tables w) \<Longrightarrow> fresh_ids ext n w \<Longrightarrow>
     (\<exists>a w'. atomically m w = (Inr a, w')) \<longleftrightarrow> err (tables w) = None"
  by (cases "atomically m w"; cases "fst (atomically m w)") (use outcome in \<open>force+\<close>)

end

end
