(* ===== verification/Outcomes.thy ===== *)
theory Outcomes
  imports Totality
begin

text \<open>
  The outcomes of the transactions on payments: each either raises exactly the error its guards call
  for, and changes nothing, or it returns with the effect of theory \<open>Effects\<close>.  For each there is
  the error as a function of the tables, the proof that nothing else stops the transaction, and an
  interpretation of \<open>decided_transaction\<close>.
\<close>

section \<open>Payments of a sound database\<close>

lemma sound_payment:
  assumes "sound d" and "payment_for_update pid mid d = Some p"
  shows "row_at p_id (p_id p) (payments d) = Some p" and "payment_data_ok p" and "payment_checks p"
    and "varchar 3 (p_currency p)" and "\<exists>c. p_currency p = currency_value c"
    and "\<exists>c. row_at c_id (p_customer_id p) (customers d) = Some c \<and> c_id c = p_customer_id p"
proof -
  have p: "p \<in> set (payments d)" using payment_for_update_SomeD [OF assms(2)] by simp
  show "row_at p_id (p_id p) (payments d) = Some p" by (rule payment_row [OF sound_books [OF assms(1)] assms(2)])
  show data: "payment_data_ok p" and "payment_checks p"
    using assms(1) p by (auto simp: sound_def schema_defs rows_ok_def list_all_iff)
  then show "varchar 3 (p_currency p)" by (simp add: payment_data_ok_def)
  show "\<exists>c. p_currency p = currency_value c"
    using books_ok_payment [OF sound_books [OF assms(1)] p] by (auto simp: payment_ok_def currency_of_Some split: option.splits)
  have "refers p_customer_id (payments d) c_id (customers d)" using assms(1) by (simp add: sound_def schema_defs)
  then have "p_customer_id p \<in> c_id ` set (customers d)" using p by (auto simp: refers_def)
  then show "\<exists>c. row_at c_id (p_customer_id p) (customers d) = Some c \<and> c_id c = p_customer_id p"
    by (metis not_None_eq row_at_None_iff row_at_SomeD)
qed

text \<open>A payment that has captured nothing has no capture journal.\<close>

lemma uncaptured_no_journal:
  assumes "sound d" and "reference_total d rtype rid ''CREDIT'' = 0"
  shows "(rtype, rid) \<notin> j_reference ` set (journals d)"
proof
  assume "(rtype, rid) \<in> j_reference ` set (journals d)"
  then obtain j where j: "j \<in> set (journals d)" "reference_type j = rtype" "reference_id j = rid"
    by (auto simp: j_reference_def)
  have "journal_balanced d j"
    using assms(1) j(1) by (simp add: sound_def books_ok_def book_ok_def ledger_tables_ok_def posted_balanced_def)
  then have "entry_total d (j_id j) ''CREDIT'' \<noteq> 0" by (simp add: journal_balanced_def)
  then have "\<exists>e \<in> set (journal_entries d). e_journal_id e = j_id j \<and> e_direction e = ''CREDIT''"
    unfolding entry_total_def by (rule contrapos_np) (rule sum_where_none, blast)
  then obtain e where e: "e \<in> set (journal_entries d)" "e_journal_id e = j_id j" "e_direction e = ''CREDIT''"
    by blast
  have pos: "0 < e_amount_minor x" if "x \<in> set (journal_entries d)" for x
    using assms(1) that by (auto simp: sound_def schema_defs rows_ok_def list_all_iff)
  have "(e, j) \<in> set (joined_entries d)" using e j(1) by (force simp: joined_entries_def)
  then have "0 < reference_total d rtype rid ''CREDIT''"
    unfolding reference_total_def using e(3) j(2,3) pos
    by (intro sum_where_pos [of "(e, j)"]) (auto simp: joined_entries_def intro: less_imp_le)
  then show False using assms(2) by simp
qed

section \<open>Capture\<close>

definition capture_error :: "uuid \<Rightarrow> uuid \<Rightarrow> db \<Rightarrow> exn option" where
  "capture_error pid mid d =
     (case payment_for_update pid mid d of
        None \<Rightarrow> Some payment_not_found
      | Some p \<Rightarrow>
          (case check_transition p CAPTURED of
             Inl e \<Rightarrow> Some e
           | Inr _ \<Rightarrow>
               if available_balance d (p_customer_id p) (p_currency p) < p_amount_minor p
               then Some (BusinessError ''INSUFFICIENT_FUNDS'' ''Available balance is insufficient.'')
               else None))"

lemma capture_runs:
  assumes ok: "sound (tables w)" and fresh: "fresh_ids ext n w" "17 \<le> n" and stored: "deferred_stored w"
    and p: "payment_for_update pid mid (tables w) = Some p" and t: "check_transition p CAPTURED = Inr s"
    and bal: "\<not> available_balance (tables w) (p_customer_id p) (p_currency p) < p_amount_minor p"
  shows "wp (capture_payment ext mid pid corr) (\<lambda>_ v. deferred_stored v \<and> fresh_ids ext (n - 17) v) E w"
proof -
  obtain c where c: "row_at c_id (p_customer_id p) (customers (tables w)) = Some c" "c_id c = p_customer_id p"
    using sound_payment(6) [OF ok p] by blast
  obtain cur where cur: "p_currency p = currency_value cur" using sound_payment(5) [OF ok p] by blast
  have pd: "p \<in> set (payments (tables w))" "p_id p = pid" using payment_for_update_SomeD [OF p] by auto
  obtain st where st: "p_status p = status_value st" "CAPTURED \<in> set (allowed st)"
    using t by (auto simp: check_transition_Inr)
  have zero: "captured_amount_minor p = 0" "0 < p_amount_minor p"
    using payment_ok_uncaptured [OF _ st] books_ok_payment [OF sound_books [OF ok] pd(1)] by auto
  have "reference_total (tables w) ''payment_capture'' (p_id p) ''CREDIT'' = 0"
    using books_ok_payment [OF sound_books [OF ok] pd(1)] zero by (simp add: payment_agrees_def)
  then have ref: "(''payment_capture'', p_id p) \<notin> j_reference ` set (journals (tables w))"
    by (rule uncaptured_no_journal [OF ok])
  have known: "p_id p \<in> p_id ` set (payments (tables w))" using pd by auto
  have int: "int4 (p_amount_minor p)" using sound_payment(2) [OF ok p] by (simp add: payment_data_ok_def)
  have data: "payment_data_ok (p\<lparr>p_status := status_value CAPTURED, captured_amount_minor := p_amount_minor p, p_updated_at := u\<rparr>)"
    "payment_checks (p\<lparr>p_status := status_value CAPTURED, captured_amount_minor := p_amount_minor p, p_updated_at := u\<rparr>)" for u
    using sound_payment(2,3) [OF ok p] by (simp_all add: payment_data_ok_def payment_checks_def varchar_def enum_value_lengths)
  show ?thesis
    unfolding capture_payment_def Let_def now_def
    using fresh(2)
    apply (simp add: wp_simps p t c bal)
    apply (rule ensure_ledger_account_total [OF fresh(1)]; (simp add: varchar_def cur; fail)?)
    apply (simp add: wp_simps)
    apply (rule ensure_ledger_account_total, assumption; (simp add: varchar_def cur; fail)?)
    apply (simp add: wp_simps cur Money_def zero line_builders)
    apply (rule create_journal_total, assumption, simp, rule refl, simp, simp)
           apply (simp_all add: int zero ref known varchar_def subsetD stored [unfolded deferred_stored_def] deferred_stored_def)
    apply (simp add: wp_simps update_payment_def audit_payment_def sound_payment(1) [OF ok p] data)
    apply (rule append_outbox_total, rule fresh_ids_draw, assumption, simp, simp add: used_ids_payment image_row_set, simp, simp add: varchar_def)
    apply (simp add: wp_simps)
    apply (rule append_audit_total, assumption; (simp add: varchar_def merchant_ref_def; fail)?)
    apply (simp add: wp_simps deferred_stored_def)
    done
qed

lemma capture_total:
  assumes "sound (tables w)" and "fresh_ids ext n w" and "17 \<le> n" and "deferred_stored w"
  shows "wp (capture_payment ext mid pid corr) (\<lambda>_ v. deferred_stored v \<and> fresh_ids ext (n - 17) v)
    (\<lambda>e _. capture_error pid mid (tables w) = Some e) w"
proof (cases "payment_for_update pid mid (tables w)")
  case None
  then show ?thesis by (simp add: capture_payment_def capture_error_def wp_simps)
next
  case (Some p)
  obtain c where "row_at c_id (p_customer_id p) (customers (tables w)) = Some c" "c_id c = p_customer_id p"
    using sound_payment(6) [OF assms(1) Some] by blast
  moreover note capture_runs [OF assms Some]
  ultimately show ?thesis
    by (cases "check_transition p CAPTURED"; cases "available_balance (tables w) (p_customer_id p) (p_currency p) < p_amount_minor p")
      (simp_all add: capture_payment_def [where payment_id = pid] capture_error_def Some wp_simps)
qed

lemma capture_done_no_error: "capture_done ext mid pid corr d body d' \<Longrightarrow> capture_error pid mid d = None"
  by (auto simp: capture_done_def capture_error_def check_transition_def PaymentStatus_Inr transition_def)

interpretation capture_request: decided_transaction ext "capture_payment ext mid pid corr" 17
    "capture_done ext mid pid corr" "capture_error pid mid" for ext mid pid corr
  by unfold_locales (intro capture_payment_effect commit_ok capture_payment_books capture_total capture_done_no_error; assumption)+

section \<open>Cancellation and authorisation\<close>

definition transition_error :: "payment_status \<Rightarrow> uuid \<Rightarrow> uuid \<Rightarrow> db \<Rightarrow> exn option" where
  "transition_error target pid mid d =
     (case payment_for_update pid mid d of
        None \<Rightarrow> Some payment_not_found
      | Some p \<Rightarrow> (case check_transition p target of Inl e \<Rightarrow> Some e | Inr _ \<Rightarrow> None))"

lemma status_data:
  assumes "payment_data_ok p" and "payment_checks p"
  shows "payment_data_ok (p\<lparr>p_status := status_value st, p_updated_at := u\<rparr>)"
    "payment_checks (p\<lparr>p_status := status_value st, p_updated_at := u\<rparr>)"
    "payment_data_ok (p\<lparr>p_status := status_value st\<rparr>)" "payment_checks (p\<lparr>p_status := status_value st\<rparr>)"
  using assms by (simp_all add: payment_data_ok_def payment_checks_def varchar_def enum_value_lengths)

lemma cancel_total:
  assumes "sound (tables w)" and "fresh_ids ext n w" and "4 \<le> n" and "deferred_stored w"
  shows "wp (cancel_payment ext mid pid corr) (\<lambda>_ v. deferred_stored v \<and> fresh_ids ext (n - 4) v)
    (\<lambda>e _. transition_error CANCELLED pid mid (tables w) = Some e) w"
proof (cases "payment_for_update pid mid (tables w)")
  case None
  then show ?thesis by (simp add: cancel_payment_def transition_error_def wp_simps)
next
  case (Some p)
  show ?thesis
    using assms(3,4)
    by (cases "check_transition p CANCELLED")
      (auto simp: cancel_payment_def Let_def now_def transition_error_def Some wp_simps update_payment_def
        sound_payment(1) [OF assms(1) Some] status_data [OF sound_payment(2,3) [OF assms(1) Some]]
        varchar_def deferred_stored_def used_ids_payment image_row_set
        intro!: append_outbox_total fresh_ids_draw [OF assms(2)])
qed

lemma cancel_done_no_error: "cancel_done ext mid pid corr d body d' \<Longrightarrow> transition_error CANCELLED pid mid d = None"
  by (auto simp: cancel_done_def transition_error_def check_transition_def PaymentStatus_Inr transition_def)

interpretation cancel_request: decided_transaction ext "cancel_payment ext mid pid corr" 4
    "cancel_done ext mid pid corr" "transition_error CANCELLED pid mid" for ext mid pid corr
  by unfold_locales (intro cancel_payment_effect commit_ok cancel_payment_books cancel_total cancel_done_no_error; assumption)+

lemma authorize_total:
  assumes ok: "sound (tables w)" and fresh: "fresh_ids ext n w" "6 \<le> n" and stored: "deferred_stored w"
  shows "wp (authorize_block ext mid pid corr) (\<lambda>_ v. deferred_stored v \<and> fresh_ids ext (n - 6) v)
    (\<lambda>e _. transition_error AUTHORIZED pid mid (tables w) = Some e) w"
proof (cases "payment_for_update pid mid (tables w)")
  case None
  then show ?thesis by (simp add: authorize_block_def authorize_payment_def transition_error_def payment_not_found_def wp_simps)
next
  case (Some p)
  obtain c where c: "row_at c_id (p_customer_id p) (customers (tables w)) = Some c"
    using sound_payment(6) [OF ok Some] by blast
  note rows = sound_payment(1) [OF ok Some] status_data [OF sound_payment(2,3) [OF ok Some]]
  show ?thesis
  proof (cases "check_transition p AUTHORIZED")
    case (Inl e)
    then show ?thesis
      using check_transition_not_persisted [of p AUTHORIZED]
      by (auto simp: authorize_block_def authorize_payment_def transition_error_def Some wp_simps split: exn.split)
  next
    case (Inr s)
    have uncovered: "fresh_ids ext n (w\<lparr>tables := (tables w)\<lparr>payments := row_set p_id (p_id p)
        (\<lambda>p. p\<lparr>p_status := status_value FAILED\<rparr>) (payments (tables w))\<rparr>\<rparr>)"
      by (rule fresh_ids_tables [OF fresh(1)]) (simp add: used_ids_payment image_row_set)
    show ?thesis
      using stored fresh(2)
      by (auto simp: authorize_block_def authorize_payment_def audit_payment_def Let_def now_def Some Inr c wp_simps
          update_payment_def rows varchar_def merchant_ref_def deferred_stored_def used_ids_payment image_row_set
          intro!: append_outbox_total append_audit_total fresh_ids_draw [OF fresh(1)]
            append_outbox_total [OF uncovered])
        (rule fresh_ids_fewer, assumption, simp)
  qed
qed

lemma authorize_done_no_error: "authorize_done ext mid pid corr d r d' \<Longrightarrow> transition_error AUTHORIZED pid mid d = None"
  by (auto simp: authorize_done_def transition_error_def check_transition_def PaymentStatus_Inr transition_def)

interpretation authorize_request: decided_transaction ext "authorize_block ext mid pid corr" 6
    "authorize_done ext mid pid corr" "transition_error AUTHORIZED pid mid" for ext mid pid corr
  by unfold_locales (intro authorize_block_effect commit_ok authorize_block_books authorize_total authorize_done_no_error; assumption)+

section \<open>Funding\<close>

definition fund_error :: "uuid \<Rightarrow> uuid \<Rightarrow> fund_request \<Rightarrow> db \<Rightarrow> exn option" where
  "fund_error mid aid req d =
     (case row_at a_id aid (accounts d) of
        None \<Rightarrow> Some account_not_found
      | Some a \<Rightarrow>
          if not_owned c_merchant_id (row_at c_id (a_customer_id a) (customers d)) mid then Some account_not_found
          else if a_currency a \<noteq> currency_value (fr_currency req)
          then Some (BusinessError ''CURRENCY_MISMATCH'' ''Funding currency must match the account currency.'')
          else if fr_amount_minor req \<le> 0 then Some ValidationError
          else if (''account_funding'', aid) \<in> j_reference ` set (journals d) then Some IntegrityError
          else if \<not> int4 (fr_amount_minor req) then Some DataError
          else None)"

lemma fund_total:
  assumes ok: "sound (tables w)" and fresh: "fresh_ids ext n w" "13 \<le> n" and stored: "deferred_stored w"
  shows "wp (fund_account ext mid aid req corr) (\<lambda>_ v. deferred_stored v \<and> fresh_ids ext (n - 13) v)
    (\<lambda>e _. fund_error mid aid req (tables w) = Some e) w"
proof (cases "row_at a_id aid (accounts (tables w))")
  case None
  then show ?thesis by (simp add: fund_error_def fund_account_def wp_simps)
next
  case (Some a)
  then have id: "a_id a = aid" using row_at_SomeD [OF Some] by simp
  have known: "aid \<in> a_id ` set (accounts (tables w))" using row_at_SomeD [OF Some] by auto
  let ?bad = "not_owned c_merchant_id (row_at c_id (a_customer_id a) (customers (tables w))) mid"
  note start = wp_simps Some option.case if_False if_True simp_thms
  show ?thesis
  proof (cases ?bad)
    case True
    then show ?thesis by (simp only: fund_account_def fund_error_def start)
  next
    case own: False
    show ?thesis
    proof (cases "a_currency a = currency_value (fr_currency req)")
      case False
      then show ?thesis by (simp only: fund_account_def fund_error_def own start)
    next
      case cur: True
      have err: "fund_error mid aid req (tables w) =
          (if fr_amount_minor req \<le> 0 then Some ValidationError
           else if (''account_funding'', aid) \<in> j_reference ` set (journals (tables w)) then Some IntegrityError
           else if \<not> int4 (fr_amount_minor req) then Some DataError else None)"
        by (simp only: fund_error_def own cur start)
      show ?thesis
        unfolding fund_account_def
        using fresh(2)
        apply (simp only: own cur start)
        apply (rule ensure_ledger_account_total [OF fresh(1)]; (simp add: varchar_def; fail)?)
        apply (simp only: wp_simps)
        apply (rule ensure_ledger_account_total, assumption; (simp add: varchar_def; fail)?)
        apply (cases "fr_amount_minor req \<le> 0")
         apply (simp add: wp_simps Money_def err)
        apply (simp add: wp_simps Money_def line_builders id)
        apply (cases "(''account_funding'', aid) \<in> j_reference ` set (journals (tables w))")
         apply (rule create_journal_taken; simp add: varchar_def err)
        apply (cases "int4 (fr_amount_minor req)")
         apply (rule create_journal_total, assumption, simp, rule refl, simp, simp)
                apply (simp_all add: varchar_def known subsetD stored [unfolded deferred_stored_def] deferred_stored_def)
         apply (simp add: wp_simps)
         apply (rule append_audit_total, assumption; (simp add: varchar_def merchant_ref_def; fail)?)
         apply (simp add: wp_simps deferred_stored_def)
        apply (rule create_journal_too_large, assumption, simp, rule refl; simp add: varchar_def err)
        done
    qed
  qed
qed

text \<open>Funding that returned met no error: in particular the account was not funded before.\<close>

lemma wp_any: "(\<And>a v. Q a v) \<Longrightarrow> wp m Q (\<lambda>_ _. True) w"
  by (auto simp: wp_def split: prod.splits sum.splits)

lemma create_journal_needs:
  assumes lines: "lines = \<lparr>line_account = a, direction = dir, line_money = m\<rparr> # rest"
    and "\<And>i v. (rtype, rid) \<notin> j_reference ` set (journals (tables w)) \<Longrightarrow> int4 (amount_minor m) \<Longrightarrow> Q i v"
  shows "wp (create_journal ext rtype rid cur names lines) Q (\<lambda>_ _. True) w"
  unfolding lines create_journal_def insert_journal_def add_line_def insert_entry_def fresh_id_def now_def for_each.simps
  by (auto simp: wp_simps journal_integrity_ok_def entry_data_ok_def split: option.split sum.split
      intro!: wp_any assms(2))

lemma fund_no_error:
  "wp (fund_account ext mid aid req corr) (\<lambda>_ _. fund_error mid aid req (tables w) = None) (\<lambda>_ _. True) w"
proof (cases "row_at a_id aid (accounts (tables w))")
  case None
  then show ?thesis by (simp add: fund_account_def wp_simps)
next
  case (Some a)
  then have id: "a_id a = aid" using row_at_SomeD [OF Some] by simp
  show ?thesis
    unfolding fund_account_def
    apply (clarsimp simp: wp_simps Some)
    apply (rule ensure_ledger_account_rule)
    apply (clarsimp simp: wp_simps)
    apply (rule ensure_ledger_account_rule)
    apply (clarsimp simp: wp_simps Money_def line_builders)
    apply (rule create_journal_needs, rule refl)
    apply (clarsimp simp: wp_simps)
    apply (rule append_audit_rule)
    apply (clarsimp simp: wp_simps fund_error_def Some id)
    done
qed

lemma fund_effect_no_error:
  assumes "books_ok (tables w)"
  shows "wp (fund_account ext mid aid req corr)
    (\<lambda>_ v. fund_done mid aid req (tables w) (tables v) \<and> fund_error mid aid req (tables w) = None) (\<lambda>_ _. True) w"
  using wp_conj [OF fund_account_effect [OF assms] fund_no_error] by simp

interpretation fund_request: decided_transaction ext "fund_account ext mid aid req corr" 13
    "\<lambda>d _ d'. fund_done mid aid req d d' \<and> fund_error mid aid req d = None" "fund_error mid aid req" for ext mid aid req corr
  by unfold_locales ((intro fund_effect_no_error commit_ok fund_account_books fund_total; assumption) | simp)+

section \<open>Refund\<close>

definition refund_error :: "uuid \<Rightarrow> uuid \<Rightarrow> int \<Rightarrow> db \<Rightarrow> exn option" where
  "refund_error pid mid n d =
     (case payment_for_update pid mid d of
        None \<Rightarrow> Some payment_not_found
      | Some p \<Rightarrow>
          (case PaymentStatus (p_status p) of
             Inl e \<Rightarrow> Some e
           | Inr st \<Rightarrow>
               if \<not> refundable st
               then Some (BusinessError ''PAYMENT_NOT_REFUNDABLE'' ''Only captured payments can be refunded.'')
               else if captured_amount_minor p - refunded_amount_minor p < n
               then Some (BusinessError ''REFUND_EXCEEDS_CAPTURE'' ''Refund amount exceeds captured amount.'')
               else if 0 < n then None
               else if int4 n then Some ValidationError
               else Some DataError))"

lemma new_refund_total:
  assumes fresh: "fresh_ids ext n w" and "2 \<le> n" and "pid \<in> p_id ` set (payments (tables w))" and "varchar 3 cur"
    and bad: "\<And>v. \<not> int4 amount \<Longrightarrow> E DataError v"
    and good: "\<And>rid row v. int4 amount \<Longrightarrow> r_id row = rid \<Longrightarrow> rid \<notin> r_id ` set (refunds (tables w)) \<Longrightarrow> fresh_ids ext (n - 2) v \<Longrightarrow>
      tables v = (tables w)\<lparr>refunds := refunds (tables w) @ [row]\<rparr> \<Longrightarrow> deferred v = deferred w \<Longrightarrow> wp (f rid) Q E v"
  shows "wp (bind_op (fresh_id ext) (\<lambda>rid. bind_op (now ext) (\<lambda>t. bind_op (insert_refund
      \<lparr>r_id = rid, r_payment_id = pid, r_amount_minor = amount, r_currency = cur, r_status = ''SUCCEEDED'', r_created_at = t\<rparr>)
      (\<lambda>_. f rid)))) Q E w"
proof -
  have "uuid4 ext (draws w) \<notin> r_id ` set (refunds (tables w))"
    using fresh_ids_unused [OF fresh, of 0] assms(2) by (auto simp: used_ids_def)
  then show ?thesis
    using assms(2-4) bad
    by (cases "int4 amount")
      (auto simp: fresh_id_def now_def wp_simps insert_refund_def refund_data_ok_def refund_integrity_ok_def varchar_def
        used_ids_def intro!: good fresh_ids_row [OF fresh])
qed

lemma refund_reference_new:
  "books_ok d \<Longrightarrow> i \<notin> r_id ` set (refunds d) \<Longrightarrow> (''payment_refund'', i) \<notin> j_reference ` set (journals d)"
  by (auto simp: books_ok_def references_ok_def j_reference_def)

lemma refund_runs:
  assumes ok: "sound (tables w)" and fresh: "fresh_ids ext n w" "16 \<le> n" and stored: "deferred_stored w"
    and p: "payment_for_update pid mid (tables w) = Some p" and st: "p_status p = status_value st" "refundable st"
    and n: "\<not> captured_amount_minor p - refunded_amount_minor p < rr_amount_minor req"
    and E: "\<And>v. rr_amount_minor req \<le> 0 \<Longrightarrow> int4 (rr_amount_minor req) \<Longrightarrow> E ValidationError v"
      "\<And>v. \<not> 0 < rr_amount_minor req \<Longrightarrow> \<not> int4 (rr_amount_minor req) \<Longrightarrow> E DataError v"
  shows "wp (refund_payment ext mid pid req corr) (\<lambda>_ v. deferred_stored v \<and> fresh_ids ext (n - 16) v) E w"
proof -
  obtain c where c: "row_at c_id (p_customer_id p) (customers (tables w)) = Some c"
    using sound_payment(6) [OF ok p] by blast
  obtain cur where cur: "p_currency p = currency_value cur" using sound_payment(5) [OF ok p] by blast
  have pd: "p \<in> set (payments (tables w))" "p_id p = pid" using payment_for_update_SomeD [OF p] by auto
  have mem: "pid \<in> p_id ` set (payments (tables w))" using pd by auto
  have row: "row_at p_id pid (payments (tables w)) = Some p" using sound_payment(1) [OF ok p] pd(2) by simp
  note types = sound_payment(2,3) [OF ok p, unfolded payment_data_ok_def payment_checks_def int4_def]
  have data: "payment_data_ok (p\<lparr>refunded_amount_minor := refunded_amount_minor p + rr_amount_minor req, p_status := status_value s\<rparr>)"
    "payment_checks (p\<lparr>refunded_amount_minor := refunded_amount_minor p + rr_amount_minor req, p_status := status_value s\<rparr>)"
    if "0 < rr_amount_minor req" for s
    using types n that by (auto simp: payment_data_ok_def payment_checks_def varchar_def int4_def enum_value_lengths)
  have int: "int4 (rr_amount_minor req)" if "0 < rr_amount_minor req"
    using types n that by (simp add: int4_def)
  have large: "E DataError v" if "\<not> int4 (rr_amount_minor req)" for v
    using E(2) int that by (cases "0 < rr_amount_minor req") auto
  show ?thesis
    unfolding refund_payment_def Let_def
    using fresh(2)
    apply (simp add: wp_simps p st n c cur PaymentStatus_Inr)
    apply (rule ensure_ledger_account_total [OF fresh(1)]; (simp add: varchar_def; fail)?)
    apply (simp only: wp_bind)
    apply (rule ensure_ledger_account_total, assumption; (simp add: varchar_def; fail)?)
    apply (rule new_refund_total, assumption; (simp add: varchar_def pd(2) mem large; fail)?)
    apply (cases "0 < rr_amount_minor req")
     apply (simp add: wp_simps Money_def line_builders)
     apply (rule create_journal_total, assumption, simp, rule refl, simp, simp)
            apply (simp_all add: pd(2) int refund_reference_new [OF sound_books [OF ok]] varchar_def subsetD
              stored [unfolded deferred_stored_def] deferred_stored_def)
     apply (simp add: wp_simps update_payment_def row data)
     apply (rule append_outbox_total, rule fresh_ids_tables, assumption, simp add: used_ids_payment image_row_set,
        simp, simp add: varchar_def)
     apply (simp add: wp_simps deferred_stored_def)
    apply (simp add: wp_simps Money_def E)
    done
qed

lemma refund_total:
  assumes "sound (tables w)" and "fresh_ids ext n w" and "16 \<le> n" and "deferred_stored w"
  shows "wp (refund_payment ext mid pid req corr) (\<lambda>_ v. deferred_stored v \<and> fresh_ids ext (n - 16) v)
    (\<lambda>e _. refund_error pid mid (rr_amount_minor req) (tables w) = Some e) w"
proof (cases "payment_for_update pid mid (tables w)")
  case None
  then show ?thesis by (simp add: refund_payment_def refund_error_def wp_simps)
next
  case (Some p)
  note start = refund_payment_def [where payment_id = pid] refund_error_def Some wp_simps Let_def
  show ?thesis
  proof (cases "PaymentStatus (p_status p)")
    case (Inl e)
    then show ?thesis by (simp add: start)
  next
    case (Inr st)
    then have st: "p_status p = status_value st" by (simp add: PaymentStatus_Inr)
    show ?thesis
    proof (cases "refundable st \<and> \<not> captured_amount_minor p - refunded_amount_minor p < rr_amount_minor req")
      case True
      then have "refundable st" "\<not> captured_amount_minor p - refunded_amount_minor p < rr_amount_minor req" by auto
      then show ?thesis
        by (intro refund_runs [OF assms Some st]) (simp_all add: refund_error_def Some Inr)
    next
      case False
      then show ?thesis by (cases "refundable st") (simp_all add: start Inr)
    qed
  qed
qed

lemma refund_done_no_error: "refund_done ext mid pid n corr d body d' \<Longrightarrow> refund_error pid mid n d = None"
  by (auto simp: refund_done_def refund_error_def PaymentStatus_Inr)

interpretation refund_request: decided_transaction ext "refund_payment ext mid pid req corr" 16
    "refund_done ext mid pid (rr_amount_minor req) corr" "refund_error pid mid (rr_amount_minor req)" for ext mid pid req corr
  by unfold_locales (intro refund_payment_effect commit_ok refund_payment_books refund_total refund_done_no_error; assumption)+

section \<open>Creation\<close>

definition new_payment_error :: "uuid \<Rightarrow> payment_request \<Rightarrow> db \<Rightarrow> exn option" where
  "new_payment_error mid req d =
     (if not_owned c_merchant_id (row_at c_id (pr_customer_id req) (customers d)) mid
      then Some (BusinessError ''CUSTOMER_NOT_FOUND'' ''Customer was not found for this merchant.'')
      else
        (case row_at m_id mid (merchants d) of
           None \<Rightarrow> Some (BusinessError ''MERCHANT_NOT_FOUND'' ''Merchant was not found.'')
         | Some m \<Rightarrow>
             (case evaluate_risk (pr_amount_minor req) (currency_value (pr_currency req)) (m_risk_level m) 0 False of
                Inl e \<Rightarrow> Some e
              | Inr _ \<Rightarrow>
                  if \<not> int4 (pr_amount_minor req) then Some DataError
                  else if pr_amount_minor req \<le> 0 then Some IntegrityError
                  else None)))"

definition create_error :: "ext \<Rightarrow> uuid \<Rightarrow> payment_request \<Rightarrow> string \<Rightarrow> db \<Rightarrow> exn option" where
  "create_error ext mid req key d =
     (let fp = canonical_fingerprint ext (payment_request_dump req) in
      if \<not> varchar 100 key \<or> \<not> varchar 64 fp then Some DataError
      else
        (case row_at i_pk (key, mid) (idempotency_records d) of
           None \<Rightarrow> new_payment_error mid req d
         | Some r \<Rightarrow>
             if request_fingerprint r \<noteq> fp
             then Some (BusinessError ''IDEMPOTENCY_CONFLICT'' ''same idempotency key used with a different payload'')
             else if response_body r \<noteq> None \<and> response_status r \<noteq> None then None
             else new_payment_error mid req d))"

lemma new_payment_error_same:
  "customers d' = customers d \<Longrightarrow> merchants d' = merchants d \<Longrightarrow> new_payment_error mid req d' = new_payment_error mid req d"
  by (simp only: new_payment_error_def)

lemma claim_idempotency_total:
  assumes fresh: "fresh_ids ext n w" "1 \<le> n"
    and found: "\<And>r w'. row_at i_pk (key, mid) (idempotency_records (tables w)) = Some r \<Longrightarrow>
      request_fingerprint r = fp \<Longrightarrow> varchar 100 key \<Longrightarrow> varchar 64 fp \<Longrightarrow>
      tables w' = tables w \<Longrightarrow> deferred w' = deferred w \<Longrightarrow> fresh_ids ext (n - 1) w' \<Longrightarrow> Q r w'"
    and new: "\<And>r w'. row_at i_pk (key, mid) (idempotency_records (tables w)) = None \<Longrightarrow>
      i_pk r = (key, mid) \<Longrightarrow> response_body r = None \<Longrightarrow> varchar 100 key \<Longrightarrow> varchar 64 fp \<Longrightarrow> idempotency_data_ok r \<Longrightarrow>
      tables w' = (tables w)\<lparr>idempotency_records := idempotency_records (tables w) @ [r]\<rparr> \<Longrightarrow>
      deferred w' = deferred w \<Longrightarrow> fresh_ids ext (n - 1) w' \<Longrightarrow> Q r w'"
    and conflict: "\<And>r w'. row_at i_pk (key, mid) (idempotency_records (tables w)) = Some r \<Longrightarrow>
      request_fingerprint r \<noteq> fp \<Longrightarrow> varchar 100 key \<Longrightarrow> varchar 64 fp \<Longrightarrow>
      E (IdempotencyConflictError ''same idempotency key used with a different payload'') w'"
    and data: "\<And>w'. \<not> varchar 100 key \<or> \<not> varchar 64 fp \<Longrightarrow> E DataError w'"
  shows "wp (claim_idempotency ext mid key fp) Q E w"
proof (cases "row_at i_pk (key, mid) (idempotency_records (tables w))")
  case None
  then have "(key, mid) \<notin> i_pk ` set (idempotency_records (tables w))" by (simp add: row_at_None_iff)
  then show ?thesis
    using None
    by (auto simp: claim_idempotency_def now_def wp_simps Let_def claim_row_def idempotency_row_def
        idempotency_data_ok_def i_pk_def used_ids_def
        intro!: new data fresh_ids_draw [OF fresh, simplified])
next
  case (Some r)
  then have "(key, mid) \<in> i_pk ` set (idempotency_records (tables w))" "i_pk r = (key, mid)"
    using row_at_SomeD [OF Some] by (auto intro: rev_image_eqI)
  then show ?thesis
    using Some
    by (auto simp: claim_idempotency_def now_def wp_simps Let_def claim_row_def idempotency_row_def
        idempotency_data_ok_def i_pk_def used_ids_def
        intro!: found conflict data fresh_ids_draw [OF fresh, simplified] fresh_ids_skip [OF fresh, simplified])
qed

lemma persist_payment_total:
  assumes fresh: "fresh_ids ext n w" "8 \<le> n"
    and rec: "\<And>r. row_at i_pk (i_pk rec) (idempotency_records (tables w)) = Some r \<Longrightarrow> idempotency_data_ok r"
    and keys: "mid \<in> m_id ` set (merchants (tables w))" "pr_customer_id req \<in> c_id ` set (customers (tables w))"
    and data: "\<And>v. \<not> int4 (pr_amount_minor req) \<Longrightarrow> E DataError v"
    and check: "\<And>v. int4 (pr_amount_minor req) \<Longrightarrow> pr_amount_minor req \<le> 0 \<Longrightarrow> E IntegrityError v"
    and Q: "\<And>a v. deferred v = deferred w \<Longrightarrow> fresh_ids ext (n - 8) v \<Longrightarrow> Q a v"
  shows "wp (persist_payment ext mid req rec risk corr) Q E w"
proof -
  have new: "uuid4 ext (draws w) \<notin> p_id ` set (payments (tables w))"
    using fresh_ids_unused [OF fresh(1), of 0] fresh(2) by (auto simp: used_ids_def)
  have types: "payment_data_ok (new_payment i mid req st t t') = int4 (pr_amount_minor req)" for i st t t'
    by (auto simp: payment_data_ok_def new_payment_def varchar_def int4_def enum_value_lengths)
  have integrity: "payment_integrity_ok (tables w) (new_payment (uuid4 ext (draws w)) mid req st t t') = (0 < pr_amount_minor req)"
    for st t t'
    using new keys by (auto simp: payment_integrity_ok_def payment_checks_def new_payment_def)
  have start: "fresh_ids ext (n - 3) (w\<lparr>draws := Suc (Suc (Suc (draws w))),
      tables := (tables w)\<lparr>payments := payments (tables w) @ [new_payment (uuid4 ext (draws w)) mid req st t t']\<rparr>\<rparr>)" for st t t'
    by (rule fresh_ids_later [OF fresh(1)]) (use fresh(2) in \<open>auto simp: used_ids_def new_payment_def\<close>)
  have status: "int4 201" by (simp add: int4_def)
  show ?thesis
  proof (cases "int4 (pr_amount_minor req) \<and> 0 < pr_amount_minor req")
    case True
    then show ?thesis
      using fresh(2)
      unfolding persist_payment_def Let_def fresh_id_def now_def insert_payment_def complete_idempotency_def
      by (auto simp: wp_simps types integrity varchar_def merchant_ref_def Q idempotency_data_ok_def status
          dest!: rec [unfolded idempotency_data_ok_def] split: option.split
          intro!: append_outbox_total [OF start] append_audit_total [where n = "n - 6"])
        ((simp; fail) | (rule Q, simp, simp, rule fresh_ids_tables, assumption, simp add: used_ids_def))+
  next
    case False
    then show ?thesis
      unfolding persist_payment_def Let_def fresh_id_def now_def insert_payment_def
      by (auto simp: wp_simps types integrity data check)
  qed
qed

text \<open>The part of \<open>create_payment\<close> after the claim.\<close>

lemma create_rest_total:
  assumes fresh: "fresh_ids ext n w" "8 \<le> n" and empty: "deferred w = []"
    and rec: "\<And>r. row_at i_pk (i_pk rec) (idempotency_records (tables w)) = Some r \<Longrightarrow> idempotency_data_ok r"
    and err: "new_payment_error mid req (tables w) = err" and k: "k = n - 8"
  shows "wp (bind_op (query (\<lambda>d. row_at c_id (pr_customer_id req) (customers d))) (\<lambda>customer.
     bind_op (raise_if (not_owned c_merchant_id customer mid)
       (BusinessError ''CUSTOMER_NOT_FOUND'' ''Customer was not found for this merchant.'')) (\<lambda>_.
     bind_op (query (\<lambda>d. row_at m_id mid (merchants d))) (\<lambda>found.
     case found of
       None \<Rightarrow> raise (BusinessError ''MERCHANT_NOT_FOUND'' ''Merchant was not found.'')
     | Some merchant \<Rightarrow>
     bind_op (lift_sum (evaluate_risk (pr_amount_minor req) (currency_value (pr_currency req))
       (m_risk_level merchant) 0 False)) (\<lambda>risk.
     persist_payment ext mid req rec risk corr)))))
    (\<lambda>_ v. run_deferred (tables v) (deferred v) = Inr () \<and> fresh_ids ext k v) (\<lambda>e _. err = Some e) w"
proof (cases "not_owned c_merchant_id (row_at c_id (pr_customer_id req) (customers (tables w))) mid")
  case True
  then show ?thesis by (simp only: err [symmetric] new_payment_error_def wp_simps if_True)
next
  case own: False
  then have cust: "pr_customer_id req \<in> c_id ` set (customers (tables w))"
    using row_at_None_iff [of c_id "pr_customer_id req" "customers (tables w)"] by auto
  show ?thesis
  proof (cases "row_at m_id mid (merchants (tables w))")
    case None
    then show ?thesis by (simp only: err [symmetric] new_payment_error_def own wp_simps if_False option.case)
  next
    case (Some m)
    then have merch: "mid \<in> m_id ` set (merchants (tables w))"
      using row_at_None_iff [of m_id mid "merchants (tables w)"] by auto
    note start = err [symmetric] new_payment_error_def own wp_simps if_False option.case Some
    show ?thesis
    proof (cases "evaluate_risk (pr_amount_minor req) (currency_value (pr_currency req)) (m_risk_level m) 0 False")
      case (Inl e)
      then show ?thesis by (simp only: start sum.case)
    next
      case (Inr risk)
      show ?thesis
        by (simp only: start Inr sum.case)
          (rule persist_payment_total [OF fresh rec merch cust]; simp add: empty k)
    qed
  qed
qed

lemma answered_case:
  "(case (b, s) of (Some body, Some status) \<Rightarrow> x body status | _ \<Rightarrow> y) =
     (if b \<noteq> None \<and> s \<noteq> None then x (the b) (the s) else y)"
  by (simp split: option.split)

lemma create_total:
  assumes ok: "sound (tables w)" and fresh: "fresh_ids ext n w" "9 \<le> n" and empty: "deferred w = []"
  shows "wp (create_payment ext mid req key corr) (\<lambda>_ v. run_deferred (tables v) (deferred v) = Inr () \<and> fresh_ids ext (n - 9) v)
    (\<lambda>e _. create_error ext mid req key (tables w) = Some e) w"
proof -
  have stored: "idempotency_data_ok r" if "row_at i_pk k (idempotency_records (tables w)) = Some r" for k r
    using ok row_at_SomeD [OF that] by (auto simp: sound_def schema_defs rows_ok_def list_all_iff)
  have one: "1 \<le> n" using fresh(2) by simp
  show ?thesis
    unfolding create_payment_def Let_def
    apply (simp only: wp_bind wp_catch)
    apply (rule claim_idempotency_total [OF fresh(1) one]; (simp add: create_error_def wp_simps; fail)?)
     subgoal premises prems for r w'
     proof (cases "response_body r \<noteq> None \<and> response_status r \<noteq> None")
       case True
       moreover have "fresh_ids ext (n - 9) w'" by (rule fresh_ids_fewer [OF prems(7)]) simp
       ultimately show ?thesis using prems(6) empty by (auto simp: wp_ret)
     next
       case False
       then have err: "new_payment_error mid req (tables w') = create_error ext mid req key (tables w)"
         using False prems by (auto simp: create_error_def)
       show ?thesis
         by (simp only: answered_case False if_False)
           (rule create_rest_total [OF _ _ _ _ err, of _ "n - 1"]; use prems empty stored fresh(2) in simp)
     qed
    subgoal premises prems for r w'
    proof -
      have err: "new_payment_error mid req (tables w') = create_error ext mid req key (tables w)"
        using prems new_payment_error_same [of "tables w'" "tables w"] by (simp add: create_error_def)
      show ?thesis
        by (simp only: prems(3) option.case prod.case)
          (rule create_rest_total [OF _ _ _ _ err, of _ "n - 1"]; use prems empty fresh(2) in \<open>simp add: row_at_append row_at_Cons\<close>)
    qed
    done
qed

lemma persist_payment_needs:
  "wp (persist_payment ext mid req rec risk corr) (\<lambda>_ _. int4 (pr_amount_minor req) \<and> 0 < pr_amount_minor req) (\<lambda>_ _. True) w"
  unfolding persist_payment_def Let_def fresh_id_def now_def insert_payment_def
  by (auto simp: wp_simps payment_data_ok_def payment_integrity_ok_def payment_checks_def new_payment_def intro!: wp_any)

lemma create_rest_needs:
  assumes same: "new_payment_error mid req (tables w) = err"
  shows "wp (bind_op (query (\<lambda>d. row_at c_id (pr_customer_id req) (customers d))) (\<lambda>customer.
     bind_op (raise_if (not_owned c_merchant_id customer mid)
       (BusinessError ''CUSTOMER_NOT_FOUND'' ''Customer was not found for this merchant.'')) (\<lambda>_.
     bind_op (query (\<lambda>d. row_at m_id mid (merchants d))) (\<lambda>found.
     case found of
       None \<Rightarrow> raise (BusinessError ''MERCHANT_NOT_FOUND'' ''Merchant was not found.'')
     | Some merchant \<Rightarrow>
     bind_op (lift_sum (evaluate_risk (pr_amount_minor req) (currency_value (pr_currency req))
       (m_risk_level merchant) 0 False)) (\<lambda>risk.
     persist_payment ext mid req rec risk corr)))))
    (\<lambda>_ _. err = None) (\<lambda>_ _. True) w"
  unfolding same [symmetric] new_payment_error_def
  by (auto simp: wp_simps not_owned_def split: option.split sum.split intro!: wp_mono [OF persist_payment_needs])

lemma create_no_error:
  "wp (create_payment ext mid req key corr) (\<lambda>_ _. create_error ext mid req key (tables w) = None) (\<lambda>_ _. True) w"
  unfolding create_payment_def Let_def
  apply (simp only: wp_bind wp_catch answered_case)
  apply (rule claim_idempotency_spec)
     subgoal premises prems for r w'
     proof (cases "response_body r \<noteq> None \<and> response_status r \<noteq> None")
       case True
       then show ?thesis using prems by (simp add: wp_ret create_error_def)
     next
       case False
       then have err: "new_payment_error mid req (tables w') = create_error ext mid req key (tables w)"
         using prems by (auto simp: create_error_def)
       show ?thesis by (simp only: False if_False) (rule create_rest_needs [OF err])
     qed
    subgoal premises prems for r w'
    proof -
      have err: "new_payment_error mid req (tables w') = create_error ext mid req key (tables w)"
        using prems new_payment_error_same [of "tables w'" "tables w"] by (simp add: create_error_def)
      show ?thesis by (simp only: prems(4) simp_thms if_False) (rule create_rest_needs [OF err])
    qed
   apply (simp_all add: wp_simps)
  done

lemma create_effect_no_error:
  "wp (create_payment ext mid req key corr)
    (\<lambda>a v. create_done ext mid req key corr (tables w) a (tables v) \<and> create_error ext mid req key (tables w) = None)
    (\<lambda>_ _. True) w"
  using wp_conj [OF create_payment_effect create_no_error] by simp

interpretation create_request: decided_transaction ext "create_payment ext mid req key corr" 9
    "\<lambda>d a d'. create_done ext mid req key corr d a d' \<and> create_error ext mid req key d = None"
    "create_error ext mid req key" for ext mid req key corr
  by unfold_locales ((intro create_effect_no_error create_total; assumption) | simp)+

section \<open>Outcomes\<close>

text \<open>Every database the system can reach is sound.\<close>

lemma reachable_sound: "sound (tables (run ext as initial_world))"
  by (simp add: sound_def run_books_ok run_schema_ok)

lemma shop_sound: "sound shop_db"
proof -
  have "schema_ok shop_db"
    by (simp add: schema_defs rows_ok_def refers_def constraint_defs shop_db_def empty_db_def sample_payment_def
        sample_entry_def sample_endpoint_def merchant_scopes_def enum_value_lengths)
  then show ?thesis using shop_books_ok by (simp add: sound_def shop_world_def)
qed

lemma captured_sound: "sound captured_db"
proof -
  have "schema_ok captured_db"
    by (simp add: schema_defs rows_ok_def refers_def constraint_defs captured_db_def shop_db_def empty_db_def
        sample_payment_def sample_entry_def sample_endpoint_def merchant_scopes_def enum_value_lengths)
  then show ?thesis using captured_books_ok by (simp add: sound_def captured_world_def)
qed

lemma unfunded_sound: "sound (tables unfunded_world)"
proof -
  have "schema_ok (tables unfunded_world)"
    by (simp add: schema_defs rows_ok_def refers_def constraint_defs unfunded_world_def shop_world_def shop_db_def
        empty_db_def sample_endpoint_def merchant_scopes_def)
  then show ?thesis using unfunded_books_ok by (simp add: sound_def)
qed

text \<open>Reading off a predicted outcome.\<close>

lemma decided_cases:
  "(\<And>r w'. atomically m w = (r, w') \<Longrightarrow>
       case r of Inr a \<Rightarrow> D a (tables w') \<and> err = None | Inl e \<Rightarrow> tables w' = d \<and> (ok \<longrightarrow> err = Some e)) \<Longrightarrow> ok \<Longrightarrow>
     (case err of None \<Rightarrow> \<exists>a w'. atomically m w = (Inr a, w') \<and> D a (tables w')
      | Some e \<Rightarrow> \<exists>w'. atomically m w = (Inl e, w') \<and> tables w' = d)"
  by (cases "atomically m w"; cases "fst (atomically m w)") (auto split: option.split)

lemma tables_shop [simp]: "tables shop_world = shop_db" "tables captured_world = captured_db"
  by (simp_all add: shop_world_def captured_world_def)

lemma sample_fresh:
  "fresh_ids sample_ext 17 shop_world" "fresh_ids sample_ext 16 captured_world" "fresh_ids sample_ext 13 unfunded_world"
  by (simp_all add: fresh_ids_def used_ids_def sample_defs captured_world_def captured_db_def unfunded_world_def upt_rec)

text \<open>
  C18: a capture, with every outcome.  When it returns, the payment was authorised and covered; it is
  captured in full now, exactly its amount left the customer's balance, one capture journal was
  posted for it and one event, \<open>payment.captured\<close>, was written to the outbox.  When it raises, no
  table has changed; and unless the environment repeats identifiers, it raises only where the payment
  is unknown to the merchant, not authorised or not covered, with the error for it: a covered
  authorised payment is captured.
\<close>

theorem capture_outcome:
  assumes "sound (tables w)" and "atomically (capture_payment ext mid pid corr) w = (r, w')"
  shows "case r of
      Inr body \<Rightarrow> capture_done ext mid pid corr (tables w) body (tables w') \<and> capture_error pid mid (tables w) = None
    | Inl e \<Rightarrow> tables w' = tables w \<and> (fresh_ids ext 17 w \<longrightarrow> capture_error pid mid (tables w) = Some e)"
  using assms by (rule capture_request.outcome)

lemma capture_outcome_witness:
  "(\<exists>body (w' :: world). atomically (capture_payment sample_ext 1 20 7) shop_world = (Inr body, w') \<and>
      capture_done sample_ext 1 20 7 shop_db body (tables w')) \<and>
   (\<exists>w' :: world. atomically (capture_payment sample_ext 1 99 7) shop_world = (Inl payment_not_found, w') \<and>
      tables w' = shop_db)"
proof -
  have "capture_error 20 1 shop_db = None" "capture_error 99 1 shop_db = Some payment_not_found"
    by (simp_all add: capture_error_def sample_step)
  then show ?thesis
    using decided_cases [OF capture_outcome [of shop_world sample_ext 1 20 7] sample_fresh(1)]
      decided_cases [OF capture_outcome [of shop_world sample_ext 1 99 7] sample_fresh(1)] shop_sound
    by simp
qed

text \<open>
  C19: a refund, with every outcome.  When it returns, the payment was captured and at most the rest
  was refunded; the amounts and the status follow, one refund row and one refund journal were
  written, exactly the amount came back to the customer's balance, and one event was written.  When
  it raises, no table has changed; and unless the environment repeats identifiers, it raises only
  where the payment is unknown to the merchant or not captured, or the amount is not positive or exceeds the rest.
\<close>

theorem refund_outcome:
  assumes "sound (tables w)" and "atomically (refund_payment ext mid pid req corr) w = (r, w')"
  shows "case r of
      Inr body \<Rightarrow> refund_done ext mid pid (rr_amount_minor req) corr (tables w) body (tables w') \<and>
        refund_error pid mid (rr_amount_minor req) (tables w) = None
    | Inl e \<Rightarrow> tables w' = tables w \<and>
        (fresh_ids ext 16 w \<longrightarrow> refund_error pid mid (rr_amount_minor req) (tables w) = Some e)"
  using assms by (rule refund_request.outcome)

lemma refund_outcome_witness:
  "(\<exists>body (w' :: world). atomically (refund_payment sample_ext 1 20 \<lparr>rr_amount_minor = 150\<rparr> 7) captured_world = (Inr body, w') \<and>
      refund_done sample_ext 1 20 150 7 captured_db body (tables w')) \<and>
   (\<exists>w' :: world. atomically (refund_payment sample_ext 1 20 \<lparr>rr_amount_minor = 401\<rparr> 7) captured_world =
      (Inl (BusinessError ''REFUND_EXCEEDS_CAPTURE'' ''Refund amount exceeds captured amount.''), w') \<and>
      tables w' = captured_db)"
proof -
  have "refund_error 20 1 150 captured_db = None" "refund_error 20 1 401 captured_db =
      Some (BusinessError ''REFUND_EXCEEDS_CAPTURE'' ''Refund amount exceeds captured amount.'')"
    by (simp_all add: refund_error_def sample_step captured_db_def)
  then show ?thesis
    using decided_cases [OF refund_outcome [of captured_world sample_ext 1 20 "\<lparr>rr_amount_minor = 150\<rparr>" 7] sample_fresh(2)]
      decided_cases [OF refund_outcome [of captured_world sample_ext 1 20 "\<lparr>rr_amount_minor = 401\<rparr>" 7] sample_fresh(2)]
      captured_sound
    by simp
qed

text \<open>
  C20: an authorisation, with every outcome.  When it commits, the payment was pending: a covered
  one is authorised, an uncovered one has failed although the request is answered with an error; no
  money moved and one event tells.  When it raises, no table has changed; and unless the environment
  repeats identifiers, it raises only where the payment is unknown to the merchant or not pending.
\<close>

theorem authorize_outcome:
  assumes "sound (tables w)" and "atomically (authorize_block ext mid pid corr) w = (r, w')"
  shows "case r of
      Inr a \<Rightarrow> authorize_done ext mid pid corr (tables w) a (tables w') \<and> transition_error AUTHORIZED pid mid (tables w) = None
    | Inl e \<Rightarrow> tables w' = tables w \<and> (fresh_ids ext 6 w \<longrightarrow> transition_error AUTHORIZED pid mid (tables w) = Some e)"
  using assms by (rule authorize_request.outcome)

lemma authorize_outcome_witness:
  "(\<exists>r (w' :: world). atomically (authorize_block sample_ext 1 21 7) shop_world = (Inr r, w') \<and>
      authorize_done sample_ext 1 21 7 shop_db r (tables w')) \<and>
   (\<exists>w' :: world. atomically (authorize_block sample_ext 1 20 7) shop_world =
      (Inl (PaymentTransitionError AUTHORIZED AUTHORIZED), w') \<and> tables w' = shop_db)"
proof -
  have "transition_error AUTHORIZED 21 1 shop_db = None" "transition_error AUTHORIZED 20 1 shop_db =
      Some (PaymentTransitionError AUTHORIZED AUTHORIZED)"
    by (simp_all add: transition_error_def sample_step)
  moreover have "fresh_ids sample_ext 6 shop_world" by (rule fresh_ids_fewer [OF sample_fresh(1)]) simp
  ultimately show ?thesis
    using decided_cases [OF authorize_outcome [of shop_world sample_ext 1 21 7]]
      decided_cases [OF authorize_outcome [of shop_world sample_ext 1 20 7]] shop_sound
    by simp
qed

text \<open>
  C21: the funding of an account, with every outcome.  When it returns, exactly the amount was added
  to the balance of the account's customer, in the account's currency, by one funding journal.  When
  it raises, no table has changed; and unless the environment repeats identifiers, the account is not
  the merchant's, or has another currency, or was funded before, or the amount is not positive or
  too large for the column.
\<close>

theorem fund_outcome:
  assumes "sound (tables w)" and "atomically (fund_account ext mid aid req corr) w = (r, w')"
  shows "case r of
      Inr body \<Rightarrow> fund_done mid aid req (tables w) (tables w') \<and> fund_error mid aid req (tables w) = None
    | Inl e \<Rightarrow> tables w' = tables w \<and> (fresh_ids ext 13 w \<longrightarrow> fund_error mid aid req (tables w) = Some e)"
  using fund_request.outcome [OF assms] by (auto split: sum.splits)

lemma fund_outcome_witness:
  "(\<exists>body (w' :: world). atomically (fund_account sample_ext 1 4 \<lparr>fr_amount_minor = 1000, fr_currency = EUR\<rparr> 7) unfunded_world =
      (Inr body, w') \<and> fund_done 1 4 \<lparr>fr_amount_minor = 1000, fr_currency = EUR\<rparr> (tables unfunded_world) (tables w')) \<and>
   (\<exists>w' :: world. atomically (fund_account sample_ext 1 4 \<lparr>fr_amount_minor = 1000, fr_currency = EUR\<rparr> 7) shop_world =
      (Inl IntegrityError, w') \<and> tables w' = shop_db)"
proof -
  have "fund_error 1 4 \<lparr>fr_amount_minor = 1000, fr_currency = EUR\<rparr> (tables unfunded_world) = None"
    "fund_error 1 4 \<lparr>fr_amount_minor = 1000, fr_currency = EUR\<rparr> shop_db = Some IntegrityError"
    by (simp_all add: fund_error_def sample_step unfunded_world_def)
  moreover have "fresh_ids sample_ext 13 shop_world" by (rule fresh_ids_fewer [OF sample_fresh(1)]) simp
  ultimately show ?thesis
    using decided_cases [OF fund_outcome [of unfunded_world sample_ext 1 4 "\<lparr>fr_amount_minor = 1000, fr_currency = EUR\<rparr>" 7]]
      decided_cases [OF fund_outcome [of shop_world sample_ext 1 4 "\<lparr>fr_amount_minor = 1000, fr_currency = EUR\<rparr>" 7]]
      shop_sound unfunded_sound sample_fresh(3)
    by simp
qed

text \<open>
  C22: the creation of a payment, with every outcome.  When it returns, it answered from the
  idempotency record and changed nothing, or it added one payment of a customer of the merchant,
  under a fresh id, with exactly the requested amount, nothing captured, one event, status 201.  When
  it raises, no table has changed; and unless the environment repeats identifiers, it raises exactly
  what \<open>create_error\<close> says: an oversized key or amount, a key used for another payload, a customer
  or merchant that does not exist, an amount that is not positive.
\<close>

theorem create_outcome:
  assumes "sound (tables w)" and "atomically (create_payment ext mid req key corr) w = (r, w')"
  shows "case r of
      Inr a \<Rightarrow> create_done ext mid req key corr (tables w) a (tables w') \<and> create_error ext mid req key (tables w) = None
    | Inl e \<Rightarrow> tables w' = tables w \<and> (fresh_ids ext 9 w \<longrightarrow> create_error ext mid req key (tables w) = Some e)"
  using create_request.outcome [OF assms] by (auto split: sum.splits)

lemma create_outcome_witness:
  "(\<exists>a (w' :: world). atomically (create_payment sample_ext 1 sample_request ''order-1'' 7) shop_world = (Inr a, w') \<and>
      create_done sample_ext 1 sample_request ''order-1'' 7 shop_db a (tables w')) \<and>
   (\<exists>w' :: world. atomically (create_payment sample_ext 9 sample_request ''order-1'' 7) shop_world =
      (Inl (BusinessError ''CUSTOMER_NOT_FOUND'' ''Customer was not found for this merchant.''), w') \<and> tables w' = shop_db)"
proof -
  have "create_error sample_ext 1 sample_request ''order-1'' shop_db = None"
    "create_error sample_ext 9 sample_request ''order-1'' shop_db =
      Some (BusinessError ''CUSTOMER_NOT_FOUND'' ''Customer was not found for this merchant.'')"
    by (simp_all add: create_error_def new_payment_error_def sample_request_def sample_run Let_def not_owned_def
        sample_risk canonical_fingerprint_def enum_value_simps)
  moreover have "fresh_ids sample_ext 9 shop_world" by (rule fresh_ids_fewer [OF sample_fresh(1)]) simp
  ultimately show ?thesis
    using decided_cases [OF create_outcome [of shop_world sample_ext 1 sample_request "''order-1''" 7]]
      decided_cases [OF create_outcome [of shop_world sample_ext 9 sample_request "''order-1''" 7]] shop_sound
    by simp
qed

end
