(* ===== verification/ReadBack.thy ===== *)
theory ReadBack
  imports Access
begin

text \<open>
  The payment that a merchant created is the payment it reads: the id in the answer to the creation,
  as text in the path of \<open>GET /api/v1/payments\<close>, leads to the same payment, at once and after anything
  else has happened.
\<close>

lemma path_uuid_str: "path_uuid ext (uuid_str u) = Inr u"
  by (simp add: path_uuid_def)

lemma serve_get_payment:
  assumes "caller ext auth (tables w) = Some p" and "''payments:read'' \<in> set (pl_scopes p)"
    and "row_at p_id i (payments (tables w)) = Some q" and "p_merchant_id q = pl_merchant_id p"
  shows "\<exists>v. serve ext None auth (GetPayment (uuid_str i)) w = (Inr (200, payment_response q), v)"
proof -
  obtain corr v where v: "correlation_id_of ext None w = (Inr corr, v)" "tables v = tables w"
    using correlation_id_ok [of None ext w] by (auto simp: correlation_ok_def)
  have "wp (get_payment_route ext corr auth (uuid_str i)) (\<lambda>body _. body = payment_response q) (\<lambda>_ _. False) v"
    unfolding get_payment_route_def path_uuid_str
    using assms by (simp add: wp_simps wp_require_api_key require_scope_def v(2))
  then obtain u where "get_payment_route ext corr auth (uuid_str i) v = (Inr (payment_response q), u)"
    by (auto simp: wp_def split: prod.splits sum.splits)
  then show ?thesis
    using v(1) by (simp add: serve_def bind_op_def catch_op_def with_status_def ret_def)
qed

lemma create_payment_new:
  assumes "create_done ext mid req key corr d (st, body) d'" and "payments d' \<noteq> payments d"
  obtains a where "body = payment_response a" and "a \<in> set (payments d')" and "p_merchant_id a = mid"
  using assms by (auto simp: create_done_def new_payment_def)

text \<open>
  C14: reading back what was written.  After a creation that added a payment, and any further requests
  and worker rounds, the merchant's \<open>GET\<close> with the id of the answer succeeds with that payment: the same
  answer if nothing happened since, and otherwise one with the same id, amount and currency whose
  status has only moved along the legal transitions.
\<close>

theorem created_payment_served:
  assumes "books_ok (tables w)" and "0 < pr_amount_minor req"
    and "atomically (create_payment ext mid req key corr) w = (Inr (st, body), w1)"
    and "payments (tables w1) \<noteq> payments (tables w)"
    and "caller ext auth (tables (run ext as w1)) = Some p" and "pl_merchant_id p = mid"
    and "''payments:read'' \<in> set (pl_scopes p)"
  shows "\<exists>a b v. body = payment_response a \<and> advances a b \<and> (as = [] \<longrightarrow> b = a) \<and>
    serve ext None auth (GetPayment (uuid_str (p_id a))) (run ext as w1) = (Inr (200, payment_response b), v)"
proof -
  have "create_done ext mid req key corr (tables w) (st, body) (tables w1)"
    using atomically_effect [OF create_payment_effect assms(3)] by simp
  then obtain a where a: "body = payment_response a" "a \<in> set (payments (tables w1))" "p_merchant_id a = mid"
    using assms(4) by (rule create_payment_new)
  have "books_ok (tables w1)"
    using atomically_effect [OF create_payment_books [OF _ assms(2)] assms(3)] assms(1) by simp
  then have kept: "on_tables (payments_kept (payments (tables w1))) w1"
    by (simp add: on_tables_def payments_kept_def keeps_payments_refl)
  then have "on_tables (payments_kept (payments (tables w1))) (run ext as w1)"
    unfolding run_def by (rule payments.machine.run_inv)
  then obtain b where b: "b \<in> set (payments (tables (run ext as w1)))" "advances a b"
      "distinct (map p_id (payments (tables (run ext as w1))))"
    using a(2) by (auto simp: on_tables_def payments_kept_def keeps_payments_def list_all_iff list_ex_iff books_distinct)
  have id: "p_id b = p_id a" "p_merchant_id b = p_merchant_id a" using b(2) by (simp_all add: advances_def)
  define c where "c = (if as = [] then a else b)"
  have "row_at p_id (p_id a) (payments (tables (run ext as w1))) = Some c" "p_merchant_id c = pl_merchant_id p"
    using a b(1,3) id assms(6) by (auto simp: c_def row_at_Some_iff run_def)
  from serve_get_payment [OF assms(5,7) this] show ?thesis
    using a(1) b(2) advances_refl [of a] by (auto simp: c_def split: if_splits)
qed

lemma sample_create_world:
  "\<exists>w1. atomically (create_payment sample_ext 1 sample_request ''order-1'' 7) shop_world =
      (Inr (201, payment_response (new_payment 101 1 sample_request PENDING 102 103)), w1) \<and>
     api_keys (tables w1) = api_keys shop_db \<and> length (payments (tables w1)) = 3"
  by (simp add: create_payment_def persist_payment_def sample_request_def sample_run Let_def claim_row_def
      idempotency_row_def not_owned_def enum_value_simps sample_risk canonical_fingerprint_def new_payment_def)

lemma created_payment_served_witness:
  "\<exists>(w1 :: world) v a. payment_response a = payment_response (new_payment 101 1 sample_request PENDING 102 103) \<and>
     serve sample_ext None (Some ''Bearer fg_test_token'') (GetPayment (uuid_str (p_id a))) w1 =
       (Inr (200, payment_response a), v)"
proof -
  obtain w1 where w1: "atomically (create_payment sample_ext 1 sample_request ''order-1'' 7) shop_world =
      (Inr (201, payment_response (new_payment 101 1 sample_request PENDING 102 103)), w1)"
      "api_keys (tables w1) = api_keys shop_db" "length (payments (tables w1)) = 3"
    using sample_create_world by blast
  have "caller sample_ext (Some ''Bearer fg_test_token'') (tables w1) = Some \<lparr>pl_merchant_id = 1, pl_scopes = merchant_scopes\<rparr>"
    by (simp add: caller_def w1(2) shop_db_def hash_secret_def sample_ext_def startswith_def removeprefix_def
        strip_def strip_chars_def is_space_def)
  moreover have "payments (tables w1) \<noteq> payments (tables shop_world)"
    using w1(3) by (auto simp: shop_world_def shop_db_def)
  ultimately obtain a v where
      "payment_response (new_payment 101 1 sample_request PENDING 102 103) = payment_response a"
      "serve sample_ext None (Some ''Bearer fg_test_token'') (GetPayment (uuid_str (p_id a))) w1 =
        (Inr (200, payment_response a), v)"
    using created_payment_served [OF shop_books_ok _ w1(1), where as = "[]" and auth = "Some ''Bearer fg_test_token''"]
    by (auto simp: run_def sample_request_def merchant_scopes_def)
  then show ?thesis by metis
qed

end
