(* ===== verification/Demo.thy ===== *)
theory Demo
  imports Outcomes ReadBack
begin

text \<open>
  \<open>scripts/demo.py\<close>: a client that takes a new merchant through the whole API, from the API key to a
  captured payment and the replay of its creation.  The theorem is about the composition of all parts:
  wherever the system is, such a client succeeds.
\<close>

section \<open>The client\<close>

text \<open>
  \<open>json_ok\<close>: \<open>raise_for_status\<close>, then the body.  An exception of \<open>serve\<close> is an error answer.
\<close>

definition json_ok :: "(int \<times> json) db_op \<Rightarrow> json db_op" where
  "json_ok response =
     bind_op response (\<lambda>(status, body).
     bind_op (raise_if (\<not> (200 \<le> status \<and> status < 300)) (HTTPError ''HTTPStatusError'')) (\<lambda>_.
     ret body))"

definition bearer :: "ext \<Rightarrow> json \<Rightarrow> string" where
  "bearer ext api_key = ''Bearer '' @ json_str ext api_key"

text \<open>
  \<open>main()\<close>, first the part after the funding; \<open>idem\<close> is \<open>uuid4()\<close> of the client.  The result is what
  the script prints, in this order.
\<close>

definition demo_payment :: "ext \<Rightarrow> uuid \<Rightarrow> string option \<Rightarrow> json \<Rightarrow> (string \<times> json) list db_op" where
  "demo_payment ext idem headers customer =
     bind_op (lift_sum (json_get ''customer_id'' customer)) (\<lambda>customer_id.
     let payment_request = CreatePayment (Some (uuid_str idem)) (json_str ext customer_id) 1000 ''PLN'' in
     bind_op (json_ok (serve ext None headers payment_request)) (\<lambda>payment.
     bind_op (lift_sum (json_get ''payment_id'' payment)) (\<lambda>payment_id.
     bind_op (json_ok (serve ext None headers (Authorize (json_str ext payment_id)))) (\<lambda>authorized.
     bind_op (lift_sum (json_get ''payment_id'' payment)) (\<lambda>payment_id'.
     bind_op (json_ok (serve ext None headers (Capture (json_str ext payment_id')))) (\<lambda>captured.
     bind_op (json_ok (serve ext None headers payment_request)) (\<lambda>replay.
     ret [(''payment'', payment), (''authorized'', authorized), (''captured'', captured),
          (''idempotent replay'', replay)])))))))"

definition demo :: "ext \<Rightarrow> uuid \<Rightarrow> (string \<times> json) list db_op" where
  "demo ext idem =
     bind_op (json_ok (serve ext None None (CreateMerchant ''Demo Merchant'' 1))) (\<lambda>merchant.
     bind_op (lift_sum (json_get ''api_key'' merchant)) (\<lambda>api_key.
     let headers = Some (bearer ext api_key) in
     bind_op (json_ok (serve ext None headers (CreateCustomer ''buyer@example.com'' ''PLN''))) (\<lambda>customer.
     bind_op (lift_sum (json_get ''account_id'' customer)) (\<lambda>account_id.
     bind_op (json_ok (serve ext None headers (FundAccount (json_str ext account_id) 10000 ''PLN''))) (\<lambda>funding.
     bind_op (demo_payment ext idem headers customer) (\<lambda>steps.
     ret ([(''merchant'', merchant), (''customer/account'', customer), (''funding journal'', funding)] @ steps)))))))"

section \<open>A request that succeeds\<close>

lemma sound_serve: "sound (tables w) \<Longrightarrow> sound (tables (snd (serve ext raw auth req w)))"
  using keepsD [OF books.keeps_serve, of w] keepsD [OF schema.keeps_serve, of w]
  by (simp add: sound_def on_tables_def)

text \<open>One step of the client: a route that answers, and the world it leaves sound.\<close>

lemma client_step:
  assumes "sound (tables w)" and "fresh_ids ext n w" and "1 \<le> n"
    and "\<And>corr v. sound (tables v) \<Longrightarrow> tables v = tables w \<Longrightarrow> fresh_ids ext (n - 1) v \<Longrightarrow> draws v = Suc (draws w) \<Longrightarrow>
      wp (route ext corr auth req) (\<lambda>(status, body) v. (200 \<le> status \<and> status < 300) \<and> Q body v) (\<lambda>_ _. False) v"
    and "\<And>body v. Q body v \<Longrightarrow> sound (tables v) \<Longrightarrow> Q' body v"
  shows "wp (json_ok (serve ext None auth req)) Q' (\<lambda>_ _. False) w"
proof -
  have "wp (serve ext None auth req) (\<lambda>(status, body) v. (200 \<le> status \<and> status < 300) \<and> Q body v) (\<lambda>_ _. False) w"
    unfolding serve_def correlation_id_of_def option.case fresh_id_def wp_bind wp_draw wp_catch
    by (rule wp_mono [OF assms(4)]) (use assms(1) fresh_ids_skip [OF assms(2,3)] in simp_all)
  moreover have "wp (serve ext None auth req) (\<lambda>_ v. sound (tables v)) (\<lambda>_ _. True) w"
    using sound_serve [OF assms(1), of ext None auth req] by (auto simp: wp_def split: prod.splits sum.splits)
  ultimately have "wp (serve ext None auth req)
      (\<lambda>a v. (case a of (status, body) \<Rightarrow> (200 \<le> status \<and> status < 300) \<and> Q body v) \<and> sound (tables v)) (\<lambda>_ _. False) w"
    by (auto simp: wp_def split: prod.splits sum.splits)
  then show ?thesis
    unfolding json_ok_def wp_bind
    by (rule wp_mono) (auto simp: wp_simps assms(5))
qed

section \<open>A new merchant and a new customer\<close>

text \<open>The key the service makes from the draw \<open>k\<close>.\<close>

definition new_api_key :: "ext \<Rightarrow> nat \<Rightarrow> string" where
  "new_api_key ext k = ''fg_test_'' @ token_urlsafe ext k"

lemma create_merchant_total:
  assumes fresh: "fresh_ids ext n w" "7 \<le> n" and req: "varchar 200 (mc_name req)" "int4 (mc_risk_level req)"
    and digest: "varchar 64 (hash_secret ext (new_api_key ext (draws w)))"
      "hash_secret ext (new_api_key ext (draws w)) \<notin> key_hash ` set (api_keys (tables w))"
    and Q: "\<And>m k v. m_id m \<notin> m_id ` set (merchants (tables w)) \<Longrightarrow> m_risk_level m = mc_risk_level req \<Longrightarrow>
      k_merchant_id k = m_id m \<Longrightarrow> key_hash k = hash_secret ext (new_api_key ext (draws w)) \<Longrightarrow>
      scopes k = merchant_scopes \<Longrightarrow> revoked_at k = None \<Longrightarrow> merchants (tables v) = merchants (tables w) @ [m] \<Longrightarrow>
      api_keys (tables v) = api_keys (tables w) @ [k] \<Longrightarrow> customers (tables v) = customers (tables w) \<Longrightarrow>
      deferred v = deferred w \<Longrightarrow> fresh_ids ext (n - 7) v \<Longrightarrow>
      Q (JObj [(''merchant_id'', JStr (uuid_str (m_id m))), (''api_key'', JStr (new_api_key ext (draws w)))]) v"
  shows "wp (create_merchant ext req corr) Q (\<lambda>_ _. False) w"
proof -
  let ?mid = "uuid4 ext (Suc (draws w))" and ?kid = "uuid4 ext (Suc (Suc (Suc (draws w))))"
  have new: "?mid \<notin> m_id ` set (merchants (tables w))" "?kid \<notin> k_id ` set (api_keys (tables w))"
    using fresh_ids_unused [OF fresh(1), of 1] fresh_ids_unused [OF fresh(1), of 3] fresh(2)
    by (auto simp: used_ids_def numeral_eq_Suc)
  let ?m = "\<lparr>m_id = ?mid, m_name = mc_name req, m_risk_level = mc_risk_level req, m_created_at = utc_now ext (Suc (Suc (draws w)))\<rparr>"
  let ?k = "\<lparr>k_id = ?kid, k_merchant_id = ?mid, key_hash = hash_secret ext (new_api_key ext (draws w)),
      scopes = merchant_scopes, revoked_at = None, k_created_at = utc_now ext (Suc (Suc (Suc (Suc (draws w)))))\<rparr>"
  have start: "fresh_ids ext (n - 5) (w\<lparr>draws := Suc (Suc (Suc (Suc (Suc (draws w))))), tables := (tables w)\<lparr>merchants := merchants (tables w) @ [?m],
      api_keys := api_keys (tables w) @ [?k]\<rparr>\<rparr>)"
    using fresh(2) by (intro fresh_ids_later [OF fresh(1)])
      (auto simp: used_ids_def drawn_ids(1) [where i = 1, simplified] drawn_ids(1) [where i = "Suc (Suc (Suc 0))", simplified])
  have raw: "generate_api_key ext k False = (new_api_key ext k, hash_secret ext (new_api_key ext k))" for k
    by (simp add: generate_api_key_def new_api_key_def Let_def)
  show ?thesis
    unfolding create_merchant_def raw Let_def fresh_id_def now_def insert_merchant_def insert_api_key_def
    using fresh(2)
    apply (simp add: wp_simps merchant_data_ok_def merchant_integrity_ok_def api_key_data_ok_def api_key_integrity_ok_def
        req digest new [simplified])
    apply (rule append_audit_total [OF start [simplified]]; (simp add: varchar_def merchant_ref_def; fail)?)
    apply (simp add: wp_simps)
    apply (rule Q [of ?m ?k, simplified]; simp add: new)
    done
qed

lemma create_customer_total:
  assumes fresh: "fresh_ids ext n w" "6 \<le> n" and ok: "sound (tables w)" and mid: "mid \<in> m_id ` set (merchants (tables w))"
    and email: "varchar 320 (cc_email req)" "(mid, cc_email req) \<notin> (\<lambda>c. (c_merchant_id c, email c)) ` set (customers (tables w))"
    and Q: "\<And>c a v. c_id c \<notin> c_id ` set (customers (tables w)) \<Longrightarrow> c_merchant_id c = mid \<Longrightarrow>
      a_id a \<notin> a_id ` set (accounts (tables w)) \<Longrightarrow> a_id a \<notin> reference_id ` set (journals (tables w)) \<Longrightarrow>
      a_customer_id a = c_id c \<Longrightarrow> a_currency a = currency_value (cc_currency req) \<Longrightarrow>
      merchants (tables v) = merchants (tables w) \<Longrightarrow> api_keys (tables v) = api_keys (tables w) \<Longrightarrow>
      customers (tables v) = customers (tables w) @ [c] \<Longrightarrow> accounts (tables v) = accounts (tables w) @ [a] \<Longrightarrow>
      journals (tables v) = journals (tables w) \<Longrightarrow> ledger_accounts (tables v) = ledger_accounts (tables w) \<Longrightarrow>
      deferred v = deferred w \<Longrightarrow> fresh_ids ext (n - 6) v \<Longrightarrow>
      Q (JObj [(''customer_id'', JStr (uuid_str (c_id c))), (''account_id'', JStr (uuid_str (a_id a)))]) v"
  shows "wp (create_customer ext mid req corr) Q (\<lambda>_ _. False) w"
proof -
  let ?cid = "uuid4 ext (draws w)" and ?aid = "uuid4 ext (Suc (Suc (draws w)))"
  have new: "?cid \<notin> c_id ` set (customers (tables w))" "?aid \<notin> a_id ` set (accounts (tables w))"
    "?aid \<notin> reference_id ` set (journals (tables w))"
    using fresh_ids_unused [OF fresh(1), of 0] fresh_ids_unused [OF fresh(1), of 2] fresh(2)
    by (auto simp: used_ids_def numeral_eq_Suc)
  let ?c = "\<lparr>c_id = ?cid, c_merchant_id = mid, email = cc_email req, c_created_at = utc_now ext (Suc (draws w))\<rparr>"
  let ?a = "\<lparr>a_id = ?aid, a_customer_id = ?cid, a_currency = currency_value (cc_currency req),
      a_created_at = utc_now ext (Suc (Suc (Suc (draws w))))\<rparr>"
  have start: "fresh_ids ext (n - 4) (w\<lparr>draws := Suc (Suc (Suc (Suc (draws w)))), tables := (tables w)\<lparr>
      customers := customers (tables w) @ [?c], accounts := accounts (tables w) @ [?a]\<rparr>\<rparr>)"
    using fresh(2) by (intro fresh_ids_later [OF fresh(1)])
      (auto simp: used_ids_def drawn_ids(1) [where i = "Suc (Suc 0)", simplified])
  show ?thesis
    unfolding create_customer_def fresh_id_def now_def insert_customer_def insert_account_def
    using fresh(2) mid email
    apply (simp add: wp_simps customer_data_ok_def customer_integrity_ok_def account_data_ok_def
        account_integrity_ok_def varchar_def new)
    apply (rule append_audit_total [OF start]; (simp add: varchar_def merchant_ref_def; fail)?)
    apply (simp add: wp_simps)
    apply (rule Q [of ?c ?a, simplified]; simp add: new)
    done
qed

section \<open>A merchant with a customer\<close>

definition who :: "db \<Rightarrow> merchant list \<times> api_key list \<times> customer list" where
  "who d = (merchants d, api_keys d, customers d)"

text \<open>The header names a merchant, the customer is its own, and \<open>n\<close> new identifiers can be drawn.\<close>

definition ready :: "ext \<Rightarrow> string option \<Rightarrow> uuid \<Rightarrow> uuid \<Rightarrow> nat \<Rightarrow> world \<Rightarrow> bool" where
  "ready ext auth mid cid n w \<longleftrightarrow>
     sound (tables w) \<and> fresh_ids ext n w \<and>
     caller ext auth (tables w) = Some \<lparr>pl_merchant_id = mid, pl_scopes = merchant_scopes\<rparr> \<and>
     (\<exists>m. row_at m_id mid (merchants (tables w)) = Some m \<and> 1 \<le> m_risk_level m \<and> m_risk_level m \<le> 5) \<and>
     (\<exists>c. row_at c_id cid (customers (tables w)) = Some c \<and> c_merchant_id c = mid)"

lemma ready_kept:
  "ready ext auth mid cid n w \<Longrightarrow> sound (tables v) \<Longrightarrow> fresh_ids ext k v \<Longrightarrow> who (tables v) = who (tables w) \<Longrightarrow>
     ready ext auth mid cid k v"
  by (auto simp: ready_def who_def caller_def split: option.splits)

lemma ready_step:
  assumes r: "ready ext auth mid cid n w" and "1 \<le> n"
    and route: "\<And>corr v. ready ext auth mid cid (n - 1) v \<Longrightarrow> tables v = tables w \<Longrightarrow>
      wp (route ext corr auth req) (\<lambda>(status, body) v. (200 \<le> status \<and> status < 300) \<and>
        (who (tables v) = who (tables w) \<and> fresh_ids ext k v \<and> Q body (tables v))) (\<lambda>_ _. False) v"
  shows "wp (json_ok (serve ext None auth req)) (\<lambda>body v. ready ext auth mid cid k v \<and> Q body (tables v)) (\<lambda>_ _. False) w"
proof (rule client_step [where n = n])
  show "sound (tables w)" "fresh_ids ext n w" "1 \<le> n" using r assms(2) by (auto simp: ready_def)
  show "wp (route ext corr auth req) (\<lambda>(status, body) v. (200 \<le> status \<and> status < 300) \<and>
      (who (tables v) = who (tables w) \<and> fresh_ids ext k v \<and> Q body (tables v))) (\<lambda>_ _. False) v"
    if "sound (tables v)" "tables v = tables w" "fresh_ids ext (n - 1) v" for corr v
    using route [OF ready_kept [OF r that(1,3)] that(2)] that(2) by simp
qed (use ready_kept [OF r] in blast)

text \<open>The gate in front of every route.\<close>

lemma ready_gate:
  "ready ext auth mid cid n w \<Longrightarrow>
     wp (require_api_key ext corr auth) Q E w = Q \<lparr>pl_merchant_id = mid, pl_scopes = merchant_scopes\<rparr> w"
  by (simp add: ready_def wp_require_api_key)

lemma write_scope: "require_scope \<lparr>pl_merchant_id = mid, pl_scopes = merchant_scopes\<rparr> ''payments:write'' corr = Inr ()"
  by (simp add: require_scope_def merchant_scopes_def)

lemma wp_with_status: "wp (with_status status m) Q E w = wp m (\<lambda>body. Q (status, body)) E w"
  by (auto simp: wp_def with_status_def bind_op_def ret_def split: prod.splits sum.splits)

section \<open>Becoming ready\<close>

lemma strip_api_key:
  assumes "list_all (\<lambda>c. \<not> is_space c) (token_urlsafe ext k)"
  shows "strip (new_api_key ext k) = new_api_key ext k"
proof -
  have "list_all (\<lambda>c. \<not> is_space c) (new_api_key ext k)" using assms by (simp add: new_api_key_def is_space_def)
  then show ?thesis unfolding strip_def by (intro strip_chars_id) (auto simp: list_all_iff)
qed

definition money_tables where
  "money_tables d = (payments d, ledger_accounts d, journals d, journal_entries d, idempotency_records d)"

lemma atomically_quiet:
  assumes "wp m (\<lambda>a v. deferred v = [] \<and> Q a v) (\<lambda>_ _. False) (w\<lparr>deferred := []\<rparr>)"
  shows "wp (atomically m) Q (\<lambda>_ _. False) w"
proof -
  have same: "v\<lparr>deferred := []\<rparr> = v" if "deferred v = []" for v :: world using that by (cases v) simp
  show ?thesis using assms by (auto simp: wp_def same atomically_def split: prod.splits sum.splits)
qed

lemma caller_bearer:
  "strip key = key \<Longrightarrow> caller ext (Some (bearer ext (JStr key))) d =
     map_option (\<lambda>k. \<lparr>pl_merchant_id = k_merchant_id k, pl_scopes = scopes k\<rparr>)
       (find (\<lambda>k. key_hash k = hash_secret ext key \<and> revoked_at k = None) (api_keys d))"
  by (simp add: caller_def bearer_def startswith_def removeprefix_def)

lemma key_unknown: "digest \<notin> key_hash ` set ks \<Longrightarrow> find (\<lambda>k. key_hash k = digest \<and> revoked_at k = None) ks = None"
  by (force simp: find_None_iff)

lemma merchant_step:
  assumes ok: "sound (tables w)" and fresh: "fresh_ids ext n w" "8 \<le> n"
    and name: "1 \<le> length name" "length name \<le> 200" and level: "1 \<le> level" "level \<le> 5"
    and key: "key = new_api_key ext (Suc (draws w))" "strip key = key" "varchar 64 (hash_secret ext key)"
      "hash_secret ext key \<notin> key_hash ` set (api_keys (tables w))"
  shows "wp (json_ok (serve ext None None (CreateMerchant name level)))
    (\<lambda>body v. \<exists>m. body = JObj [(''merchant_id'', JStr (uuid_str (m_id m))), (''api_key'', JStr key)] \<and>
       1 \<le> m_risk_level m \<and> m_risk_level m \<le> 5 \<and> m_id m \<notin> m_id ` set (merchants (tables w)) \<and>
       merchants (tables v) = merchants (tables w) @ [m] \<and> customers (tables v) = customers (tables w) \<and>
       caller ext (Some (bearer ext (JStr key))) (tables v) = Some \<lparr>pl_merchant_id = m_id m, pl_scopes = merchant_scopes\<rparr> \<and>
       money_tables (tables v) = money_tables (tables w) \<and> sound (tables v) \<and> fresh_ids ext (n - 8) v)
    (\<lambda>_ _. False) w"
proof (rule client_step [where n = n, OF ok fresh(1)])
  let ?Q = "\<lambda>body v. \<exists>m. body = JObj [(''merchant_id'', JStr (uuid_str (m_id m))), (''api_key'', JStr key)] \<and>
    1 \<le> m_risk_level m \<and> m_risk_level m \<le> 5 \<and> m_id m \<notin> m_id ` set (merchants (tables w)) \<and>
    merchants (tables v) = merchants (tables w) @ [m] \<and> customers (tables v) = customers (tables w) \<and>
    caller ext (Some (bearer ext (JStr key))) (tables v) = Some \<lparr>pl_merchant_id = m_id m, pl_scopes = merchant_scopes\<rparr> \<and>
    money_tables (tables v) = money_tables (tables w) \<and> fresh_ids ext (n - 8) v"
  let ?Post = "\<lambda>(status :: int, body) v. (200 \<le> status \<and> status < 300) \<and> ?Q body v"
  fix corr and v :: world
  assume v: "sound (tables v)" "tables v = tables w" "fresh_ids ext (n - 1) v" "draws v = Suc (draws w)"
  let ?req = "\<lparr>mc_name = name, mc_risk_level = level\<rparr>"
  have "wp (atomically (create_merchant ext ?req corr)) ?Q (\<lambda>_ _. False) v"
  proof (rule atomically_quiet, rule wp_add_frame [OF frame_create_merchant], rule create_merchant_total [where n = "n - 1"])
  qed (use key v fresh(2) name level in \<open>auto simp: varchar_def int4_def money_tables_def
      caller_bearer find_append key_unknown\<close>)
  then show "wp (route ext corr None (CreateMerchant name level)) ?Post (\<lambda>_ _. False) v"
    using name level by (simp add: wp_with_status create_merchant_route_def wp_simps MerchantCreate_def)
qed (use fresh(2) in auto)

lemma caller_cong: "api_keys d' = api_keys d \<Longrightarrow> caller ext auth d' = caller ext auth d"
  by (auto simp: caller_def split: option.split)

lemma ready_new:
  assumes "sound (tables v)" and "fresh_ids ext n v"
    and "caller ext auth d = Some \<lparr>pl_merchant_id = mid, pl_scopes = merchant_scopes\<rparr>" and "api_keys (tables v) = api_keys d"
    and "merchants (tables v) = merchants d" and "row_at m_id mid (merchants d) = Some m" and "1 \<le> m_risk_level m" and "m_risk_level m \<le> 5"
    and "row_at c_id cid (customers (tables v)) = Some c" and "c_merchant_id c = mid"
  shows "ready ext auth mid cid n v"
  using assms caller_cong [OF assms(4)] by (simp add: ready_def)

lemma customer_step:
  assumes ok: "sound (tables w)" and fresh: "fresh_ids ext n w" "7 \<le> n"
    and who: "caller ext auth (tables w) = Some \<lparr>pl_merchant_id = mid, pl_scopes = merchant_scopes\<rparr>"
    and m: "row_at m_id mid (merchants (tables w)) = Some m" "1 \<le> m_risk_level m" "m_risk_level m \<le> 5"
    and email: "email_str ext address = Some e" "length e \<le> 320"
      "(mid, e) \<notin> (\<lambda>c. (c_merchant_id c, email c)) ` set (customers (tables w))"
    and cur: "cur = currency_value c"
  shows "wp (json_ok (serve ext None auth (CreateCustomer address cur)))
    (\<lambda>body v. \<exists>cid a. body = JObj [(''customer_id'', JStr (uuid_str cid)), (''account_id'', JStr (uuid_str (a_id a)))] \<and>
       row_at a_id (a_id a) (accounts (tables v)) = Some a \<and> a_customer_id a = cid \<and> a_currency a = cur \<and>
       (''account_funding'', a_id a) \<notin> j_reference ` set (journals (tables v)) \<and>
       cid \<notin> c_id ` set (customers (tables w)) \<and>
       money_tables (tables v) = money_tables (tables w) \<and> ready ext auth mid cid (n - 7) v)
    (\<lambda>_ _. False) w"
proof (rule client_step [where n = n, OF ok fresh(1)])
  let ?Q = "\<lambda>body v. \<exists>cid a. body = JObj [(''customer_id'', JStr (uuid_str cid)), (''account_id'', JStr (uuid_str (a_id a)))] \<and>
    row_at a_id (a_id a) (accounts (tables v)) = Some a \<and> a_customer_id a = cid \<and> a_currency a = cur \<and>
    (''account_funding'', a_id a) \<notin> j_reference ` set (journals (tables v)) \<and> cid \<notin> c_id ` set (customers (tables w)) \<and>
    money_tables (tables v) = money_tables (tables w) \<and> fresh_ids ext (n - 7) v \<and>
    merchants (tables v) = merchants (tables w) \<and> api_keys (tables v) = api_keys (tables w) \<and>
    (\<exists>c. row_at c_id cid (customers (tables v)) = Some c \<and> c_merchant_id c = mid)"
  let ?Post = "\<lambda>(status :: int, body) v. (200 \<le> status \<and> status < 300) \<and> ?Q body v"
  fix corr and v :: world
  assume v: "sound (tables v)" "tables v = tables w" "fresh_ids ext (n - 1) v" "draws v = Suc (draws w)"
  let ?req = "\<lparr>cc_email = e, cc_currency = c\<rparr>"
  have "mid \<in> m_id ` set (merchants (tables w))" using row_at_SomeD [OF m(1)] by (auto intro: rev_image_eqI)
  then have "wp (atomically (create_customer ext mid ?req corr)) ?Q (\<lambda>_ _. False) v"
    apply -
    apply (rule atomically_quiet)
    apply (rule wp_add_frame [OF frame_create_customer])
    apply (rule create_customer_total [where n = "n - 1"])
          apply (use v fresh(2) email in \<open>simp_all add: varchar_def\<close>)
    subgoal premises prems for c' a u
      using prems new_row [of a_id a "accounts (tables w)"] new_row [of c_id c' "customers (tables w)"] cur
      by (intro impI exI [of _ "c_id c'"] conjI [OF refl] exI [of _ a]) (auto simp: money_tables_def j_reference_def)
    done
  then show "wp (route ext corr auth (CreateCustomer address cur)) ?Post (\<lambda>_ _. False) v"
    using v(2) who by (simp add: wp_with_status create_customer_route_def wp_simps wp_require_api_key write_scope CustomerCreate_def email cur)
qed (use fresh(2) in simp, elim exE conjE, intro exI conjI,
    (assumption | (rule ready_new [OF _ _ who _ _ m]; assumption))+)

section \<open>The requests of the demonstration\<close>

lemma fund_step:
  assumes r: "ready ext auth mid cid n w" and "14 \<le> n"
    and a: "row_at a_id aid (accounts (tables w)) = Some a" "a_customer_id a = cid" "a_currency a = cur"
    and cur: "cur = currency_value c" and new: "(''account_funding'', aid) \<notin> j_reference ` set (journals (tables w))"
    and amount: "0 < amount" "int4 amount"
  shows "wp (json_ok (serve ext None auth (FundAccount (uuid_str aid) amount cur)))
    (\<lambda>body v. ready ext auth mid cid (n - 14) v \<and> moved cid cur amount (tables w) (tables v) \<and>
       (payments (tables v), idempotency_records (tables v)) = (payments (tables w), idempotency_records (tables w)))
    (\<lambda>_ _. False) w"
proof (rule ready_step [OF r])
  fix corr v
  assume v: "ready ext auth mid cid (n - 1) v" "tables v = tables w"
  let ?req = "\<lparr>fr_amount_minor = amount, fr_currency = c\<rparr>"
  have none: "fund_error mid aid ?req (tables v) = None"
    using a new amount v(1) cur by (auto simp: fund_error_def v(2) ready_def)
  let ?kept = "\<lambda>d. (who d, payments d, idempotency_records d)"
  have "wp (atomically (fund_account ext mid aid ?req corr)) (\<lambda>body v. who (tables v) = who (tables w) \<and>
      fresh_ids ext (n - 14) v \<and> moved cid cur amount (tables w) (tables v) \<and>
      (payments (tables v), idempotency_records (tables v)) = (payments (tables w), idempotency_records (tables w))) (\<lambda>_ _. False) v"
  proof (rule fund_request.runs [where k = "n - 1" and P = "\<lambda>_ d. ?kept d = ?kept (tables w)", OF _ _ _ none])
    show "wp (fund_account ext mid aid ?req corr) (\<lambda>_ v. ?kept (tables v) = ?kept (tables w)) (\<lambda>_ _. True) u"
      if "tables u = tables v" for u
      by (rule wp_frames [OF frame_fund_account]) (auto simp: that v(2) who_def)
  qed (use v assms(2) a in \<open>auto simp: ready_def fund_done_def\<close>)
  then show "wp (route ext corr auth (FundAccount (uuid_str aid) amount cur)) (\<lambda>(status, body) v. (200 \<le> status \<and> status < 300) \<and>
      who (tables v) = who (tables w) \<and> fresh_ids ext (n - 14) v \<and> moved cid cur amount (tables w) (tables v) \<and>
      (payments (tables v), idempotency_records (tables v)) = (payments (tables w), idempotency_records (tables w))) (\<lambda>_ _. False) v"
    by (simp add: wp_with_status fund_account_route_def wp_simps ready_gate [OF v(1)] write_scope path_uuid_str FundAccountRequest_def cur amount)
qed (use assms(2) in simp)

lemma create_step:
  assumes r: "ready ext auth mid cid n w" and "10 \<le> n"
    and req: "req = \<lparr>pr_customer_id = cid, pr_amount_minor = amount, pr_currency = c\<rparr>" "cur = currency_value c"
    and amount: "0 < amount" "int4 amount" and key: "varchar 100 key" "(key, mid) \<notin> i_pk ` set (idempotency_records (tables w))"
    and digest: "varchar 64 (canonical_fingerprint ext (payment_request_dump req))"
  shows "wp (json_ok (serve ext None auth (CreatePayment (Some key) (uuid_str cid) amount cur)))
    (\<lambda>body v. ready ext auth mid cid (n - 10) v \<and> (moved cid cur 0 (tables w) (tables v) \<and>
       stored_answer ext mid req key (201, body) (tables v) \<and>
       (\<exists>i t t'. i \<notin> p_id ` set (payments (tables w)) \<and> body = payment_response (new_payment i mid req PENDING t t') \<and>
          payments (tables v) = payments (tables w) @ [new_payment i mid req PENDING t t'])))
    (\<lambda>_ _. False) w"
proof (rule ready_step [OF r])
  fix corr v
  assume v: "ready ext auth mid cid (n - 1) v" "tables v = tables w"
  let ?Q = "\<lambda>body v. moved cid cur 0 (tables w) (tables v) \<and> stored_answer ext mid req key (201, body) (tables v) \<and>
    (\<exists>i t t'. i \<notin> p_id ` set (payments (tables w)) \<and> body = payment_response (new_payment i mid req PENDING t t') \<and>
       payments (tables v) = payments (tables w) @ [new_payment i mid req PENDING t t'])"
  let ?Post = "\<lambda>(status :: int, body) v. (200 \<le> status \<and> status < 300) \<and>
    (who (tables v) = who (tables w) \<and> fresh_ids ext (n - 10) v \<and> ?Q body v)"
  let ?kept = "\<lambda>d. (who d, ledger_accounts d, journal_entries d)"
  have absent: "row_at i_pk (key, mid) (idempotency_records (tables w)) = None" using key(2) by (simp add: row_at_None_iff)
  obtain m where m: "row_at m_id mid (merchants (tables w)) = Some m" "1 \<le> m_risk_level m" "m_risk_level m \<le> 5"
    using r by (auto simp: ready_def)
  have known: "known_currency cur" by (cases c) (simp_all add: req(2) known_currency_def enum_value_simps)
  obtain risk where risk: "evaluate_risk amount cur (m_risk_level m) 0 False = Inr risk" "decision risk \<le> REVIEW"
    using evaluate_risk_payment [OF m(2,3) known, of amount] by blast
  have none: "create_error ext mid req key (tables v) = None"
    using absent key(1) digest r amount m(1) risk(1) by (auto simp: create_error_def new_payment_error_def v(2) ready_def Let_def req)
  have pending: "st = PENDING" if "assessed mid req (tables w) risk' st" for risk' st
    using that m(1) risk by (auto simp: assessed_def req less_eq_risk_decision_def)
  have "wp (atomically (create_payment ext mid req key corr)) ?Post (\<lambda>_ _. False) v"
  proof (rule create_request.runs [where k = "n - 1" and P = "\<lambda>a d. stored_answer ext mid req key a d \<and> ?kept d = ?kept (tables w)", OF _ _ _ none])
    show "wp (create_payment ext mid req key corr)
        (\<lambda>a v. stored_answer ext mid req key a (tables v) \<and> ?kept (tables v) = ?kept (tables w)) (\<lambda>_ _. True) u"
      if "tables u = tables v" for u
      by (rule wp_with_frame [OF create_payment_stores frame_create_payment]) (auto simp: that v(2) who_def)
    show "?Post a u"
      if a: "create_done ext mid req key corr (tables v) a (tables u) \<and> create_error ext mid req key (tables v) = None"
        "stored_answer ext mid req key a (tables u) \<and> ?kept (tables u) = ?kept (tables w)" "fresh_ids ext (n - 1 - 9) u" for a u
    proof -
      have "\<not> stored_answer ext mid req key a (tables w)" by (simp add: stored_answer_def absent)
      then obtain i t t' where i: "fst a = 201" "i \<notin> p_id ` set (payments (tables w))"
          "payments (tables u) = payments (tables w) @ [new_payment i mid req PENDING t t']"
          "snd a = payment_response (new_payment i mid req PENDING t t')"
        using a(1) pending unfolding create_done_def v(2) by metis
      have "moved cid cur 0 (tables w) (tables u)"
        using available_balance_cong [of "tables u" "tables w"] a(2) by (simp add: moved_def)
      then show ?thesis using i a(2,3) by (cases a) auto
    qed
  qed (use v assms(2) in \<open>auto simp: ready_def\<close>)
  then show "wp (route ext corr auth (CreatePayment (Some key) (uuid_str cid) amount cur)) ?Post (\<lambda>_ _. False) v"
    by (simp add: create_payment_route_def wp_simps ready_gate [OF v(1)] write_scope required_header_def PaymentCreate_def req amount)
qed (use assms(2) in simp)

lemma authorize_step:
  assumes r: "ready ext auth mid cid n w" and "7 \<le> n"
    and p: "payment_for_update pid mid (tables w) = Some p" "p_status p = status_value PENDING" "p_customer_id p = cid" "p_currency p = cur"
    and covered: "p_amount_minor p \<le> available_balance (tables w) cid cur"
  shows "wp (json_ok (serve ext None auth (Authorize (uuid_str pid))))
    (\<lambda>body v. ready ext auth mid cid (n - 7) v \<and> (moved cid cur 0 (tables w) (tables v) \<and>
       idempotency_records (tables v) = idempotency_records (tables w) \<and>
       (\<exists>t. body = payment_response (with_payment_status AUTHORIZED (Some t) p) \<and>
          payments (tables v) = put_payment (with_payment_status AUTHORIZED (Some t) p) (payments (tables w)))))
    (\<lambda>_ _. False) w"
proof (rule ready_step [OF r])
  fix corr v
  assume v: "ready ext auth mid cid (n - 1) v" "tables v = tables w"
  let ?Q = "\<lambda>body v. moved cid cur 0 (tables w) (tables v) \<and> idempotency_records (tables v) = idempotency_records (tables w) \<and>
    (\<exists>t. body = payment_response (with_payment_status AUTHORIZED (Some t) p) \<and>
       payments (tables v) = put_payment (with_payment_status AUTHORIZED (Some t) p) (payments (tables w)))"
  let ?kept = "\<lambda>d. (who d, idempotency_records d)"
  have move: "check_transition p AUTHORIZED = Inr AUTHORIZED" unfolding check_transition_Inr by (simp add: exI [of _ PENDING] p)
  have none: "transition_error AUTHORIZED pid mid (tables v) = None"
    by (simp add: transition_error_def v(2) p move)
  have "wp (atomically (authorize_block ext mid pid corr)) (\<lambda>a v. \<exists>body. a = Inr body \<and>
      who (tables v) = who (tables w) \<and> fresh_ids ext (n - 7) v \<and> ?Q body v) (\<lambda>_ _. False) v"
  proof (rule authorize_request.runs [where k = "n - 1" and P = "\<lambda>_ d. ?kept d = ?kept (tables w)", OF _ _ _ none])
    show "wp (authorize_block ext mid pid corr) (\<lambda>_ v. ?kept (tables v) = ?kept (tables w)) (\<lambda>_ _. True) u"
      if "tables u = tables v" for u
      by (rule wp_frames [OF frame_authorize_block]) (auto simp: that v(2) who_def)
  qed (use v assms(2) p covered in \<open>auto simp: ready_def authorize_done_def\<close>)
  then show "wp (route ext corr auth (Authorize (uuid_str pid))) (\<lambda>(status, body) v. (200 \<le> status \<and> status < 300) \<and>
      who (tables v) = who (tables w) \<and> fresh_ids ext (n - 7) v \<and> ?Q body v) (\<lambda>_ _. False) v"
    by (simp add: wp_with_status authorize_route_def wp_simps ready_gate [OF v(1)] write_scope path_uuid_str)
      (erule wp_mono; auto simp: persisted_answer_def wp_lift_sum)
qed (use assms(2) in simp)

lemma capture_step:
  assumes r: "ready ext auth mid cid n w" and "18 \<le> n"
    and p: "payment_for_update pid mid (tables w) = Some p" "p_status p = status_value AUTHORIZED" "p_customer_id p = cid" "p_currency p = cur"
    and covered: "p_amount_minor p \<le> available_balance (tables w) cid cur"
  shows "wp (json_ok (serve ext None auth (Capture (uuid_str pid))))
    (\<lambda>body v. ready ext auth mid cid (n - 18) v \<and> (moved cid cur (- p_amount_minor p) (tables w) (tables v) \<and>
       idempotency_records (tables v) = idempotency_records (tables w) \<and>
       (\<exists>t. body = payment_response (captured p t) \<and> payments (tables v) = put_payment (captured p t) (payments (tables w)))))
    (\<lambda>_ _. False) w"
proof (rule ready_step [OF r])
  fix corr v
  assume v: "ready ext auth mid cid (n - 1) v" "tables v = tables w"
  let ?Q = "\<lambda>body v. moved cid cur (- p_amount_minor p) (tables w) (tables v) \<and>
    idempotency_records (tables v) = idempotency_records (tables w) \<and>
    (\<exists>t. body = payment_response (captured p t) \<and> payments (tables v) = put_payment (captured p t) (payments (tables w)))"
  let ?kept = "\<lambda>d. (who d, idempotency_records d)"
  have move: "check_transition p CAPTURED = Inr CAPTURED" unfolding check_transition_Inr by (simp add: exI [of _ AUTHORIZED] p)
  have none: "capture_error pid mid (tables v) = None"
    using covered by (simp add: capture_error_def v(2) p move)
  have "wp (atomically (capture_payment ext mid pid corr)) (\<lambda>body v.
      who (tables v) = who (tables w) \<and> fresh_ids ext (n - 18) v \<and> ?Q body v) (\<lambda>_ _. False) v"
  proof (rule capture_request.runs [where k = "n - 1" and P = "\<lambda>_ d. ?kept d = ?kept (tables w)", OF _ _ _ none])
    show "wp (capture_payment ext mid pid corr) (\<lambda>_ v. ?kept (tables v) = ?kept (tables w)) (\<lambda>_ _. True) u"
      if "tables u = tables v" for u
      by (rule wp_frames [OF frame_capture_payment]) (auto simp: that v(2) who_def)
  qed (use v assms(2) p in \<open>auto simp: ready_def capture_done_def\<close>)
  then show "wp (route ext corr auth (Capture (uuid_str pid))) (\<lambda>(status, body) v. (200 \<le> status \<and> status < 300) \<and>
      who (tables v) = who (tables w) \<and> fresh_ids ext (n - 18) v \<and> ?Q body v) (\<lambda>_ _. False) v"
    by (simp add: wp_with_status capture_route_def wp_simps ready_gate [OF v(1)] write_scope path_uuid_str)
qed (use assms(2) in simp)

lemma replay_step:
  assumes r: "ready ext auth mid cid n w" and "1 \<le> n"
    and req: "req = \<lparr>pr_customer_id = cid, pr_amount_minor = amount, pr_currency = c\<rparr>" "cur = currency_value c" "0 < amount"
    and stored: "stored_answer ext mid req key (201, first) (tables w)"
  shows "wp (json_ok (serve ext None auth (CreatePayment (Some key) (uuid_str cid) amount cur)))
    (\<lambda>body v. body = first \<and> tables v = tables w) (\<lambda>_ _. False) w"
proof (rule client_step [where n = n])
  fix corr and v :: world
  assume v: "sound (tables v)" "tables v = tables w" "fresh_ids ext (n - 1) v"
  then have gate: "ready ext auth mid cid (n - 1) v" using ready_kept [OF r, of v] by simp
  have "stored_answer ext mid req key (201, first) (tables (v\<lparr>deferred := []\<rparr>))" using stored v(2) by simp
  from create_payment_again [OF this refl, of corr]
  obtain u where "atomically (create_payment ext mid req key corr) v = (Inr (201, first), u)" "tables u = tables w"
    using atomically_no_triggers [of "create_payment ext mid req key corr" "(201, first)" "tables w" v] v(2) by auto
  then show "wp (route ext corr auth (CreatePayment (Some key) (uuid_str cid) amount cur))
      (\<lambda>(status, body) v. (200 \<le> status \<and> status < 300) \<and> (body = first \<and> tables v = tables w)) (\<lambda>_ _. False) v"
    by (simp add: create_payment_route_def wp_simps ready_gate [OF gate] write_scope required_header_def PaymentCreate_def req) (simp add: wp_def)
qed (use r assms(2) in \<open>auto simp: ready_def\<close>)

section \<open>The whole demonstration\<close>

lemma moved_trans: "moved ow c a d d' \<Longrightarrow> moved ow c b d' d'' \<Longrightarrow> moved ow c (a + b) d d''"
  by (simp add: moved_def)

lemma moved_money: "money_tables d' = money_tables d \<Longrightarrow> moved ow c 0 d d'"
  using available_balance_cong [of d' d] by (simp add: moved_def money_tables_def)

lemma find_payment:
  assumes "i \<notin> p_id ` set ps" and "p_id p = i" and "p_merchant_id p = mid" and "payments d = ps @ [p]"
  shows "payment_for_update i mid d = Some p"
proof -
  have "find (\<lambda>p. p_id p = i \<and> p_merchant_id p = mid) ps = None" using assms(1) by (auto simp: find_None_iff)
  then show ?thesis using assms by (simp add: payment_for_update_def find_append)
qed

lemma put_last: "p_id p \<notin> p_id ` set ps \<Longrightarrow> p_id q = p_id p \<Longrightarrow> put_payment q (ps @ [p]) = ps @ [q]"
  by (induction ps) (auto simp: put_payment_def)

lemma payment_id_of: "json_get ''payment_id'' (payment_response p) = Inr (JStr (uuid_str (p_id p)))"
  by (simp add: payment_response_def json_get_def)

text \<open>The steps from the new payment on.\<close>

lemma demo_from_payment:
  assumes r: "ready ext headers mid cid n w" and "26 \<le> n" and p: "p = new_payment i mid req PENDING t t'"
    and req: "req = \<lparr>pr_customer_id = cid, pr_amount_minor = 1000, pr_currency = PLN\<rparr>"
    and new: "i \<notin> p_id ` set ps" "payments (tables w) = ps @ [p]" and covered: "1000 \<le> available_balance (tables w) cid ''PLN''"
    and stored: "stored_answer ext mid req key (201, payment_response p) (tables w)"
    and R: "\<And>t u v. payments (tables v) = ps @ [captured (with_payment_status AUTHORIZED (Some t) p) u] \<Longrightarrow>
      moved cid ''PLN'' (- 1000) (tables w) (tables v) \<Longrightarrow>
      R [(''payment'', payment_response p), (''authorized'', payment_response (with_payment_status AUTHORIZED (Some t) p)),
         (''captured'', payment_response (captured (with_payment_status AUTHORIZED (Some t) p) u)),
         (''idempotent replay'', payment_response p)] v"
  shows "wp (bind_op (json_ok (serve ext None headers (Authorize (uuid_str (p_id p))))) (\<lambda>authorized.
     bind_op (json_ok (serve ext None headers (Capture (uuid_str (p_id p))))) (\<lambda>captured.
     bind_op (json_ok (serve ext None headers (CreatePayment (Some key) (uuid_str cid) 1000 ''PLN''))) (\<lambda>replay.
     ret [(''payment'', payment_response p), (''authorized'', authorized), (''captured'', captured),
          (''idempotent replay'', replay)])))) R (\<lambda>_ _. False) w"
proof -
  have p_simps: "p_id p = i" "p_merchant_id p = mid" "p_customer_id p = cid" "p_amount_minor p = 1000" "p_currency p = ''PLN''"
    "p_status p = status_value PENDING" by (simp_all add: p new_payment_def req enum_value_simps)
  let ?q = "\<lambda>t. with_payment_status AUTHORIZED (Some t) p"
  have q_simps: "p_id (?q t) = i" "p_merchant_id (?q t) = mid" "p_customer_id (?q t) = cid" "p_amount_minor (?q t) = 1000"
    "p_currency (?q t) = ''PLN''" "p_status (?q t) = status_value AUTHORIZED" for t
    by (simp_all add: with_payment_status_def p_simps)
  have put: "put_payment (?q t) (ps @ [p]) = ps @ [?q t]" "put_payment (captured (?q t) u) (ps @ [?q t]) = ps @ [captured (?q t) u]" for t u
    using new(1) by (simp_all add: put_last q_simps p_simps captured_def)
  show ?thesis unfolding p_simps
  proof (rule wp_seq [OF authorize_step [OF r _ find_payment [OF new(1) p_simps(1,2) new(2)] p_simps(6,3,5)]])
    fix authorized and v :: world
    assume v: "ready ext headers mid cid (n - 7) v \<and> moved cid ''PLN'' 0 (tables w) (tables v) \<and>
      idempotency_records (tables v) = idempotency_records (tables w) \<and>
      (\<exists>t. authorized = payment_response (?q t) \<and> payments (tables v) = put_payment (?q t) (payments (tables w)))"
    then obtain t where t: "authorized = payment_response (?q t)" "payments (tables v) = ps @ [?q t]" by (auto simp: new(2) put)
    have bal: "1000 \<le> available_balance (tables v) cid ''PLN''" using v covered by (simp add: moved_def)
    show "wp (bind_op (json_ok (serve ext None headers (Capture (uuid_str i)))) (\<lambda>captured.
       bind_op (json_ok (serve ext None headers (CreatePayment (Some key) (uuid_str cid) 1000 ''PLN''))) (\<lambda>replay.
       ret [(''payment'', payment_response p), (''authorized'', authorized), (''captured'', captured),
            (''idempotent replay'', replay)]))) R (\<lambda>_ _. False) v"
    proof (rule wp_seq [OF capture_step [OF conjunct1 [OF v] _ find_payment [OF new(1) q_simps(1,2) t(2)] q_simps(6,3,5)]])
      fix c and u :: world
      assume u: "ready ext headers mid cid (n - 7 - 18) u \<and> moved cid ''PLN'' (- p_amount_minor (?q t)) (tables v) (tables u) \<and>
        idempotency_records (tables u) = idempotency_records (tables v) \<and>
        (\<exists>t'. c = payment_response (captured (?q t) t') \<and> payments (tables u) = put_payment (captured (?q t) t') (payments (tables v)))"
      then obtain t' where t': "c = payment_response (captured (?q t) t')" "payments (tables u) = ps @ [captured (?q t) t']"
        by (auto simp: t(2) put)
      have moved: "moved cid ''PLN'' (- 1000) (tables w) (tables u)" using u v moved_trans [of cid "''PLN''" 0] by (auto simp: q_simps)
      have again: "stored_answer ext mid req key (201, payment_response p) (tables u)" using stored u v by (simp add: stored_answer_def)
      show "wp (bind_op (json_ok (serve ext None headers (CreatePayment (Some key) (uuid_str cid) 1000 ''PLN''))) (\<lambda>replay.
         ret [(''payment'', payment_response p), (''authorized'', authorized), (''captured'', c), (''idempotent replay'', replay)]))
         R (\<lambda>_ _. False) u"
        by (rule wp_seq [OF replay_step [OF conjunct1 [OF u] _ req _ _ again]])
          (use assms(2) R [of _ t t'] t' moved in \<open>auto simp: enum_value_simps t(1) wp_ret\<close>)
    qed (use assms(2) bal in \<open>simp_all add: q_simps\<close>)
  qed (use assms(2) covered in \<open>simp_all add: p_simps\<close>)
qed

lemma demo_payment_completes:
  assumes r: "ready ext headers mid cid n w" and "36 \<le> n" and customer: "json_get ''customer_id'' customer = Inr (JStr (uuid_str cid))"
    and covered: "1000 \<le> available_balance (tables w) cid ''PLN''"
    and key: "(uuid_str idem, mid) \<notin> i_pk ` set (idempotency_records (tables w))" and digest: "\<And>s. length (sha256_hex ext s) \<le> 64"
    and R: "\<And>p q t u v. p_status p = status_value PENDING \<Longrightarrow> p_customer_id p = cid \<Longrightarrow> p_amount_minor p = 1000 \<Longrightarrow>
      p_currency p = ''PLN'' \<Longrightarrow> q = with_payment_status AUTHORIZED (Some t) p \<Longrightarrow>
      payments (tables v) = payments (tables w) @ [captured q u] \<Longrightarrow> moved cid ''PLN'' (- 1000) (tables w) (tables v) \<Longrightarrow>
      R [(''payment'', payment_response p), (''authorized'', payment_response q),
         (''captured'', payment_response (captured q u)), (''idempotent replay'', payment_response p)] v"
  shows "wp (demo_payment ext idem headers customer) R (\<lambda>_ _. False) w"
proof -
  let ?req = "\<lparr>pr_customer_id = cid, pr_amount_minor = 1000, pr_currency = PLN\<rparr>" and ?key = "uuid_str idem"
  have pln: "''PLN'' = currency_value PLN" by (simp add: enum_value_simps)
  note head = bind_found json_str.simps payment_id_of
  have step: "wp (json_ok (serve ext None headers (CreatePayment (Some ?key) (uuid_str cid) 1000 ''PLN'')))
    (\<lambda>body v. \<exists>i t t'. ready ext headers mid cid (n - 10) v \<and> moved cid ''PLN'' 0 (tables w) (tables v) \<and>
       i \<notin> p_id ` set (payments (tables w)) \<and> body = payment_response (new_payment i mid ?req PENDING t t') \<and>
       stored_answer ext mid ?req ?key (201, body) (tables v) \<and>
       payments (tables v) = payments (tables w) @ [new_payment i mid ?req PENDING t t']) (\<lambda>_ _. False) w"
    by (rule wp_mono [OF create_step [OF r _ refl pln]])
      (use assms(2) key digest in \<open>auto simp: int4_def varchar_def canonical_fingerprint_def\<close>)
  show ?thesis
    unfolding demo_payment_def Let_def customer head
  proof (rule wp_seq [OF step], elim exE conjE)
    fix payment i t t' and v :: world
    let ?p = "new_payment i mid ?req PENDING t t'"
    assume v: "ready ext headers mid cid (n - 10) v" "moved cid ''PLN'' 0 (tables w) (tables v)" "i \<notin> p_id ` set (payments (tables w))"
      "payment = payment_response ?p" "stored_answer ext mid ?req ?key (201, payment) (tables v)" "payments (tables v) = payments (tables w) @ [?p]"
    have bal: "1000 \<le> available_balance (tables v) cid ''PLN''" using v(2) covered by (simp add: moved_def)
    show "wp (bind_op (lift_sum (json_get ''payment_id'' payment)) (\<lambda>payment_id.
       bind_op (json_ok (serve ext None headers (Authorize (json_str ext payment_id)))) (\<lambda>authorized.
       bind_op (lift_sum (json_get ''payment_id'' payment)) (\<lambda>payment_id'.
       bind_op (json_ok (serve ext None headers (Capture (json_str ext payment_id')))) (\<lambda>captured.
       bind_op (json_ok (serve ext None headers (CreatePayment (Some ?key) (uuid_str cid) 1000 ''PLN''))) (\<lambda>replay.
       ret [(''payment'', payment), (''authorized'', authorized), (''captured'', captured), (''idempotent replay'', replay)]))))))
       R (\<lambda>_ _. False) v"
      unfolding v(4) head
    proof (rule demo_from_payment [OF v(1) _ refl refl v(3,6) bal v(5) [unfolded v(4)]])
      fix t u and va :: world
      let ?q = "with_payment_status AUTHORIZED (Some t) ?p"
      assume a: "payments (tables va) = payments (tables w) @ [captured ?q u]" "moved cid ''PLN'' (- 1000) (tables v) (tables va)"
      have "moved cid ''PLN'' (- 1000) (tables w) (tables va)" using moved_trans [OF v(2) a(2)] by simp
      then show "R [(''payment'', payment_response ?p), (''authorized'', payment_response ?q),
          (''captured'', payment_response (captured ?q u)), (''idempotent replay'', payment_response ?p)] va"
        by (intro R [OF _ _ _ _ refl a(1)]) (simp_all add: new_payment_def enum_value_simps)
    qed (use assms(2) in simp)
  qed
qed

text \<open>The steps from the new account on.\<close>

lemma demo_from_account:
  assumes r: "ready ext headers mid cid n w" and "50 \<le> n"
    and customer: "customer = JObj [(''customer_id'', JStr (uuid_str cid)), (''account_id'', JStr (uuid_str aid))]"
    and a: "row_at a_id aid (accounts (tables w)) = Some a" "a_customer_id a = cid" "a_currency a = ''PLN''"
      "(''account_funding'', aid) \<notin> j_reference ` set (journals (tables w))"
    and key: "uuid_str idem \<notin> i_key ` set (idempotency_records (tables w))" and digest: "\<And>s. length (sha256_hex ext s) \<le> 64"
    and R: "\<And>funding p q r v. p_status p = ''PENDING'' \<Longrightarrow> p_status q = ''AUTHORIZED'' \<Longrightarrow> p_status r = ''CAPTURED'' \<Longrightarrow>
      captured_amount_minor r = 1000 \<Longrightarrow> payments (tables v) = payments (tables w) @ [r] \<Longrightarrow>
      moved cid ''PLN'' 9000 (tables w) (tables v) \<Longrightarrow>
      R (front @ [(''funding journal'', funding), (''payment'', payment_response p), (''authorized'', payment_response q),
           (''captured'', payment_response r), (''idempotent replay'', payment_response p)]) v"
  shows "wp (bind_op (json_ok (serve ext None headers (FundAccount (uuid_str aid) 10000 ''PLN''))) (\<lambda>funding.
     bind_op (demo_payment ext idem headers customer) (\<lambda>steps.
     ret (front @ [(''funding journal'', funding)] @ steps)))) R (\<lambda>_ _. False) w"
proof -
  have pln: "''PLN'' = currency_value PLN" by (simp add: enum_value_simps)
  show ?thesis
  proof (rule wp_seq [OF fund_step [OF r _ a(1-3) pln a(4)]])
    fix funding and v :: world
    assume v: "ready ext headers mid cid (n - 14) v \<and> moved cid ''PLN'' 10000 (tables w) (tables v) \<and>
      (payments (tables v), idempotency_records (tables v)) = (payments (tables w), idempotency_records (tables w))"
    have "0 \<le> available_balance (tables w) cid ''PLN''" using r by (auto simp: ready_def sound_def books_ok_def cash_nonnegative_def)
    then have covered: "1000 \<le> available_balance (tables v) cid ''PLN''" using v by (simp add: moved_def)
    have unused: "(uuid_str idem, mid) \<notin> i_pk ` set (idempotency_records (tables v))" using key v by (auto simp: i_pk_def)
    have id: "json_get ''customer_id'' customer = Inr (JStr (uuid_str cid))" by (simp add: customer json_get_def)
    show "wp (bind_op (demo_payment ext idem headers customer) (\<lambda>steps.
       ret (front @ [(''funding journal'', funding)] @ steps))) R (\<lambda>_ _. False) v"
      unfolding wp_bind
    proof (rule demo_payment_completes [OF conjunct1 [OF v] _ id covered unused digest])
      fix p q t u and z :: world
      assume z: "p_status p = status_value PENDING" "p_amount_minor p = 1000" "q = with_payment_status AUTHORIZED (Some t) p"
        "payments (tables z) = payments (tables v) @ [captured q u]" "moved cid ''PLN'' (- 1000) (tables v) (tables z)"
      have "moved cid ''PLN'' 9000 (tables w) (tables z)" using v z(5) moved_trans [of cid "''PLN''" 10000 _ _ "- 1000"] by fastforce
      with z v show "wp (ret (front @ [(''funding journal'', funding)] @ [(''payment'', payment_response p),
          (''authorized'', payment_response q), (''captured'', payment_response (captured q u)), (''idempotent replay'', payment_response p)]))
          R (\<lambda>_ _. False) z"
        by (auto simp: wp_ret with_payment_status_def captured_def enum_value_simps intro: R)
    qed (use assms(2) in simp)
  qed (use assms(2) in \<open>simp_all add: int4_def\<close>)
qed

lemma owned_rows: "sound d \<Longrightarrow> c \<in> set (customers d) \<Longrightarrow> c_merchant_id c \<in> m_id ` set (merchants d)"
proof -
  assume "sound d"
  then have "refers c_merchant_id (customers d) m_id (merchants d)" by (simp add: sound_def schema_ok_def references_exist_def)
  then show "c \<in> set (customers d) \<Longrightarrow> ?thesis" by (auto simp: refers_def)
qed

text \<open>
  What the demonstration prints and leaves behind: the answers to its requests, one more payment,
  captured in full, and 90 of the 100 zloty in the balance of the customer.
\<close>

definition demo_done :: "string \<Rightarrow> db \<Rightarrow> (string \<times> json) list \<Rightarrow> db \<Rightarrow> bool" where
  "demo_done key d steps d' \<longleftrightarrow>
     (\<exists>mid cid aid funding p q r.
        steps = [(''merchant'', JObj [(''merchant_id'', JStr (uuid_str mid)), (''api_key'', JStr key)]),
          (''customer/account'', JObj [(''customer_id'', JStr (uuid_str cid)), (''account_id'', JStr (uuid_str aid))]),
          (''funding journal'', funding), (''payment'', payment_response p), (''authorized'', payment_response q),
          (''captured'', payment_response r), (''idempotent replay'', payment_response p)] \<and>
        p_status p = ''PENDING'' \<and> p_status q = ''AUTHORIZED'' \<and> p_status r = ''CAPTURED'' \<and>
        captured_amount_minor r = 1000 \<and> payments d' = payments d @ [r] \<and> moved cid ''PLN'' 9000 d d')"

lemma demo_doneI:
  assumes "merchant = JObj [(''merchant_id'', JStr (uuid_str mid)), (''api_key'', JStr key)]"
    and "customer = JObj [(''customer_id'', JStr (uuid_str cid)), (''account_id'', JStr (uuid_str aid))]"
    and "money_tables d2 = money_tables d" and "p_status p = ''PENDING''" and "p_status q = ''AUTHORIZED''"
    and "p_status r = ''CAPTURED''" and "captured_amount_minor r = 1000" and "payments d' = payments d2 @ [r]"
    and "moved cid ''PLN'' 9000 d2 d'"
  shows "demo_done key d [(''merchant'', merchant), (''customer/account'', customer), (''funding journal'', funding),
    (''payment'', payment_response p), (''authorized'', payment_response q), (''captured'', payment_response r),
    (''idempotent replay'', payment_response p)] d'"
proof -
  have "moved cid ''PLN'' 9000 d d'" using moved_trans [OF moved_money [OF assms(3)] assms(9)] by simp
  moreover have "payments d' = payments d @ [r]" using assms(3,8) by (simp add: money_tables_def)
  ultimately show ?thesis using assms unfolding demo_done_def by blast
qed

text \<open>
  C23: the demonstration always works.  Wherever the system is, a client that follows \<open>scripts/demo.py\<close>
  gets all its answers, and no request fails: a new merchant, a new customer with an account, its
  funding, a payment that the risk engine accepts, its authorisation, its capture, and for the repeated
  creation the answer of the first one.  Afterwards there is one more payment, captured in full, and 90
  of the 100 zloty are left in the customer's balance.  Needed: identifiers do not repeat, the digest of the new
  API key and the client's idempotency key are new, digests are as long as documented, tokens have no
  blanks and the mail address is accepted; no other action comes between the requests.
\<close>

theorem demo_completes:
  assumes "sound (tables w)" and "fresh_ids ext 65 w"
    and "\<And>s. length (sha256_hex ext s) \<le> 64" and "\<And>k. list_all (\<lambda>c. \<not> is_space c) (token_urlsafe ext k)"
    and "hash_secret ext (new_api_key ext (Suc (draws w))) \<notin> key_hash ` set (api_keys (tables w))"
    and "email_str ext ''buyer@example.com'' = Some e" and "length e \<le> 320"
    and "uuid_str idem \<notin> i_key ` set (idempotency_records (tables w))"
  shows "\<exists>steps (w' :: world). demo ext idem w = (Inr steps, w') \<and>
    demo_done (new_api_key ext (Suc (draws w))) (tables w) steps (tables w')"
proof -
  let ?key = "new_api_key ext (Suc (draws w))"
  have pln: "''PLN'' = currency_value PLN" by (simp add: enum_value_simps)
  have "strip ?key = ?key" using assms(4) by (rule strip_api_key)
  then have merchant: "wp (json_ok (serve ext None None (CreateMerchant ''Demo Merchant'' 1)))
    (\<lambda>body v. \<exists>m. body = JObj [(''merchant_id'', JStr (uuid_str (m_id m))), (''api_key'', JStr ?key)] \<and>
       1 \<le> m_risk_level m \<and> m_risk_level m \<le> 5 \<and> m_id m \<notin> m_id ` set (merchants (tables w)) \<and>
       merchants (tables v) = merchants (tables w) @ [m] \<and> customers (tables v) = customers (tables w) \<and>
       caller ext (Some (bearer ext (JStr ?key))) (tables v) = Some \<lparr>pl_merchant_id = m_id m, pl_scopes = merchant_scopes\<rparr> \<and>
       money_tables (tables v) = money_tables (tables w) \<and> sound (tables v) \<and> fresh_ids ext (65 - 8) v) (\<lambda>_ _. False) w"
    using assms(3,5) by (intro merchant_step [OF assms(1,2)]) (simp_all add: hash_secret_def varchar_def)
  have "wp (demo ext idem) (\<lambda>steps v. demo_done ?key (tables w) steps (tables v)) (\<lambda>_ _. False) w"
    unfolding demo_def
    apply (rule wp_seq [OF merchant])
    subgoal premises prems for merchant v
    proof -
      obtain m where m: "merchant = JObj [(''merchant_id'', JStr (uuid_str (m_id m))), (''api_key'', JStr ?key)]"
          "1 \<le> m_risk_level m" "m_risk_level m \<le> 5" "m_id m \<notin> m_id ` set (merchants (tables w))"
          "merchants (tables v) = merchants (tables w) @ [m]" "customers (tables v) = customers (tables w)"
          "caller ext (Some (bearer ext (JStr ?key))) (tables v) = Some \<lparr>pl_merchant_id = m_id m, pl_scopes = merchant_scopes\<rparr>"
          "money_tables (tables v) = money_tables (tables w)" "sound (tables v)" "fresh_ids ext 57 v"
        using prems by auto
      have key: "json_get ''api_key'' merchant = Inr (JStr ?key)" by (simp add: m(1) json_get_def)
      have row: "row_at m_id (m_id m) (merchants (tables v)) = Some m" using new_row [of m_id m] m(4,5) by simp
      have free: "(m_id m, e) \<notin> (\<lambda>c. (c_merchant_id c, email c)) ` set (customers (tables v))"
        unfolding m(6) using owned_rows [OF assms(1)] m(4) by auto
      note customer = customer_step [OF m(9,10) _ m(7) row m(2,3) assms(6,7) free pln]
      show ?thesis
        unfolding key bind_found Let_def
        apply (rule wp_seq [OF customer], simp)
        apply (elim exE conjE)
        subgoal premises prems for customer v2 cid a
        proof -
          let ?front = "[(''merchant'', merchant), (''customer/account'', customer)]"
          have account: "json_get ''account_id'' customer = Inr (JStr (uuid_str (a_id a)))" by (simp add: prems(1) json_get_def)
          have unused: "uuid_str idem \<notin> i_key ` set (idempotency_records (tables v2))"
            using assms(8) m(8) prems(7) by (simp add: money_tables_def)
          note steps = demo_from_account [where front = ?front, simplified append_Cons append_Nil,
            OF prems(8) _ prems(1-5) unused assms(3)]
          show ?thesis
            unfolding account bind_found json_str.simps append_Cons append_Nil
            by (rule steps) (simp, rule demo_doneI [OF m(1) prems(1) trans [OF prems(7) m(8)]], assumption+)
        qed
        done
    qed
    done
  then show ?thesis by (auto simp: wp_def split: prod.splits sum.splits)
qed

text \<open>The demonstration on the sample shop, whose own merchant has another key.\<close>

definition demo_ext :: ext where
  "demo_ext = sample_ext\<lparr>token_urlsafe := (\<lambda>_. ''new'')\<rparr>"

lemma demo_fresh: "fresh_ids demo_ext 65 shop_world"
proof (rule fresh_idsI)
  have small: "unat u < 100" if "u \<in> used_ids shop_db" for u
    using that by (auto simp: used_ids_def sample_defs)
  have id: "unat (uuid4 demo_ext (draws shop_world + i)) = 100 + i" if "i < 65" for i
  proof -
    have "unat (of_nat (100 + i) :: 128 word) = 100 + i" using that unat_of_nat [where 'a = 128, of "100 + i"] by simp
    then show ?thesis by (simp add: demo_ext_def sample_ext_def shop_world_def)
  qed
  show "uuid4 demo_ext (draws shop_world + i) \<notin> used_ids (tables shop_world)" if "i < 65" for i
    using small [of "uuid4 demo_ext (draws shop_world + i)"] unfolding id [OF that] tables_shop by (metis not_add_less1)
  show "i = j" if "i < 65" "j < 65" "uuid4 demo_ext (draws shop_world + i) = uuid4 demo_ext (draws shop_world + j)" for i j
    using id [OF that(1)] id [OF that(2)] unfolding that(3) by linarith
qed

lemma demo_completes_witness:
  "\<exists>steps (w' :: world). demo demo_ext 9 shop_world = (Inr steps, w') \<and> demo_done ''fg_test_new'' shop_db steps (tables w')"
  using demo_completes [of shop_world demo_ext "''buyer@example.com''" 9] shop_sound demo_fresh
  by (simp add: demo_ext_def new_api_key_def sample_defs hash_secret_def is_space_def)

end
