(* ===== verification/Wallet.thy ===== *)
theory Wallet
  imports Tenants
begin

text \<open>
  The abstract specification of the payment service: what the merchants can rely on, without ledger,
  tables, events or errors.  A \<open>wallet\<close> has the funds of the customers and the payments; \<open>wallet_step\<close>
  says how it may change.  The service refines it: every action of the system is one step or none.
\<close>

section \<open>The specification\<close>

record pay =
  payer :: uuid
  coin :: string
  due :: int
  stage :: payment_status
  taken :: int
  returned :: int

record wallet =
  funds :: "uuid \<Rightarrow> string \<Rightarrow> int"
  pays :: "uuid \<Rightarrow> pay option"

definition add_funds :: "uuid \<Rightarrow> string \<Rightarrow> int \<Rightarrow> wallet \<Rightarrow> wallet" where
  "add_funds c cur n a = a\<lparr>funds := (funds a)(c := (funds a c)(cur := funds a c cur + n))\<rparr>"

definition put_pay :: "uuid \<Rightarrow> pay \<Rightarrow> wallet \<Rightarrow> wallet" where
  "put_pay k y a = a\<lparr>pays := (pays a)(k \<mapsto> y)\<rparr>"

definition after_refund :: "pay \<Rightarrow> int \<Rightarrow> payment_status" where
  "after_refund y n = (if returned y + n = taken y then REFUNDED else PARTIALLY_REFUNDED)"

inductive wallet_step :: "wallet \<Rightarrow> wallet \<Rightarrow> bool" where
  funded: "0 < n \<Longrightarrow> wallet_step a (add_funds c cur n a)"
| opened: "pays a k = None \<Longrightarrow> 0 < n \<Longrightarrow> st \<in> {PENDING, FAILED} \<Longrightarrow>
    wallet_step a (put_pay k \<lparr>payer = c, coin = cur, due = n, stage = st, taken = 0, returned = 0\<rparr> a)"
| authorised: "pays a k = Some y \<Longrightarrow> stage y = PENDING \<Longrightarrow> due y \<le> funds a (payer y) (coin y) \<Longrightarrow>
    wallet_step a (put_pay k (y\<lparr>stage := AUTHORIZED\<rparr>) a)"
| declined: "pays a k = Some y \<Longrightarrow> stage y = PENDING \<Longrightarrow> funds a (payer y) (coin y) < due y \<Longrightarrow>
    wallet_step a (put_pay k (y\<lparr>stage := FAILED\<rparr>) a)"
| taken: "pays a k = Some y \<Longrightarrow> stage y = AUTHORIZED \<Longrightarrow> due y \<le> funds a (payer y) (coin y) \<Longrightarrow>
    wallet_step a (put_pay k (y\<lparr>stage := CAPTURED, taken := due y\<rparr>) (add_funds (payer y) (coin y) (- due y) a))"
| cancelled: "pays a k = Some y \<Longrightarrow> stage y \<in> {CREATED, PENDING, AUTHORIZED} \<Longrightarrow>
    wallet_step a (put_pay k (y\<lparr>stage := CANCELLED\<rparr>) a)"
| given_back: "pays a k = Some y \<Longrightarrow> stage y \<in> {CAPTURED, PARTIALLY_REFUNDED} \<Longrightarrow> 0 < n \<Longrightarrow> n \<le> taken y - returned y \<Longrightarrow>
    wallet_step a (put_pay k (y\<lparr>stage := after_refund y n, returned := returned y + n\<rparr>)
      (add_funds (payer y) (coin y) n a))"

inductive_cases wallet_stepE: "wallet_step a b"

abbreviation wallet_steps :: "wallet \<Rightarrow> wallet \<Rightarrow> bool" where
  "wallet_steps \<equiv> wallet_step\<^sup>*\<^sup>*"

text \<open>The specification keeps every wallet solvent.\<close>

definition pay_ok :: "pay \<Rightarrow> bool" where
  "pay_ok y \<longleftrightarrow> 0 \<le> returned y \<and> returned y \<le> taken y \<and> taken y \<le> due y \<and>
     (stage y \<in> {CREATED, PENDING, AUTHORIZED} \<longrightarrow> taken y = 0)"

definition solvent :: "wallet \<Rightarrow> bool" where
  "solvent a \<longleftrightarrow> (\<forall>c cur. 0 \<le> funds a c cur) \<and> (\<forall>k y. pays a k = Some y \<longrightarrow> pay_ok y)"

lemma solventD: "solvent a \<Longrightarrow> pays a k = Some y \<Longrightarrow> pay_ok y" "solvent a \<Longrightarrow> 0 \<le> funds a c cur"
  by (simp_all add: solvent_def)

lemma solvent_put: "solvent a \<Longrightarrow> pay_ok y \<Longrightarrow> solvent (put_pay k y a)"
  by (simp add: solvent_def put_pay_def)

lemma solvent_add: "solvent a \<Longrightarrow> 0 \<le> funds a c cur + n \<Longrightarrow> solvent (add_funds c cur n a)"
  by (simp add: solvent_def add_funds_def)

lemma step_solvent: "wallet_step a b \<Longrightarrow> solvent a \<Longrightarrow> solvent b"
proof (induction rule: wallet_step.induct)
  case (funded n a c cur)
  then show ?case using solventD(2) [of a c cur] by (intro solvent_add) simp_all
next
  case (taken a k y)
  then show ?case using solventD(1) [of a k y] by (intro solvent_put solvent_add) (auto simp: pay_ok_def)
next
  case (given_back a k y n)
  then show ?case
    using solventD(1) [of a k y] solventD(2) [of a "payer y" "coin y"]
    by (intro solvent_put solvent_add) (auto simp: pay_ok_def after_refund_def)
next
  case (opened a k n st c cur)
  then show ?case by (intro solvent_put) (auto simp: pay_ok_def)
qed (rule solvent_put, assumption, drule (1) solventD(1), auto simp: pay_ok_def)+

lemma steps_solvent: "wallet_steps a b \<Longrightarrow> solvent a \<Longrightarrow> solvent b"
  by (induction rule: rtranclp_induct) (auto intro: step_solvent)

section \<open>The wallet of a database\<close>

definition pay_of :: "payment \<Rightarrow> pay" where
  "pay_of p = \<lparr>payer = p_customer_id p, coin = p_currency p, due = p_amount_minor p,
     stage = (case status_of (p_status p) of None \<Rightarrow> FAILED | Some st \<Rightarrow> st),
     taken = captured_amount_minor p, returned = refunded_amount_minor p\<rparr>"

definition wallet_of :: "db \<Rightarrow> wallet" where
  "wallet_of d = \<lparr>funds = available_balance d, pays = (\<lambda>k. map_option pay_of (row_at p_id k (payments d)))\<rparr>"

text \<open>No step or one step.\<close>

definition simulates :: "db \<Rightarrow> db \<Rightarrow> bool" where
  "simulates d d' \<longleftrightarrow> wallet_of d' = wallet_of d \<or> wallet_step (wallet_of d) (wallet_of d')"

lemma wallet_moved:
  assumes "moved c cur n d d'"
  shows "available_balance d' = (available_balance d)(c := (available_balance d c)(cur := available_balance d c cur + n))"
  using assms by (auto simp: moved_def fun_eq_iff)

lemma wallet_put:
  assumes "books_ok d" and "payment_for_update pid mid d = Some p" and "payments d' = put_payment q (payments d)"
    and "p_id q = p_id p" and "moved (p_customer_id p) (p_currency p) n d d'"
  shows "wallet_of d' = put_pay pid (pay_of q) (add_funds (p_customer_id p) (p_currency p) n (wallet_of d))"
    and "pays (wallet_of d) pid = Some (pay_of p)"
proof -
  have p: "p \<in> set (payments d)" "p_id p = pid" "row_at p_id pid (payments d) = Some p"
    using payment_for_update_SomeD [OF assms(2)] payment_row [OF assms(1,2)] by auto
  have "pid \<in> p_id ` set (payments d)" using p by (auto intro: rev_image_eqI)
  then have "map_option pay_of (row_at p_id k (payments d')) =
      ((\<lambda>k. map_option pay_of (row_at p_id k (payments d)))(pid \<mapsto> pay_of q)) k" for k
    using assms(3,4) p(2) by (simp add: row_at_put_payment)
  then show "wallet_of d' = put_pay pid (pay_of q) (add_funds (p_customer_id p) (p_currency p) n (wallet_of d))"
    using wallet_moved [OF assms(5)] by (simp add: wallet_of_def put_pay_def add_funds_def fun_eq_iff)
  show "pays (wallet_of d) pid = Some (pay_of p)" by (simp add: wallet_of_def p(3))
qed

section \<open>Simulation\<close>

lemma pay_of_stage: "stage (pay_of (p\<lparr>p_status := status_value st\<rparr>)) = st" "p_status p = status_value st \<Longrightarrow> stage (pay_of p) = st"
  by (simp_all add: pay_of_def status_codec.decode_encode)

lemma pay_of_changes:
  "pay_of (captured p t) = (pay_of p)\<lparr>stage := CAPTURED, taken := due (pay_of p)\<rparr>"
  "pay_of (with_payment_status st u p) = (pay_of p)\<lparr>stage := st\<rparr>"
  "pay_of (refunded p n) = (pay_of p)\<lparr>stage := after_refund (pay_of p) n, returned := returned (pay_of p) + n\<rparr>"
  by (simp_all add: pay_of_def captured_def with_payment_status_def refunded_def after_refund_def refund_status_def
      status_codec.decode_encode split: option.split)

lemma pay_of_fields:
  "payer (pay_of p) = p_customer_id p" "coin (pay_of p) = p_currency p" "due (pay_of p) = p_amount_minor p"
  "taken (pay_of p) = captured_amount_minor p" "returned (pay_of p) = refunded_amount_minor p"
  "funds (wallet_of d) = available_balance d"
  by (simp_all add: pay_of_def wallet_of_def)

lemma add_nothing: "add_funds c cur 0 a = a"
  by (simp add: add_funds_def)

lemma simulates_effects:
  assumes ok: "books_ok d"
  shows "capture_done ext mid pid corr d body d' \<Longrightarrow> simulates d d'"
    and "authorize_done ext mid pid corr d r d' \<Longrightarrow> simulates d d'"
    and "cancel_done ext mid pid corr d body d' \<Longrightarrow> simulates d d'"
    and "refund_done ext mid pid n corr d body d' \<Longrightarrow> simulates d d'"
proof -
  note put = wallet_put [OF ok]
  show "simulates d d'" if eff: "capture_done ext mid pid corr d body d'"
  proof -
    obtain p t where p: "payment_for_update pid mid d = Some p" "p_status p = status_value AUTHORIZED"
        "p_amount_minor p \<le> available_balance d (p_customer_id p) (p_currency p)"
        "payments d' = put_payment (captured p t) (payments d)"
        "moved (p_customer_id p) (p_currency p) (- p_amount_minor p) d d'"
      using eff unfolding capture_done_def by blast
    show ?thesis
      using wallet_step.taken [of "wallet_of d" pid "pay_of p"] put [OF p(1,4) payment_identity(1) p(5)] p(2,3)
      by (simp add: simulates_def pay_of_fields pay_of_changes pay_of_stage)
  qed
  show "simulates d d'" if eff: "authorize_done ext mid pid corr d r d'"
  proof -
    obtain p st u where p: "payment_for_update pid mid d = Some p" "p_status p = status_value PENDING"
        "payments d' = put_payment (with_payment_status st u p) (payments d)"
        "moved (p_customer_id p) (p_currency p) 0 d d'"
        "st = AUTHORIZED \<and> p_amount_minor p \<le> available_balance d (p_customer_id p) (p_currency p) \<or>
         st = FAILED \<and> available_balance d (p_customer_id p) (p_currency p) < p_amount_minor p"
      using eff by (auto simp: authorize_done_def not_le split: if_splits)
    show ?thesis
      using wallet_step.authorised [of "wallet_of d" pid "pay_of p"] wallet_step.declined [of "wallet_of d" pid "pay_of p"]
        put [OF p(1,3) payment_identity(7) p(4)] p(2,5)
      by (auto simp: simulates_def pay_of_fields pay_of_changes pay_of_stage add_nothing)
  qed
  show "simulates d d'" if eff: "cancel_done ext mid pid corr d body d'"
  proof -
    obtain p t st where p: "payment_for_update pid mid d = Some p" "p_status p = status_value st"
        "st \<in> {CREATED, PENDING, AUTHORIZED}"
        "payments d' = put_payment (with_payment_status CANCELLED (Some t) p) (payments d)"
        "moved (p_customer_id p) (p_currency p) 0 d d'"
      using eff unfolding cancel_done_def by blast
    show ?thesis
      using wallet_step.cancelled [of "wallet_of d" pid "pay_of p"] put [OF p(1,4) payment_identity(7) p(5)] p(2,3)
      by (simp add: simulates_def pay_of_changes pay_of_stage add_nothing)
  qed
  show "simulates d d'" if eff: "refund_done ext mid pid n corr d body d'"
  proof -
    obtain p st where p: "payment_for_update pid mid d = Some p" "p_status p = status_value st" "refundable st"
        "0 < n" "n \<le> captured_amount_minor p - refunded_amount_minor p"
        "payments d' = put_payment (refunded p n) (payments d)"
        "moved (p_customer_id p) (p_currency p) n d d'"
      using eff unfolding refund_done_def by blast
    show ?thesis
      using wallet_step.given_back [of "wallet_of d" pid "pay_of p" n] put [OF p(1,6) payment_identity(4) p(7)] p(2-5)
      by (simp add: simulates_def pay_of_fields pay_of_changes pay_of_stage refundable_def)
  qed
qed

lemma simulates_fund:
  assumes "fund_done mid aid req d d'" and "0 < fr_amount_minor req"
  shows "simulates d d'"
proof -
  obtain c cur where m: "moved c cur (fr_amount_minor req) d d'" "payments d' = payments d"
    using assms(1) unfolding fund_done_def by blast
  have "wallet_of d' = add_funds c cur (fr_amount_minor req) (wallet_of d)"
    using wallet_moved [OF m(1)] m(2) by (simp add: wallet_of_def add_funds_def fun_eq_iff)
  then show ?thesis using wallet_step.funded [OF assms(2), of "wallet_of d" c cur] by (simp add: simulates_def)
qed

lemma simulates_create:
  assumes "create_done ext mid req key corr d a d'" and "0 < pr_amount_minor req"
    and "available_balance d' = available_balance d"
  shows "simulates d d'"
proof -
  from assms(1) consider "d' = d"
    | i st t t' where "st = PENDING \<or> st = FAILED" "i \<notin> p_id ` set (payments d)"
        "payments d' = payments d @ [new_payment i mid req st t t']"
    by (auto simp: create_done_def)
  then show ?thesis
  proof cases
    case 2
    let ?y = "\<lparr>payer = pr_customer_id req, coin = currency_value (pr_currency req), due = pr_amount_minor req,
       stage = st, taken = 0, returned = 0\<rparr>"
    have new: "pay_of (new_payment i mid req st t t') = ?y" "p_id (new_payment i mid req st t t') = i"
      by (simp_all add: pay_of_def new_payment_def status_codec.decode_encode)
    have free: "row_at p_id i (payments d) = None" using 2(2) by (simp add: row_at_None_iff)
    have "wallet_of d' = put_pay i ?y (wallet_of d)"
      using 2(3) free new assms(3)
      by (auto simp: wallet_of_def put_pay_def fun_eq_iff row_at_append row_simps split: option.split)
    then show ?thesis
      using wallet_step.opened [of "wallet_of d" i "pr_amount_minor req" st] 2(1) free assms(2)
      by (simp add: simulates_def wallet_of_def)
  qed (simp add: simulates_def)
qed

lemma simulates_refl: "simulates d d"
  by (simp add: simulates_def)

lemma simulates_same: "payments d' = payments d \<Longrightarrow> available_balance d' = available_balance d \<Longrightarrow> simulates d d'"
  by (simp add: simulates_def wallet_of_def)

lemma frames_wallet:
  "frames (\<lambda>w. (payments (tables w), ledger_accounts (tables w), journal_entries (tables w))) (create_merchant ext mreq corr)"
  "frames (\<lambda>w. (payments (tables w), ledger_accounts (tables w), journal_entries (tables w))) (create_customer ext mid creq corr)"
  "frames (\<lambda>w. (payments (tables w), ledger_accounts (tables w), journal_entries (tables w))) (register_webhook ext mid wreq corr)"
  "frames (\<lambda>w. (payments (tables w), ledger_accounts (tables w), journal_entries (tables w))) (rotate_webhook_secret ext mid eid corr)"
  "frames (\<lambda>w. (payments (tables w), ledger_accounts (tables w), journal_entries (tables w))) (replay_delivery ext mid did corr)"
  by (rule frames_mono, rule frame_rules, simp)+

lemma wp_simulates_frame:
  assumes "frames (\<lambda>w. (payments (tables w), ledger_accounts (tables w), journal_entries (tables w))) s"
  shows "wp s (\<lambda>_ v. simulates (tables w) (tables v)) (\<lambda>_ _. True) w"
  by (rule wp_frames [OF assms]) (auto intro!: simulates_same available_balance_cong)

lemma wp_simulates_create:
  assumes "0 < pr_amount_minor req"
  shows "wp (create_payment ext mid req key corr) (\<lambda>_ v. simulates (tables w) (tables v)) (\<lambda>_ _. True) w"
  by (rule wp_with_frame [OF create_payment_effect frames_create_payment])
    (auto intro: simulates_create [OF _ assms] available_balance_cong)

interpretation simulation: request_step ext books_ok "\<lambda>_. True" simulates for ext
proof unfold_locales
  fix w :: world and mid aid pid corr rreq and freq :: fund_request
  assume ok: "books_ok (tables w)"
  show "wp (fund_account ext mid aid freq corr) (\<lambda>_ v. simulates (tables w) (tables v)) (\<lambda>_ _. True) w"
    if "0 < fr_amount_minor freq"
    by (rule wp_mono [OF fund_account_effect [OF ok]]) (auto intro: simulates_fund that)
  show "wp (authorize_block ext mid pid corr) (\<lambda>_ v. simulates (tables w) (tables v)) (\<lambda>_ _. True) w"
    by (rule wp_mono [OF authorize_block_effect [OF ok]]) (auto intro: simulates_effects [OF ok])
  show "wp (capture_payment ext mid pid corr) (\<lambda>_ v. simulates (tables w) (tables v)) (\<lambda>_ _. True) w"
    by (rule wp_mono [OF capture_payment_effect [OF ok]]) (auto intro: simulates_effects [OF ok])
  show "wp (cancel_payment ext mid pid corr) (\<lambda>_ v. simulates (tables w) (tables v)) (\<lambda>_ _. True) w"
    by (rule wp_mono [OF cancel_payment_effect [OF ok]]) (auto intro: simulates_effects [OF ok])
  show "wp (refund_payment ext mid pid rreq corr) (\<lambda>_ v. simulates (tables w) (tables v)) (\<lambda>_ _. True) w"
    by (rule wp_mono [OF refund_payment_effect [OF ok]]) (auto intro: simulates_effects [OF ok])
qed (rule simulates_refl wp_simulates_create wp_simulates_frame frames_wallet | assumption)+

text \<open>The workers do not touch the wallet.\<close>

lemma frames_books_workers:
  "frames (\<lambda>w. books (tables w)) (publish_once ext k)"
  "frames (\<lambda>w. books (tables w)) (consume_message ext m)"
  "frames (\<lambda>w. books (tables w)) (dispatch_once ext reply)"
proof -
  have tx: "frames (\<lambda>w. books (tables w)) (atomically s)" if "frames (\<lambda>w. books (tables w)) s" for s :: "'a db_op"
    by (rule frames_atomically [OF that]) (simp_all add: rollback_def)
  have batch: "frames (\<lambda>w. books (tables w)) (publish_batch ext k)"
    "frames (\<lambda>w. books (tables w)) (process_payment_event_for_webhooks ext i t j)"
    "frames (\<lambda>w. books (tables w)) (dispatch_batch ext reply)" for i t j
    by (rule frames_mono, rule frame_rules, simp add: books_def)+
  show "frames (\<lambda>w. books (tables w)) (publish_once ext k)"
    "frames (\<lambda>w. books (tables w)) (consume_message ext m)"
    "frames (\<lambda>w. books (tables w)) (dispatch_once ext reply)"
    unfolding publish_once_def consume_message_def dispatch_once_def by (intro frame_intros tx batch)+
qed

lemma simulates_books: "books d' = books d \<Longrightarrow> simulates d d'"
  by (auto simp: books_def intro!: simulates_same available_balance_cong)

lemma perform_simulates:
  assumes "books_ok (tables w)"
  shows "simulates (tables w) (tables (perform ext a w))"
proof (cases a)
  case (Serve raw auth req)
  then show ?thesis using simulation.serve_stays_in [OF assms] by simp
next
  case (Publish k)
  then show ?thesis using framesD [OF frames_books_workers(1)] by (auto intro!: simulates_books)
next
  case (Consume ms)
  have "keeps (\<lambda>v. books (tables v) = books (tables w)) (consume_message ext m)" for m
    using framesD [OF frames_books_workers(2)] by (simp add: keeps_def)
  from keeps_consume [OF this] Consume show ?thesis by (auto intro!: simulates_books)
next
  case (Dispatch reply)
  then show ?thesis using framesD [OF frames_books_workers(3)] by (auto intro!: simulates_books)
qed

lemma run_wallet_steps:
  "wallet_steps (wallet_of (tables (run ext as initial_world))) (wallet_of (tables (run ext (as @ bs) initial_world)))"
proof (induction bs rule: rev_induct)
  case (snoc b bs)
  then show ?case
    using perform_simulates [OF run_books_ok [of ext "as @ bs"], of ext b]
    by (auto simp: simulates_def run_def intro: rtranclp.rtrancl_into_rtrancl)
qed simp

lemma run_solvent: "solvent (wallet_of (tables (run ext as initial_world)))"
proof -
  have "solvent (wallet_of (tables initial_world))"
    by (simp add: wallet_of_def solvent_def initial_world_def empty_db_def available_balance_def cash_account_ids_def)
  then show ?thesis using steps_solvent [OF run_wallet_steps [of ext "[]" as]] by (simp add: run_def)
qed

text \<open>
  C6: the service implements the specification \<open>wallet_step\<close>.  From any reachable database every
  action, a request or a round of a worker, changes the wallet of the database by one step of the
  specification or not at all, whatever it answers; so any run is a run of the specification, and what
  the specification keeps holds of the database: all wallets are solvent.
\<close>

theorem wallet_refinement:
  "let w = run ext as initial_world in
     simulates (tables w) (tables (perform ext a w)) \<and>
     wallet_steps (wallet_of (tables w)) (wallet_of (tables (run ext bs w))) \<and> solvent (wallet_of (tables w))"
  using perform_simulates [OF run_books_ok [of ext as], of ext a] run_wallet_steps [of ext as bs] run_solvent [of ext as]
  by (simp add: run_def)

end
