(* ===== verification/Serving.thy ===== *)
theory Serving
  imports RequestSteps
begin

text \<open>
  Symbolic execution of one request: from what its transaction does to what \<open>serve\<close> answers.
\<close>

lemma wp_weaken: "wp s Q E w \<Longrightarrow> (\<And>a v. Q a v \<Longrightarrow> Q' a v) \<Longrightarrow> wp s Q' (\<lambda>_ _. True) w"
  by (erule wp_mono) simp_all

lemma wp_return: "wp (ret a) Q E = Q a" "wp (raise e) Q E = E e"
  by (simp_all add: fun_eq_iff wp_ret wp_raise)

text \<open>A transaction that commits, one whose failure is known, and the requests around them.\<close>

lemma wp_transaction:
  assumes "wp s (\<lambda>a v. Q a (tables v)) (\<lambda>_ _. True) (w\<lparr>deferred := []\<rparr>)"
  shows "wp (atomically s) (\<lambda>a v. Q a (tables v)) (\<lambda>_ _. True) w"
  using assms by (auto simp: wp_def atomically_def split: prod.splits sum.splits)

lemma wp_transaction_fails:
  assumes "wp s (\<lambda>_ _. False) (\<lambda>e _. F e) (w\<lparr>deferred := []\<rparr>)"
  shows "wp (atomically s) (\<lambda>_ _. False) (\<lambda>e v. F e \<and> tables v = tables w) w"
  using assms by (auto simp: wp_def atomically_def rollback_def split: prod.splits sum.splits)

lemma wp_serve:
  assumes "\<And>corr v. tables v = tables w \<Longrightarrow> wp (route ext corr auth req) Q (\<lambda>_ _. True) v"
  shows "wp (serve ext raw auth req) Q (\<lambda>_ _. True) w"
proof -
  obtain r v where v: "correlation_id_of ext raw w = (r, v)" by (metis prod.collapse)
  have "tables v = tables w" using framesD [OF frames_correlation_id, of ext raw w] v by simp
  from assms [OF this] have
      "wp (\<lambda>u. catch_op (route ext corr auth req) (\<lambda>e. raise (handle_exception corr e)) u) Q (\<lambda>_ _. True) v" for corr
    by (simp add: wp_catch wp_return)
  then show ?thesis
    using v by (cases r) (simp_all add: serve_def wp_def bind_op_def)
qed

lemma wp_serve_fails:
  assumes "correlation_ok raw"
    and "\<And>corr v. tables v = tables w \<Longrightarrow>
      wp (route ext corr auth req) (\<lambda>_ _. False) (\<lambda>e u. F (handle_exception corr e) \<and> tables u = tables v) v"
  obtains e v where "serve ext raw auth req w = (Inl e, v)" and "F e" and "tables v = tables w"
proof -
  obtain corr u where u: "correlation_id_of ext raw w = (Inr corr, u)" "tables u = tables w"
    using correlation_id_ok [OF assms(1)] by blast
  from assms(2) [OF u(2)] have
      "wp (route ext corr auth req) (\<lambda>_ _. False) (\<lambda>e v. F (handle_exception corr e) \<and> tables v = tables u) u" .
  then obtain e v where "route ext corr auth req u = (Inl e, v)" "F (handle_exception corr e)" "tables v = tables u"
    by (auto simp: wp_def split: prod.splits sum.splits)
  then show thesis
    using u by (intro that [of "handle_exception corr e" v]) (simp_all add: serve_def bind_op_def catch_op_def raise_def)
qed

lemma serve_result:
  "serve ext raw auth req w = (Inr a, v) \<Longrightarrow> wp (serve ext raw auth req) Q (\<lambda>_ _. True) w \<Longrightarrow> Q a v"
  by (simp add: wp_def)

lemma wp_caller:
  "(\<And>p. caller ext auth (tables w) = Some p \<Longrightarrow> wp (f p) Q (\<lambda>_ _. True) w) \<Longrightarrow>
     wp (bind_op (require_api_key ext corr auth) f) Q (\<lambda>_ _. True) w"
  by (auto simp: wp_bind wp_require_api_key split: option.split)

lemma wp_valid:
  "(\<And>a. r = Inr a \<Longrightarrow> wp (f a) Q (\<lambda>_ _. True) w) \<Longrightarrow> wp (bind_op (lift_sum r) f) Q (\<lambda>_ _. True) w"
  by (auto simp: wp_simps split: sum.split)

lemma wp_status:
  "wp (with_status n s) Q (\<lambda>_ _. True) w = wp s (\<lambda>b v. Q (n, b) v) (\<lambda>_ _. True) w"
  by (simp add: with_status_def wp_bind wp_return)

end
