(* ===== verification/LedgerTypes.thy ===== *)
theory LedgerTypes
  imports Tenants
begin

text \<open>
  What each journal stands for.  A journal references an account that was funded, a payment that was
  captured or a refund; \<open>booked\<close> gives, for the kind of reference, the two ledger accounts and the
  amount that the business event calls for.  In every reachable database each journal has exactly these
  two lines.
\<close>

section \<open>The meaning of a reference\<close>

definition booked :: "db \<Rightarrow> string \<times> uuid \<Rightarrow> uuid \<times> string \<times> string \<Rightarrow> uuid \<times> string \<times> string \<Rightarrow> int \<Rightarrow> bool" where
  "booked d ref debited credited n \<longleftrightarrow>
     fst ref = ''account_funding'' \<and>
       (\<exists>a c. row_at a_id (snd ref) (accounts d) = Some a \<and> row_at c_id (a_customer_id a) (customers d) = Some c \<and>
          debited = (c_id c, ''customer_cash'', a_currency a) \<and>
          credited = (c_merchant_id c, ''simulated_provider_funding'', a_currency a)) \<or>
     fst ref = ''payment_capture'' \<and>
       (\<exists>p. row_at p_id (snd ref) (payments d) = Some p \<and> n = p_amount_minor p \<and>
          debited = (p_merchant_id p, ''merchant_receivable'', p_currency p) \<and>
          credited = (p_customer_id p, ''customer_cash'', p_currency p)) \<or>
     fst ref = ''payment_refund'' \<and>
       (\<exists>r p. row_at r_id (snd ref) (refunds d) = Some r \<and> row_at p_id (r_payment_id r) (payments d) = Some p \<and>
          n = r_amount_minor r \<and>
          debited = (p_customer_id p, ''customer_cash'', p_currency p) \<and>
          credited = (p_merchant_id p, ''merchant_receivable'', p_currency p))"

definition journal_typed :: "db \<Rightarrow> journal \<Rightarrow> bool" where
  "journal_typed d j \<longleftrightarrow>
     (\<exists>x \<in> set (ledger_accounts d). \<exists>y \<in> set (ledger_accounts d). \<exists>n e f.
        entries_of d (j_id j) = [e, f] \<and> transfer (j_reference j) x y n j e f \<and>
        booked d (j_reference j) (la_key x) (la_key y) n)"

definition journals_typed :: "db \<Rightarrow> bool" where
  "journals_typed d \<longleftrightarrow> list_all (journal_typed d) (journals d)"

definition typed_ok :: "db \<Rightarrow> bool" where
  "typed_ok d \<longleftrightarrow> ownership_ok d \<and> journals_typed d"

section \<open>What is kept\<close>

text \<open>Rows stay where they are; payments keep what a journal refers to.\<close>

definition grows :: "db \<Rightarrow> db \<Rightarrow> bool" where
  "grows d d' \<longleftrightarrow> keeps_payments (payments d) (payments d') \<and>
     (\<exists>as cs rs las. accounts d' = accounts d @ as \<and> customers d' = customers d @ cs \<and> refunds d' = refunds d @ rs \<and>
        ledger_accounts d' = ledger_accounts d @ las)"

lemma row_at_more: "row_at key k t = Some r \<Longrightarrow> row_at key k (t @ u) = Some r"
  by (simp add: row_at_append)

lemma payment_grown:
  assumes "grows d d'" and "books_ok d'" and "row_at p_id k (payments d) = Some p"
  obtains q where "row_at p_id k (payments d') = Some q" "p_merchant_id q = p_merchant_id p"
    "p_customer_id q = p_customer_id p" "p_amount_minor q = p_amount_minor p" "p_currency q = p_currency p"
proof -
  obtain q where q: "q \<in> set (payments d')" "advances p q"
    using assms(1) row_at_SomeD [OF assms(3)] by (auto simp: grows_def keeps_payments_def list_all_iff list_ex_iff)
  then have "row_at p_id k (payments d') = Some q"
    using row_at_Some_iff [OF books_distinct [OF assms(2)]] row_at_SomeD [OF assms(3)] by (simp add: advances_def)
  then show thesis using q(2) by (intro that [of q]) (simp_all add: advances_def)
qed

lemma booked_grows:
  assumes g: "grows d d'" and ok: "books_ok d'" and b: "booked d ref k k' n"
  shows "booked d' ref k k' n"
proof -
  obtain as cs rs where t: "accounts d' = accounts d @ as" "customers d' = customers d @ cs" "refunds d' = refunds d @ rs"
    using g unfolding grows_def by blast
  from b consider
      a c where "fst ref = ''account_funding''" "row_at a_id (snd ref) (accounts d) = Some a"
        "row_at c_id (a_customer_id a) (customers d) = Some c"
        "k = (c_id c, ''customer_cash'', a_currency a)" "k' = (c_merchant_id c, ''simulated_provider_funding'', a_currency a)"
    | p where "fst ref = ''payment_capture''" "row_at p_id (snd ref) (payments d) = Some p" "n = p_amount_minor p"
        "k = (p_merchant_id p, ''merchant_receivable'', p_currency p)" "k' = (p_customer_id p, ''customer_cash'', p_currency p)"
    | r p where "fst ref = ''payment_refund''" "row_at r_id (snd ref) (refunds d) = Some r"
        "row_at p_id (r_payment_id r) (payments d) = Some p" "n = r_amount_minor r"
        "k = (p_customer_id p, ''customer_cash'', p_currency p)" "k' = (p_merchant_id p, ''merchant_receivable'', p_currency p)"
    unfolding booked_def by blast
  then show ?thesis
  proof cases
    case 1
    then show ?thesis by (simp add: booked_def t row_at_more)
  next
    case 2
    obtain q where "row_at p_id (snd ref) (payments d') = Some q" "p_merchant_id q = p_merchant_id p"
        "p_customer_id q = p_customer_id p" "p_amount_minor q = p_amount_minor p" "p_currency q = p_currency p"
      by (rule payment_grown [OF g ok 2(2)])
    with 2 show ?thesis by (simp add: booked_def)
  next
    case 3
    obtain q where "row_at p_id (r_payment_id r) (payments d') = Some q" "p_merchant_id q = p_merchant_id p"
        "p_customer_id q = p_customer_id p" "p_amount_minor q = p_amount_minor p" "p_currency q = p_currency p"
      by (rule payment_grown [OF g ok 3(3)])
    with 3 show ?thesis by (simp add: booked_def t row_at_more)
  qed
qed

lemma journal_typed_grows:
  assumes "grows d d'" and "books_ok d'" and "entries_of d' (j_id j) = entries_of d (j_id j)" and "journal_typed d j"
  shows "journal_typed d' j"
proof -
  have more: "set (ledger_accounts d) \<subseteq> set (ledger_accounts d')" using assms(1) by (auto simp: grows_def)
  obtain x y n e f where x: "x \<in> set (ledger_accounts d)" "y \<in> set (ledger_accounts d)"
      "entries_of d (j_id j) = [e, f]" "transfer (j_reference j) x y n j e f"
      "booked d (j_reference j) (la_key x) (la_key y) n"
    using assms(4) unfolding journal_typed_def by blast
  show ?thesis
    unfolding journal_typed_def
    by (rule bexI [of _ x], rule bexI [of _ y])
      (use x assms(3) more booked_grows [OF assms(1,2) x(5)] in auto)
qed

lemma journals_typed_same:
  assumes "grows d d'" and "books_ok d'" and "journals d' = journals d" and "journal_entries d' = journal_entries d"
    and "journals_typed d"
  shows "journals_typed d'"
  using assms journal_typed_grows [OF assms(1,2)] by (simp add: journals_typed_def list_all_iff entries_of_def)

lemma journals_typed_posting:
  assumes g: "grows d d'" and ok: "books_ok d" "books_ok d'" and old: "journals_typed d"
    and post: "new_posting ref k k' n d d'" and new: "booked d' ref k k' n"
  shows "journals_typed d'"
proof -
  obtain x y j e f where xy: "x \<in> set (ledger_accounts d')" "y \<in> set (ledger_accounts d')" "la_key x = k" "la_key y = k'"
      and j: "journals d' = journals d @ [j]" "journal_entries d' = journal_entries d @ [e, f]"
        "j_id j \<notin> j_id ` set (journals d)" "transfer ref x y n j e f"
    using post unfolding new_posting_def by blast
  have ids: "e_journal_id e = j_id j" "e_journal_id f = j_id j" "j_reference j = ref"
    using j(4) by (simp_all add: transfer_def)
  have "e_journal_id a \<in> j_id ` set (journals d)" if "a \<in> set (journal_entries d)" for a
    using ok(1) that by (auto simp: books_ok_def book_ok_def entries_have_journals_def)
  then have "entries_of d (j_id j) = []" using j(3) by (metis (mono_tags, lifting) entries_of_def filter_False)
  then have "entries_of d' (j_id j) = [e, f]" using ids by (simp add: entries_of_def j(2))
  then have "journal_typed d' j"
    unfolding journal_typed_def using xy j(4) new ids(3) by blast
  moreover have "entries_of d' (j_id i) = entries_of d (j_id i)" if "i \<in> set (journals d)" for i
  proof -
    have "j_id i \<noteq> j_id j" using j(3) that by (metis imageI)
    then show ?thesis using ids by (simp add: entries_of_def j(2))
  qed
  ultimately show ?thesis
    using old journal_typed_grows [OF g ok(2)] by (simp add: journals_typed_def list_all_iff j(1))
qed

section \<open>The invariant\<close>

lemma growsI:
  assumes "keeps_payments (payments d) (payments d')" and "accounts d' = accounts d @ as"
    and "customers d' = customers d @ cs" and "refunds d' = refunds d @ rs"
    and "ledger_accounts d' = ledger_accounts d @ las"
  shows "grows d d'"
  unfolding grows_def using assms by blast

text \<open>The operations that book nothing.\<close>

lemma typed_unbooked:
  fixes w :: world
  assumes "typed_ok (tables w)" and "wp s (\<lambda>_ v. ownership_ok (tables v)) (\<lambda>_ _. True) w"
    and "wp s (\<lambda>_ v. keeps_payments (payments (tables w)) (payments (tables v))) (\<lambda>_ _. True) w"
    and "frames (\<lambda>w. (refunds (tables w), ledger_accounts (tables w), journals (tables w), journal_entries (tables w))) s"
    and "wp s (\<lambda>_ v. \<exists>as cs. accounts (tables v) = accounts (tables w) @ as \<and> customers (tables v) = customers (tables w) @ cs) (\<lambda>_ _. True) w"
  shows "wp s (\<lambda>_ v. typed_ok (tables v)) (\<lambda>_ _. True) w"
proof (rule wp_with_frame [OF wp_and [OF wp_and [OF assms(2,3)] assms(5)] assms(4)])
  fix v :: world
  assume e: "(ownership_ok (tables v) \<and> keeps_payments (payments (tables w)) (payments (tables v))) \<and>
    (\<exists>as cs. accounts (tables v) = accounts (tables w) @ as \<and> customers (tables v) = customers (tables w) @ cs)"
  assume "(refunds (tables v), ledger_accounts (tables v), journals (tables v), journal_entries (tables v)) =
    (refunds (tables w), ledger_accounts (tables w), journals (tables w), journal_entries (tables w))"
  moreover from this e have "grows (tables w) (tables v)"
    by (auto intro: growsI [where rs = "[]" and las = "[]"])
  ultimately show "typed_ok (tables v)"
    using e assms(1) by (auto simp: typed_ok_def ownership_ok_def intro: journals_typed_same)
qed

lemma typed_posting:
  assumes "typed_ok d" and "ownership_ok d'" and "grows d d'" and "new_posting ref k k' n d d'" and "booked d' ref k k' n"
  shows "typed_ok d'"
  using assms journals_typed_posting [OF assms(3) _ _ _ assms(4,5)] by (simp add: typed_ok_def ownership_ok_def)

lemma posting_accounts:
  "new_posting ref k k' n d d' \<Longrightarrow> \<exists>las. ledger_accounts d' = ledger_accounts d @ las"
  unfolding new_posting_def by blast

lemma row_put_payment:
  assumes "books_ok d" and "payment_for_update pid mid d = Some p" and "p_id q = p_id p"
  shows "row_at p_id pid (put_payment q (payments d)) = Some q"
proof -
  have "p \<in> set (payments d)" "p_id p = pid" using payment_for_update_SomeD [OF assms(2)] by auto
  then show ?thesis using assms(3) by (auto simp: row_at_put_payment)
qed

lemma capture_payment_typed:
  assumes ok: "typed_ok (tables w)"
  shows "wp (capture_payment ext mid pid corr) (\<lambda>_ v. typed_ok (tables v)) (\<lambda>_ _. True) w"
proof -
  let ?d = "tables w"
  have own: "ownership_ok ?d" and books: "books_ok ?d" using ok by (simp_all add: typed_ok_def ownership_ok_def)
  have kept: "payments_kept (payments ?d) ?d" using books by (simp add: payments_kept_def keeps_payments_refl)
  show ?thesis
  proof (rule wp_with_frame [OF wp_and [OF wp_and [OF capture_payment_effect [OF books]
        ownership.tx_capture [OF own]] capture_payment_posting [OF books]] frames_to_apart(1)])
    fix body and v :: world
    let ?d' = "tables v"
    assume e: "(capture_done ext mid pid corr ?d body ?d' \<and> ownership_ok ?d') \<and>
      (\<forall>p. payment_for_update pid mid ?d = Some p \<longrightarrow>
       new_posting (''payment_capture'', pid) (mid, ''merchant_receivable'', p_currency p)
         (p_customer_id p, ''customer_cash'', p_currency p) (p_amount_minor p) ?d ?d')"
    assume f: "apart ?d' = apart ?d"
    from e obtain p t where p: "payment_for_update pid mid ?d = Some p" "payments ?d' = put_payment (captured p t) (payments ?d)"
        "refunds ?d' = refunds ?d"
      unfolding capture_done_def by blast
    have post: "new_posting (''payment_capture'', pid) (mid, ''merchant_receivable'', p_currency p)
         (p_customer_id p, ''customer_cash'', p_currency p) (p_amount_minor p) ?d ?d'"
      using e p(1) by simp
    have "row_at p_id pid (payments ?d') = Some (captured p t)"
      unfolding p(2) by (rule row_put_payment [OF books p(1)]) (simp add: payment_identity)
    then have new: "booked ?d' (''payment_capture'', pid) (mid, ''merchant_receivable'', p_currency p)
         (p_customer_id p, ''customer_cash'', p_currency p) (p_amount_minor p)"
      using payment_for_update_SomeD [OF p(1)] by (simp add: booked_def captured_def)
    have "keeps_payments (payments ?d) (payments ?d')"
      using e payments_kept_effects(3) [OF kept] by blast
    then have "grows ?d ?d'"
      using posting_accounts [OF post] p(3) f unfolding grows_def apart_def by simp
    then show "typed_ok ?d'" using ok e post new by (blast intro: typed_posting)
  qed
qed

lemma refund_payment_typed:
  assumes ok: "typed_ok (tables w)"
  shows "wp (refund_payment ext mid pid req corr) (\<lambda>_ v. typed_ok (tables v)) (\<lambda>_ _. True) w"
proof -
  let ?d = "tables w" and ?n = "rr_amount_minor req"
  have own: "ownership_ok ?d" and books: "books_ok ?d" using ok by (simp_all add: typed_ok_def ownership_ok_def)
  have kept: "payments_kept (payments ?d) ?d" using books by (simp add: payments_kept_def keeps_payments_refl)
  show ?thesis
  proof (rule wp_with_frame [OF wp_and [OF wp_and [OF refund_payment_effect [OF books]
        ownership.tx_refund [OF own]] refund_payment_posting [OF books]] frames_to_apart(4)])
    fix body and v :: world
    let ?d' = "tables v"
    assume e: "(refund_done ext mid pid ?n corr ?d body ?d' \<and> ownership_ok ?d') \<and>
      (\<forall>p r. payment_for_update pid mid ?d = Some p \<longrightarrow> refunds ?d' = refunds ?d @ [r] \<longrightarrow>
       new_posting (''payment_refund'', r_id r) (p_customer_id p, ''customer_cash'', p_currency p)
         (mid, ''merchant_receivable'', p_currency p) (r_amount_minor r) ?d ?d')"
    assume f: "apart ?d' = apart ?d"
    from e obtain p r where p: "payment_for_update pid mid ?d = Some p" "payments ?d' = put_payment (refunded p ?n) (payments ?d)"
        "refunds ?d' = refunds ?d @ [r]" "r_payment_id r = pid"
      unfolding refund_done_def by blast
    have post: "new_posting (''payment_refund'', r_id r) (p_customer_id p, ''customer_cash'', p_currency p)
         (mid, ''merchant_receivable'', p_currency p) (r_amount_minor r) ?d ?d'"
      using e p(1,3) by simp
    have "distinct (map r_id (refunds ?d'))" using e by (simp add: ownership_ok_def books_ok_def)
    then have "row_at r_id (r_id r) (refunds ?d') = Some r"
      using row_at_Some_iff [of r_id "refunds ?d'" "r_id r" r] p(3) by simp
    moreover have "row_at p_id pid (payments ?d') = Some (refunded p ?n)"
      unfolding p(2) by (rule row_put_payment [OF books p(1)]) (simp add: payment_identity)
    ultimately have new: "booked ?d' (''payment_refund'', r_id r) (p_customer_id p, ''customer_cash'', p_currency p)
         (mid, ''merchant_receivable'', p_currency p) (r_amount_minor r)"
      using payment_for_update_SomeD [OF p(1)] p(4) by (simp add: booked_def refunded_def)
    have "keeps_payments (payments ?d) (payments ?d')"
      using e payments_kept_effects(5) [OF kept] by blast
    then have "grows ?d ?d'"
      using posting_accounts [OF post] p(3) f unfolding grows_def apart_def by simp
    then show "typed_ok ?d'" using ok e post new by (blast intro: typed_posting)
  qed
qed

lemma fund_account_typed:
  assumes ok: "typed_ok (tables w)"
  shows "wp (fund_account ext mid aid req corr) (\<lambda>_ v. typed_ok (tables v)) (\<lambda>_ _. True) w"
proof -
  let ?d = "tables w"
  have own: "ownership_ok ?d" and books: "books_ok ?d" using ok by (simp_all add: typed_ok_def ownership_ok_def)
  show ?thesis
  proof (rule wp_with_frame [OF wp_and [OF wp_and [OF fund_account_effect [OF books]
        ownership.tx_fund_account [OF own]] fund_account_posting] frames_to_apart(5)])
    fix body and v :: world
    let ?d' = "tables v"
    assume e: "(fund_done mid aid req ?d ?d' \<and> ownership_ok ?d') \<and>
      (\<exists>jid. body = JObj [(''journal_id'', JStr (uuid_str jid))] \<and> jid \<notin> j_id ` set (journals ?d) \<and>
       j_id (last (journals ?d')) = jid \<and>
       (\<forall>a. row_at a_id aid (accounts ?d) = Some a \<longrightarrow>
       new_posting (''account_funding'', aid) (a_customer_id a, ''customer_cash'', a_currency a)
         (mid, ''simulated_provider_funding'', a_currency a) (fr_amount_minor req) ?d ?d'))"
    assume f: "(apart ?d', payments ?d', refunds ?d', outbox_events ?d') = (apart ?d, payments ?d, refunds ?d, outbox_events ?d)"
    from e obtain a :: account and c :: customer where a: "row_at a_id aid (accounts ?d) = Some a"
        "row_at c_id (a_customer_id a) (customers ?d) = Some c" "c_merchant_id c = mid"
      unfolding fund_done_def by blast
    have post: "new_posting (''account_funding'', aid) (a_customer_id a, ''customer_cash'', a_currency a)
         (mid, ''simulated_provider_funding'', a_currency a) (fr_amount_minor req) ?d ?d'"
      using e a(1) by blast
    have new: "booked ?d' (''account_funding'', aid) (a_customer_id a, ''customer_cash'', a_currency a)
         (mid, ''simulated_provider_funding'', a_currency a) (fr_amount_minor req)"
      using a f row_at_SomeD [OF a(2)] by (simp add: booked_def apart_def)
    have "grows ?d ?d'"
      using posting_accounts [OF post] f keeps_payments_refl unfolding grows_def apart_def by simp
    then show "typed_ok ?d'" using ok e post new by (blast intro: typed_posting)
  qed
qed

lemma frames_unbooked:
  "frames (\<lambda>w. (refunds (tables w), ledger_accounts (tables w), journals (tables w), journal_entries (tables w)))
     (create_customer ext mid creq corr)"
  "frames (\<lambda>w. (refunds (tables w), ledger_accounts (tables w), journals (tables w), journal_entries (tables w)))
     (create_payment ext mid preq key corr)"
  "frames (\<lambda>w. (refunds (tables w), ledger_accounts (tables w), journals (tables w), journal_entries (tables w)))
     (authorize_block ext mid pid corr)"
  "frames (\<lambda>w. (refunds (tables w), ledger_accounts (tables w), journals (tables w), journal_entries (tables w)))
     (cancel_payment ext mid pid corr)"
  by (rule frames_mono, rule frame_rules, simp)+

lemma typed_cong:
  assumes "ownership_ok d'" and "books d' = books d" and "accounts d' = accounts d" and "customers d' = customers d"
    and "typed_ok d"
  shows "typed_ok d'"
proof -
  have same: "refunds d' = refunds d" "payments d' = payments d" "ledger_accounts d' = ledger_accounts d"
      "journals d' = journals d" "journal_entries d' = journal_entries d"
    using assms(2) by (simp_all add: books_def)
  then have "grows d d'"
    using assms(3,4) keeps_payments_refl
    by (intro growsI [where as = "[]" and cs = "[]" and rs = "[]" and las = "[]"]) simp_all
  then have "journals_typed d'"
    using assms(1,5) same(4,5) by (intro journals_typed_same [of d d']) (simp_all add: ownership_ok_def typed_ok_def)
  then show ?thesis using assms(1) by (simp add: typed_ok_def)
qed

lemma wp_typed_frame:
  assumes "typed_ok (tables w)" and "wp s (\<lambda>_ v. ownership_ok (tables v)) (\<lambda>_ _. True) w"
    and "frames (\<lambda>w. (books (tables w), accounts (tables w), customers (tables w))) s"
  shows "wp s (\<lambda>_ v. typed_ok (tables v)) (\<lambda>_ _. True) w"
  by (rule wp_with_frame [OF assms(2,3)]) (use assms(1) in \<open>auto intro: typed_cong\<close>)

interpretation typed: transaction_invariant ext typed_ok for ext
proof unfold_locales
  fix w :: world and mid corr key pid and creq :: customer_create and preq :: payment_request
  assume ok: "typed_ok (tables w)"
  then have own: "ownership_ok (tables w)" and books: "books_ok (tables w)" by (simp_all add: typed_ok_def ownership_ok_def)
  have kept: "payments_kept (payments (tables w)) (tables w)" using books by (simp add: payments_kept_def keeps_payments_refl)
  note effects = payments_kept_effects [OF kept]
  show "wp (create_customer ext mid creq corr) (\<lambda>_ v. typed_ok (tables v)) (\<lambda>_ _. True) w"
    by (rule typed_unbooked [OF ok ownership.tx_create_customer [OF own] _ frames_unbooked(1)])
      ((rule wp_with_frame [OF create_customer_rows frames_create_customer], auto simp: business_def keeps_payments_refl)+)
  show "wp (create_payment ext mid preq key corr) (\<lambda>_ v. typed_ok (tables v)) (\<lambda>_ _. True) w"
    if "0 < pr_amount_minor preq"
    by (rule typed_unbooked [OF ok ownership.tx_create_payment [OF own that] _ frames_unbooked(2)])
      (rule wp_with_frame [OF create_payment_effect frames_create_payment], auto dest: effects(1))+
  show "wp (authorize_block ext mid pid corr) (\<lambda>_ v. typed_ok (tables v)) (\<lambda>_ _. True) w"
    by (rule typed_unbooked [OF ok ownership.tx_authorize [OF own] _ frames_unbooked(3)])
      (rule wp_with_frame [OF authorize_block_effect [OF books] frames_to_apart(2)], auto simp: apart_def dest: effects(2))+
  show "wp (cancel_payment ext mid pid corr) (\<lambda>_ v. typed_ok (tables v)) (\<lambda>_ _. True) w"
    by (rule typed_unbooked [OF ok ownership.tx_cancel [OF own] _ frames_unbooked(4)])
      (rule wp_with_frame [OF cancel_payment_effect [OF books] frames_to_apart(3)], auto simp: apart_def dest: effects(4))+
qed (rule capture_payment_typed refund_payment_typed fund_account_typed, assumption |
  rule wp_typed_frame, assumption, rule ownership.transactions, simp add: typed_ok_def,
    rule frames_mono, rule frame_rules, simp add: books_def)+

text \<open>
  C8: every journal books its business event, to the right accounts and with the right amount.  In every
  reachable database a journal has exactly one debit and one credit, of one positive amount and in one
  currency: for a funding from the merchant's simulated_provider_funding to the customer_cash of the
  customer of the funded account, for a capture from that cash account to the merchant_receivable of the
  payment's merchant with the amount of the payment, and for a refund back again with the amount of the
  refund row.  No other kind of journal exists.
\<close>

theorem journals_book_their_events:
  "list_all (journal_typed (tables (run ext as initial_world))) (journals (tables (run ext as initial_world)))"
proof -
  have "on_tables typed_ok initial_world"
    using books_ok_empty
    by (simp add: on_tables_def typed_ok_def journals_typed_def ownership_ok_def payments_owned_def initial_world_def empty_db_def)
  then have "on_tables typed_ok (run ext as initial_world)" unfolding run_def by (rule typed.machine.run_inv)
  then show ?thesis by (simp add: on_tables_def typed_ok_def journals_typed_def)
qed

end
