(* ===== verification/Responses.thy ===== *)
theory Responses
  imports Serving LedgerTypes
begin

text \<open>
  The response models of \<open>services/payment_service/app/api/schemas.py\<close>, each with the JSON object that
  its \<open>model_dump(mode="json")\<close> gives.  No route declares one of them: the routes return dictionaries.  The
  theorem at the end says what is in these dictionaries, field by field: the rows of the database after
  the request.  Where the dictionary has the shape of a model it is written as one; the answer to a
  funding has not the shape of \<open>JournalResponse\<close>.
\<close>

section \<open>Models\<close>

record error_envelope =
  env_error :: "(string \<times> string) list"

record merchant_created =
  mr_merchant_id :: uuid
  mr_api_key :: string

record customer_created =
  cr_customer_id :: uuid
  cr_account_id :: uuid

record payment_response_model =
  pm_payment_id :: uuid
  pm_status :: string
  pm_amount_minor :: int
  pm_currency :: string
  pm_captured_amount_minor :: int
  pm_refunded_amount_minor :: int

record webhook_endpoint_created =
  wr_endpoint_id :: uuid
  wr_signing_secret :: string

record journal_response =
  jr_journal_id :: uuid
  jr_reference_id :: uuid
  jr_entries :: "(string \<times> json) list list"

definition ErrorEnvelope :: "error_envelope \<Rightarrow> json" where
  "ErrorEnvelope r = JObj [(''error'', JObj (map (\<lambda>(k, v). (k, JStr v)) (env_error r)))]"

definition MerchantCreated :: "merchant_created \<Rightarrow> json" where
  "MerchantCreated r = JObj [(''merchant_id'', JStr (uuid_str (mr_merchant_id r))), (''api_key'', JStr (mr_api_key r))]"

definition CustomerCreated :: "customer_created \<Rightarrow> json" where
  "CustomerCreated r = JObj [(''customer_id'', JStr (uuid_str (cr_customer_id r))),
     (''account_id'', JStr (uuid_str (cr_account_id r)))]"

definition PaymentResponse :: "payment_response_model \<Rightarrow> json" where
  "PaymentResponse r = JObj
     [(''payment_id'', JStr (uuid_str (pm_payment_id r))),
      (''status'', JStr (pm_status r)),
      (''amount_minor'', JInt (pm_amount_minor r)),
      (''currency'', JStr (pm_currency r)),
      (''captured_amount_minor'', JInt (pm_captured_amount_minor r)),
      (''refunded_amount_minor'', JInt (pm_refunded_amount_minor r))]"

definition WebhookEndpointCreated :: "webhook_endpoint_created \<Rightarrow> json" where
  "WebhookEndpointCreated r = JObj [(''endpoint_id'', JStr (uuid_str (wr_endpoint_id r))),
     (''signing_secret'', JStr (wr_signing_secret r))]"

definition JournalResponse :: "journal_response \<Rightarrow> json" where
  "JournalResponse r = JObj [(''journal_id'', JStr (uuid_str (jr_journal_id r))),
     (''reference_id'', JStr (uuid_str (jr_reference_id r))), (''entries'', JList (map JObj (jr_entries r)))]"

text \<open>The error body that the service sends, an \<open>ErrorEnvelope\<close> under FastAPI's key \<open>detail\<close>.\<close>

lemma error_detail_envelope:
  "error_detail code message corr = ErrorEnvelope \<lparr>env_error =
     [(''code'', code), (''message'', message), (''correlation_id'', uuid_str corr)]\<rparr>"
  by (simp add: error_detail_def ErrorEnvelope_def)

lemma funding_answer_is_no_JournalResponse: "JObj [(''journal_id'', JStr s)] \<noteq> JournalResponse r"
  by (simp add: JournalResponse_def)

section \<open>What an answer says\<close>

definition payment_answer :: "payment \<Rightarrow> json" where
  "payment_answer p = PaymentResponse
     \<lparr>pm_payment_id = p_id p, pm_status = p_status p, pm_amount_minor = p_amount_minor p, pm_currency = p_currency p,
      pm_captured_amount_minor = captured_amount_minor p, pm_refunded_amount_minor = refunded_amount_minor p\<rparr>"

text \<open>The row of the merchant's payment, in one of the states \<open>sts\<close>.\<close>

definition shows_payment :: "uuid \<Rightarrow> uuid \<Rightarrow> payment_status set \<Rightarrow> db \<Rightarrow> json \<Rightarrow> bool" where
  "shows_payment m pid sts d body \<longleftrightarrow>
     (\<exists>p st. row_at p_id pid (payments d) = Some p \<and> p_merchant_id p = m \<and> p_status p = status_value st \<and> st \<in> sts \<and>
        body = payment_answer p)"

text \<open>A payment as it was when it was created.\<close>

definition newly_created :: "uuid \<Rightarrow> payment \<Rightarrow> bool" where
  "newly_created m q \<longleftrightarrow> p_merchant_id q = m \<and> p_status q \<in> {status_value PENDING, status_value FAILED} \<and>
     captured_amount_minor q = 0 \<and> refunded_amount_minor q = 0"

text \<open>
  \<open>tells ext m req a d d'\<close>: the status and the body \<open>a\<close> of the answer to a request of the merchant \<open>m\<close>
  agree with the tables \<open>d\<close> before and \<open>d'\<close> after the request.
\<close>

fun tells :: "ext \<Rightarrow> uuid \<Rightarrow> request \<Rightarrow> int \<times> json \<Rightarrow> db \<Rightarrow> db \<Rightarrow> bool" where
  "tells ext m (CreateMerchant name level) a d d' \<longleftrightarrow> fst a = 201 \<and>
     (\<exists>r k key. merchants d' = merchants d @ [r] \<and> m_name r = name \<and> m_risk_level r = level \<and>
        api_keys d' = api_keys d @ [k] \<and> k_merchant_id k = m_id r \<and> key_hash k = hash_secret ext key \<and>
        scopes k = merchant_scopes \<and> revoked_at k = None \<and>
        snd a = MerchantCreated \<lparr>mr_merchant_id = m_id r, mr_api_key = key\<rparr>)"
| "tells ext m (CreateCustomer address cur) a d d' \<longleftrightarrow> fst a = 201 \<and>
     (\<exists>c b. customers d' = customers d @ [c] \<and> c_merchant_id c = m \<and> email_str ext address = Some (email c) \<and>
        accounts d' = accounts d @ [b] \<and> a_customer_id b = c_id c \<and> a_currency b = cur \<and>
        snd a = CustomerCreated \<lparr>cr_customer_id = c_id c, cr_account_id = a_id b\<rparr>)"
| "tells ext m (FundAccount account n cur) a d d' \<longleftrightarrow> fst a = 201 \<and>
     (\<exists>j aid. journals d' = journals d @ [j] \<and> path_uuid ext account = Inr aid \<and>
        j_reference j = (''account_funding'', aid) \<and> snd a = JObj [(''journal_id'', JStr (uuid_str (j_id j)))])"
| "tells ext m (CreatePayment key customer n cur) a d d' \<longleftrightarrow> fst a = 201 \<and>
     (\<exists>q. snd a = payment_answer q \<and> newly_created m q \<and>
        (if d' = d then list_ex (advances q) (payments d)
         else payments d' = payments d @ [q] \<and> p_amount_minor q = n \<and> p_currency q = cur))"
| "tells ext m (GetPayment pid) a d d' \<longleftrightarrow> fst a = 200 \<and> d' = d \<and>
     (\<exists>i. path_uuid ext pid = Inr i \<and> shows_payment m i UNIV d (snd a))"
| "tells ext m (Authorize pid) a d d' \<longleftrightarrow> fst a = 200 \<and>
     (\<exists>i. path_uuid ext pid = Inr i \<and> shows_payment m i {AUTHORIZED} d' (snd a))"
| "tells ext m (Capture pid) a d d' \<longleftrightarrow> fst a = 200 \<and>
     (\<exists>i. path_uuid ext pid = Inr i \<and> shows_payment m i {CAPTURED} d' (snd a))"
| "tells ext m (Cancel pid) a d d' \<longleftrightarrow> fst a = 200 \<and>
     (\<exists>i. path_uuid ext pid = Inr i \<and> shows_payment m i {CANCELLED} d' (snd a))"
| "tells ext m (RefundPayment pid n) a d d' \<longleftrightarrow> fst a = 200 \<and>
     (\<exists>i r. path_uuid ext pid = Inr i \<and> shows_payment m i {PARTIALLY_REFUNDED, REFUNDED} d' (snd a) \<and>
        refunds d' = refunds d @ [r] \<and> r_payment_id r = i \<and> r_amount_minor r = n)"
| "tells ext m (RegisterWebhook address types) a d d' \<longleftrightarrow> fst a = 201 \<and>
     (\<exists>e s secret. webhook_endpoints d' = webhook_endpoints d @ [e] \<and> w_merchant_id e = m \<and>
        http_url ext address = Some (url e) \<and> event_types e = types \<and>
        webhook_secrets d' = webhook_secrets d @ [s] \<and> s_endpoint_id s = w_id e \<and> active s \<and>
        s_secret_hash s = hash_secret ext secret \<and>
        snd a = WebhookEndpointCreated \<lparr>wr_endpoint_id = w_id e, wr_signing_secret = secret\<rparr>)"
| "tells ext m (RotateSecret eid) a d d' \<longleftrightarrow> fst a = 200 \<and>
     (\<exists>e s i secret. path_uuid ext eid = Inr i \<and> row_at w_id i (webhook_endpoints d') = Some e \<and> w_merchant_id e = m \<and>
        s = last (webhook_secrets d') \<and> s_endpoint_id s = i \<and> active s \<and> s_secret_hash s = hash_secret ext secret \<and>
        w_secret_hash e = hash_secret ext secret \<and>
        snd a = WebhookEndpointCreated \<lparr>wr_endpoint_id = i, wr_signing_secret = secret\<rparr>)"
| "tells ext m (ReplayDelivery did) a d d' \<longleftrightarrow> fst a = 200 \<and>
     (\<exists>i r e. path_uuid ext did = Inr i \<and> row_at d_id i (webhook_deliveries d') = Some r \<and>
        row_at w_id (d_endpoint_id r) (webhook_endpoints d') = Some e \<and> w_merchant_id e = m \<and>
        snd a = JObj [(''delivery_id'', JStr (uuid_str (d_id r))), (''status'', JStr (d_status r))])"

section \<open>The answers stored for replay\<close>

lemma payment_response_answer: "payment_response p = payment_answer p"
  by (simp add: payment_response_def payment_answer_def PaymentResponse_def)

definition record_ok :: "payment list \<Rightarrow> idempotency_record \<Rightarrow> bool" where
  "record_ok ps r \<longleftrightarrow> (\<forall>b. response_body r = Some b \<longrightarrow> response_status r = Some 201 \<and>
     (\<exists>q. b = payment_answer q \<and> newly_created (i_merchant_id r) q \<and> list_ex (advances q) ps))"

definition stored_ok :: "db \<Rightarrow> bool" where
  "stored_ok d \<longleftrightarrow> books_ok d \<and> list_all (record_ok (payments d)) (idempotency_records d)"

lemma list_ex_advances: "keeps_payments ps qs \<Longrightarrow> list_ex (advances q) ps \<Longrightarrow> list_ex (advances q) qs"
  using advances_trans by (fastforce simp: keeps_payments_def list_all_iff list_ex_iff)

lemma record_ok_kept: "keeps_payments ps qs \<Longrightarrow> record_ok ps r \<Longrightarrow> record_ok qs r"
  using list_ex_advances unfolding record_ok_def by blast

lemma stored_ok_kept:
  "stored_ok d \<Longrightarrow> payments_kept (payments d) d' \<Longrightarrow> idempotency_records d' = idempotency_records d \<Longrightarrow> stored_ok d'"
  using record_ok_kept by (auto simp: stored_ok_def payments_kept_def list_all_iff)

lemma payments_kept_self: "books_ok d \<Longrightarrow> payments_kept (payments d) d"
  by (simp add: payments_kept_def keeps_payments_refl)

text \<open>The transactions that leave the records alone.\<close>

lemma stored_ok_frame:
  assumes "stored_ok (tables w)" and "wp s (\<lambda>_ v. payments_kept (payments (tables w)) (tables v)) (\<lambda>_ _. True) w"
    and "frames (\<lambda>w. idempotency_records (tables w)) s"
  shows "wp s (\<lambda>_ v. stored_ok (tables v)) (\<lambda>_ _. True) w"
  by (rule wp_with_frame [OF assms(2,3)]) (use assms(1) stored_ok_kept in auto)

lemma newly_created_payment:
  "st \<in> {PENDING, FAILED} \<Longrightarrow> newly_created m (new_payment i m req st t t')"
  by (auto simp: newly_created_def new_payment_def)

text \<open>The creation of a payment completes one record.\<close>

lemma persist_payment_records_ok:
  assumes ok: "list_all (record_ok (payments (tables w))) (idempotency_records (tables w))" and "i_merchant_id record = mid"
  shows "wp (persist_payment ext mid req record risk corr)
    (\<lambda>_ v. list_all (record_ok (payments (tables v))) (idempotency_records (tables v))) (\<lambda>_ _. True) w"
proof -
  have old: "record_ok (payments (tables w) @ [q]) r" if "r \<in> set (idempotency_records (tables w))" for q r
    using ok that record_ok_kept [OF keeps_payments_append [OF keeps_payments_refl]] by (auto simp: list_all_iff)
  then have old_all: "list_all (record_ok (payments (tables w) @ [q])) (idempotency_records (tables w))" for q
    by (simp add: list_all_iff)
  have new: "record_ok (ps @ [new_payment i mid req st t t']) (r\<lparr>response_status := Some 201,
      response_body := Some (payment_response (new_payment i mid req st t t')), resource_id := Some i\<rparr>)"
    if "st \<in> {PENDING, FAILED}" "i_pk r = i_pk record" for ps i st t t' r
    using that assms(2) newly_created_payment [OF that(1), of mid i req t t'] advances_refl
    by (auto simp: record_ok_def payment_response_answer i_pk_def)
  have all: "list_all (record_ok (payments (tables w) @ [new_payment i mid req st t t']))
      (row_set i_pk (i_pk record) (\<lambda>r. r\<lparr>response_status := Some 201,
        response_body := Some (payment_response (new_payment i mid req st t t')), resource_id := Some i\<rparr>)
        (idempotency_records (tables w)))" if "st \<in> {PENDING, FAILED}" for i st t t'
    using old new [OF that] by (auto simp: list_all_iff row_set_def)
  show ?thesis
    unfolding persist_payment_def Let_def fresh_id_def now_def insert_payment_def complete_idempotency_def
    by (auto simp: wp_simps all old_all split: option.split intro!: append_outbox_rule append_audit_rule)
qed

lemma create_payment_records_ok:
  assumes ok: "list_all (record_ok (payments (tables w))) (idempotency_records (tables w))"
  shows "wp (create_payment ext mid req key corr)
    (\<lambda>_ v. list_all (record_ok (payments (tables v))) (idempotency_records (tables v))) (\<lambda>_ _. True) w"
proof -
  have mine: "i_merchant_id r = mid"
    if "row_at i_pk (key, mid) (idempotency_records (tables w)) = Some r \<or> i_pk r = (key, mid)" for r
    using that row_at_SomeD [of i_pk "(key, mid)" _ r] by (auto simp: i_pk_def)
  have blank: "record_ok ps r" if "response_body r = None" for ps r
    using that by (simp add: record_ok_def)
  show ?thesis
    unfolding create_payment_def Let_def
    by (clarsimp simp: wp_simps)
      (rule claim_idempotency_spec,
       auto simp: wp_simps ok blank mine intro!: persist_payment_records_ok
         split: option.split sum.split exn.split)
qed

interpretation stored: transaction_invariant ext stored_ok for ext
proof unfold_locales
  fix w :: world and mid preq key corr
  assume "stored_ok (tables w)"
  then have ok: "books_ok (tables w)" "list_all (record_ok (payments (tables w))) (idempotency_records (tables w))"
    by (simp_all add: stored_ok_def)
  show "wp (create_payment ext mid preq key corr) (\<lambda>_ v. stored_ok (tables v)) (\<lambda>_ _. True) w"
    if "0 < pr_amount_minor preq"
    unfolding stored_ok_def by (rule wp_both [OF books.tx_create_payment [OF ok(1) that] create_payment_records_ok [OF ok(2)]])
qed (rule stored_ok_frame, assumption, rule payments.transactions, simp add: stored_ok_def payments_kept_self,
  rule frames_mono, rule frame_rules, simp)+

lemma run_stored_ok: "stored_ok (tables (run ext as initial_world))"
proof -
  have "on_tables stored_ok initial_world"
    using books_ok_empty by (simp add: on_tables_def stored_ok_def initial_world_def) (simp add: empty_db_def)
  then have "on_tables stored_ok (run ext as initial_world)"
    unfolding run_def by (rule stored.machine.run_inv)
  then show ?thesis by (simp add: on_tables_def)
qed

section \<open>The operations\<close>

lemma create_merchant_tells:
  "wp (create_merchant ext mreq corr)
     (\<lambda>b v. tells ext m (CreateMerchant (mc_name mreq) (mc_risk_level mreq)) (201, b) (tables w) (tables v)) (\<lambda>_ _. True) w"
  unfolding create_merchant_def fresh_id_def now_def insert_merchant_def insert_api_key_def
  by (auto simp: wp_simps generate_api_key_def Let_def MerchantCreated_def split: prod.split intro!: append_audit_rule)

lemma create_customer_tells:
  assumes "CustomerCreate ext address cur = Inr creq"
  shows "wp (create_customer ext m creq corr)
     (\<lambda>b v. tells ext m (CreateCustomer address cur) (201, b) (tables w) (tables v)) (\<lambda>_ _. True) w"
proof -
  have "email_str ext address = Some (cc_email creq)" "currency_value (cc_currency creq) = cur"
    using assms by (auto simp: CustomerCreate_def currency_of_Some split: option.splits)
  then show ?thesis
    unfolding create_customer_def fresh_id_def now_def insert_customer_def insert_account_def
    by (auto simp: wp_simps CustomerCreated_def intro!: append_audit_rule)
qed

lemma fund_account_tells:
  assumes "books_ok (tables w)" and "path_uuid ext account = Inr aid"
  shows "wp (fund_account ext m aid freq corr)
     (\<lambda>b v. tells ext m (FundAccount account n cur) (201, b) (tables w) (tables v)) (\<lambda>_ _. True) w"
  by (rule wp_weaken [OF wp_and [OF fund_account_effect [OF assms(1)] fund_account_posting]])
    (use assms(2) in \<open>auto simp: fund_done_def journaled_def\<close>)

lemma shows_paymentI:
  "row_at p_id pid (payments d) = Some p \<Longrightarrow> p_merchant_id p = m \<Longrightarrow> p_status p = status_value st \<Longrightarrow> st \<in> sts \<Longrightarrow>
     body = payment_response p \<Longrightarrow> shows_payment m pid sts d body"
  unfolding shows_payment_def payment_response_answer by blast

lemma put_shows_payment:
  assumes "books_ok d" and "payment_for_update pid m d = Some p" and "payments d' = put_payment q (payments d)"
    and "p_id q = p_id p" and "p_merchant_id q = p_merchant_id p" and "p_status q = status_value st" and "st \<in> sts"
  shows "shows_payment m pid sts d' (payment_response q)"
proof -
  have "row_at p_id pid (payments d') = Some q" unfolding assms(3) by (rule row_put_payment [OF assms(1,2,4)])
  then show ?thesis using payment_for_update_SomeD [OF assms(2)] assms(5-7) by (intro shows_paymentI) simp_all
qed

lemma payment_effects_show:
  assumes "books_ok d"
  shows "authorize_done ext m pid corr d (Inr body) d' \<Longrightarrow> shows_payment m pid {AUTHORIZED} d' body"
    and "capture_done ext m pid corr d body d' \<Longrightarrow> shows_payment m pid {CAPTURED} d' body"
    and "cancel_done ext m pid corr d body d' \<Longrightarrow> shows_payment m pid {CANCELLED} d' body"
    and "refund_done ext m pid n corr d body d' \<Longrightarrow> shows_payment m pid {PARTIALLY_REFUNDED, REFUNDED} d' body \<and>
      (\<exists>r. refunds d' = refunds d @ [r] \<and> r_payment_id r = pid \<and> r_amount_minor r = n)"
proof -
  note put = put_shows_payment [OF assms]
  show "authorize_done ext m pid corr d (Inr body) d' \<Longrightarrow> shows_payment m pid {AUTHORIZED} d' body"
    by (auto simp: authorize_done_def split: if_splits intro: put simp: payment_identity with_payment_status_def)
  show "capture_done ext m pid corr d body d' \<Longrightarrow> shows_payment m pid {CAPTURED} d' body"
    by (auto simp: capture_done_def captured_def intro: put)
  show "cancel_done ext m pid corr d body d' \<Longrightarrow> shows_payment m pid {CANCELLED} d' body"
    by (auto simp: cancel_done_def with_payment_status_def intro: put)
  show "shows_payment m pid {PARTIALLY_REFUNDED, REFUNDED} d' body \<and>
      (\<exists>r. refunds d' = refunds d @ [r] \<and> r_payment_id r = pid \<and> r_amount_minor r = n)"
    if eff: "refund_done ext m pid n corr d body d'"
  proof -
    obtain p r where p: "payment_for_update pid m d = Some p" "payments d' = put_payment (refunded p n) (payments d)"
        "body = payment_response (refunded p n)" "refunds d' = refunds d @ [r]" "r_payment_id r = pid" "r_amount_minor r = n"
      using eff unfolding refund_done_def by blast
    have "p_status (refunded p n) = status_value (refund_status (refunded_amount_minor p + n) (captured_amount_minor p))"
      by (simp add: refunded_def)
    then have "shows_payment m pid {PARTIALLY_REFUNDED, REFUNDED} d' body"
      unfolding p(3) by (rule put [OF p(1,2)  payment_identity(4,5)]) (simp add: refund_status_def)
    then show ?thesis using p(4-6) by blast
  qed
qed

lemma register_webhook_tells:
  assumes "WebhookEndpointCreate ext address types = Inr wreq"
  shows "wp (register_webhook ext m wreq corr)
     (\<lambda>b v. tells ext m (RegisterWebhook address types) (201, b) (tables w) (tables v)) (\<lambda>_ _. True) w"
proof -
  have "http_url ext address = Some (wc_url wreq)" "wc_event_types wreq = types"
    using assms by (auto simp: WebhookEndpointCreate_def split: option.splits)
  then show ?thesis
    by (intro wp_weaken [OF register_webhook_effect])
      (fastforce simp: registered_def fresh_secret_def WebhookEndpointCreated_def)
qed

lemma rotate_webhook_secret_tells:
  assumes "secrets_ok (tables w)" and "path_uuid ext eid = Inr i"
  shows "wp (rotate_webhook_secret ext m i corr)
     (\<lambda>b v. tells ext m (RotateSecret eid) (200, b) (tables w) (tables v)) (\<lambda>_ _. True) w"
proof (rule wp_weaken [OF rotate_webhook_secret_effect [OF assms(1)]])
  fix b and v :: world
  assume "rotated ext m i (tables w) b (tables v)"
  then obtain e s t secret where r: "b = JObj [(''endpoint_id'', JStr (uuid_str i)), (''signing_secret'', JStr secret)]"
      "row_at w_id i (webhook_endpoints (tables w)) = Some e" "w_merchant_id e = m"
      "fresh_secret ext i (latest_version (tables w) i + 1) secret s"
      "webhook_endpoints (tables v) = row_set w_id i (\<lambda>e. e\<lparr>w_secret_hash := hash_secret ext secret\<rparr>) (webhook_endpoints (tables w))"
      "last (webhook_secrets (tables v)) = s"
    unfolding rotated_def by (metis last_snoc)
  then have "row_at w_id i (webhook_endpoints (tables v)) = Some (e\<lparr>w_secret_hash := hash_secret ext secret\<rparr>)"
    by (simp add: row_at_row_set)
  then show "tells ext m (RotateSecret eid) (200, b) (tables w) (tables v)"
    using r assms(2) by (simp add: fresh_secret_def WebhookEndpointCreated_def)
qed

lemma replay_delivery_tells:
  assumes "path_uuid ext did = Inr i"
  shows "wp (replay_delivery ext m i corr)
     (\<lambda>b v. tells ext m (ReplayDelivery did) (200, b) (tables w) (tables v)) (\<lambda>_ _. True) w"
  unfolding replay_delivery_def update_delivery_def
  by (auto simp: wp_simps assms row_at_row_set split: option.split intro!: append_audit_rule dest: row_at_SomeD)

lemma create_payment_tells:
  assumes ok: "stored_ok (tables w)" and "PaymentCreate ext customer n cur = Inr req"
  shows "wp (create_payment ext m req key corr)
     (\<lambda>a v. tells ext m (CreatePayment header customer n cur) a (tables w) (tables v)) (\<lambda>_ _. True) w"
proof (rule wp_weaken [OF create_payment_effect])
  have req: "pr_amount_minor req = n" "currency_value (pr_currency req) = cur"
    using assms(2) by (auto simp: PaymentCreate_def currency_of_Some split: option.splits if_splits)
  fix a and v :: world
  assume e: "create_done ext m req key corr (tables w) a (tables v)"
  then consider "stored_answer ext m req key a (tables w)" "tables v = tables w"
    | i st t t' where "fst a = 201" "st \<in> {PENDING, FAILED}"
        "payments (tables v) = payments (tables w) @ [new_payment i m req st t t']"
        "snd a = payment_response (new_payment i m req st t t')"
    unfolding create_done_def by blast
  then show "tells ext m (CreatePayment header customer n cur) a (tables w) (tables v)"
  proof cases
    case 1
    then obtain r where r: "row_at i_pk (key, m) (idempotency_records (tables w)) = Some r"
        "response_status r = Some (fst a)" "response_body r = Some (snd a)"
      by (auto simp: stored_answer_def split: option.splits)
    then have "record_ok (payments (tables w)) r" "i_merchant_id r = m"
      using ok row_at_SomeD [OF r(1)] by (auto simp: stored_ok_def list_all_iff i_pk_def)
    then show ?thesis using r(2,3) 1(2) by (auto simp: record_ok_def)
  next
    case 2
    then have "tables v \<noteq> tables w" by auto
    moreover have "p_amount_minor (new_payment i m req st t t') = n" "p_currency (new_payment i m req st t t') = cur"
      using req by (simp_all add: new_payment_def)
    ultimately show ?thesis
      using 2 newly_created_payment [OF 2(2), of m i req t t'] by (auto simp: payment_response_answer)
  qed
qed

section \<open>The routes\<close>

text \<open>The answer is about the merchant whose key the request came with.\<close>

definition answered_with :: "ext \<Rightarrow> string option \<Rightarrow> request \<Rightarrow> db \<Rightarrow> int \<times> json \<Rightarrow> db \<Rightarrow> bool" where
  "answered_with ext auth req d a d' \<longleftrightarrow>
     (\<exists>m. (open_request req \<or> (\<exists>p. caller ext auth d = Some p \<and> pl_merchant_id p = m)) \<and> tells ext m req a d d')"

lemma wp_answered:
  "caller ext auth d = Some p \<Longrightarrow> wp s (\<lambda>b v. tells ext (pl_merchant_id p) req (f b) d (tables v)) (\<lambda>_ _. True) w \<Longrightarrow>
     wp s (\<lambda>b v. answered_with ext auth req d (f b) (tables v)) (\<lambda>_ _. True) w"
  by (erule wp_mono) (auto simp: answered_with_def)

lemma wp_answered_transaction:
  assumes "caller ext auth (tables w) = Some p"
    and "wp s (\<lambda>b v. tells ext (pl_merchant_id p) req (f b) (tables (w\<lparr>deferred := []\<rparr>)) (tables v)) (\<lambda>_ _. True) (w\<lparr>deferred := []\<rparr>)"
  shows "wp (atomically s) (\<lambda>b v. answered_with ext auth req (tables w) (f b) (tables v)) (\<lambda>_ _. True) w"
  by (intro wp_answered [OF assms(1)] wp_transaction) (use assms(2) in simp)

lemma authorize_route_tells:
  assumes "books_ok (tables w)"
  shows "wp (authorize_route ext corr auth pid)
    (\<lambda>b v. answered_with ext auth (Authorize pid) (tables w) (200, b) (tables v)) (\<lambda>_ _. True) w"
proof -
  have "wp (bind_op (atomically (authorize_block ext (pl_merchant_id p) i corr)) (\<lambda>r. lift_sum (persisted_answer corr r)))
      (\<lambda>b v. tells ext (pl_merchant_id p) (Authorize pid) (200, b) (tables w) (tables v)) (\<lambda>_ _. True) w"
    if "path_uuid ext pid = Inr i" for p i
    unfolding wp_bind
  proof (rule wp_weaken [OF wp_transaction [OF authorize_block_effect]])
    fix r and v :: world
    assume e: "authorize_done ext (pl_merchant_id p) i corr (tables (w\<lparr>deferred := []\<rparr>)) r (tables v)"
    have "shows_payment (pl_merchant_id p) i {AUTHORIZED} (tables v) b" if "persisted_answer corr r = Inr b" for b
    proof -
      have "r = Inr b" using that by (auto simp: persisted_answer_def split: sum.splits exn.splits)
      then show ?thesis using payment_effects_show(1) [OF assms] e by simp
    qed
    then show "wp (lift_sum (persisted_answer corr r))
      (\<lambda>b v. tells ext (pl_merchant_id p) (Authorize pid) (200, b) (tables w) (tables v)) (\<lambda>_ _. True) v"
      using \<open>path_uuid ext pid = Inr i\<close> by (simp add: wp_simps split: sum.split)
  qed (use assms in simp)
  then show ?thesis
    unfolding authorize_route_def by (intro wp_caller wp_valid wp_answered)
qed

lemma get_payment_route_tells:
  assumes "books_ok (tables w)"
  shows "wp (get_payment_route ext corr auth pid)
    (\<lambda>b v. answered_with ext auth (GetPayment pid) (tables w) (200, b) (tables v)) (\<lambda>_ _. True) w"
proof -
  have "shows_payment m i UNIV (tables w) (payment_response q)"
    if row: "row_at p_id i (payments (tables w)) = Some q" and "p_merchant_id q = m" for m q i
  proof -
    obtain st where "p_status q = status_value st"
      using assms row_at_SomeD [OF row] by (auto simp: books_ok_def payment_ok_def status_of_Some split: option.splits)
    with that show ?thesis by (blast intro: shows_paymentI)
  qed
  then show ?thesis
    unfolding get_payment_route_def
    by (intro wp_caller wp_valid wp_answered) (auto simp: wp_simps split: option.split)
qed

lemma payment_operations_tell:
  assumes "books_ok (tables w)" and "path_uuid ext pid = Inr i"
  shows "wp (capture_payment ext m i corr) (\<lambda>b v. tells ext m (Capture pid) (200, b) (tables w) (tables v)) (\<lambda>_ _. True) w"
    and "wp (cancel_payment ext m i corr) (\<lambda>b v. tells ext m (Cancel pid) (200, b) (tables w) (tables v)) (\<lambda>_ _. True) w"
    and "wp (refund_payment ext m i rreq corr)
      (\<lambda>b v. tells ext m (RefundPayment pid (rr_amount_minor rreq)) (200, b) (tables w) (tables v)) (\<lambda>_ _. True) w"
  by (rule wp_weaken, (rule capture_payment_effect cancel_payment_effect refund_payment_effect, rule assms(1)),
    (use assms(2) in \<open>auto dest: payment_effects_show [OF assms(1)]\<close>))+

lemma refund_payment_tells:
  assumes "books_ok (tables w)" and "path_uuid ext pid = Inr i" and "RefundRequest n = Inr rreq"
  shows "wp (refund_payment ext m i rreq corr)
    (\<lambda>b v. tells ext m (RefundPayment pid n) (200, b) (tables w) (tables v)) (\<lambda>_ _. True) w"
proof -
  have "rr_amount_minor rreq = n" using assms(3) by (auto simp: RefundRequest_def split: if_splits)
  then show ?thesis using payment_operations_tell(3) [OF assms(1,2), of m rreq corr] by simp
qed

lemma route_tells:
  assumes ok: "stored_ok (tables w)" "secrets_ok (tables w)"
  shows "wp (route ext corr auth req) (\<lambda>a v. answered_with ext auth req (tables w) a (tables v)) (\<lambda>_ _. True) w"
proof -
  have books: "books_ok (tables w)" using ok(1) by (simp add: stored_ok_def)
  have merchant: "wp (create_merchant_route ext corr name level)
      (\<lambda>b v. answered_with ext auth (CreateMerchant name level) (tables w) (201, b) (tables v)) (\<lambda>_ _. True) w" for name level
  proof -
    have "mc_name r = name \<and> mc_risk_level r = level" if "MerchantCreate name level = Inr r" for r
      using that by (auto simp: MerchantCreate_def split: if_splits)
    then show ?thesis
      unfolding create_merchant_route_def answered_with_def
      by (intro wp_valid wp_transaction wp_weaken [OF create_merchant_tells]) auto
  qed
  have scoped: "wp (bind_op (require_api_key ext corr auth) (\<lambda>p. bind_op (lift_sum r) (\<lambda>x.
        bind_op (lift_sum (require_scope p s corr)) (\<lambda>_. atomically (f p x)))))
      (\<lambda>b v. answered_with ext auth req (tables w) (g b) (tables v)) (\<lambda>_ _. True) w"
    if "\<And>p x u. r = Inr x \<Longrightarrow> tables u = tables w \<Longrightarrow>
      wp (f p x) (\<lambda>b v. tells ext (pl_merchant_id p) req (g b) (tables u) (tables v)) (\<lambda>_ _. True) u" for r s f g req
    by (intro wp_caller wp_valid wp_answered_transaction) (use that in auto)
  show ?thesis
  proof (cases req)
    case (CreateMerchant name level)
    then show ?thesis by (simp add: wp_status merchant)
  next
    case (CreateCustomer address cur)
    show ?thesis
      unfolding CreateCustomer route.simps wp_status create_customer_route_def
      by (rule_tac scoped) (rule create_customer_tells)
  next
    case (FundAccount account n cur)
    show ?thesis
      unfolding FundAccount route.simps wp_status fund_account_route_def
      apply (intro wp_caller wp_valid wp_answered_transaction, assumption)
      apply (rule fund_account_tells)
       apply (simp_all add: books)
      done
  next
    case (CreatePayment key customer n cur)
    show ?thesis
      unfolding CreatePayment route.simps create_payment_route_def
      apply (intro wp_caller wp_valid wp_answered_transaction, assumption)
      apply (rule create_payment_tells)
       apply (simp_all add: ok(1))
      done
  next
    case (GetPayment pid)
    then show ?thesis by (simp add: wp_status get_payment_route_tells books)
  next
    case (Authorize pid)
    then show ?thesis by (simp add: wp_status authorize_route_tells books)
  next
    case (Capture pid)
    show ?thesis
      unfolding Capture route.simps wp_status capture_route_def
      by (rule_tac scoped) (rule payment_operations_tell, simp_all add: books)
  next
    case (Cancel pid)
    show ?thesis
      unfolding Cancel route.simps wp_status cancel_route_def
      by (rule_tac scoped) (rule payment_operations_tell, simp_all add: books)
  next
    case (RefundPayment pid n)
    show ?thesis
      unfolding RefundPayment route.simps wp_status refund_route_def
      apply (intro wp_caller wp_valid wp_answered_transaction, assumption)
      apply (rule refund_payment_tells)
        apply (simp_all add: books)
      done
  next
    case (RegisterWebhook address types)
    show ?thesis
      unfolding RegisterWebhook route.simps wp_status register_webhook_route_def
      by (rule_tac scoped) (rule register_webhook_tells)
  next
    case (RotateSecret eid)
    show ?thesis
      unfolding RotateSecret route.simps wp_status rotate_webhook_secret_route_def
      by (rule_tac scoped) (rule rotate_webhook_secret_tells, simp_all add: ok(2))
  next
    case (ReplayDelivery did)
    show ?thesis
      unfolding ReplayDelivery route.simps wp_status replay_webhook_delivery_route_def
      by (rule_tac scoped) (rule replay_delivery_tells)
  qed
qed

text \<open>
  C17: the answers tell the truth about the database.  In any reachable database a request that succeeds
  has the status code of its route, and every field of its body is that of a row of the caller's merchant
  after the request: the payment routes answer with id, status, amount, currency, captured and refunded
  amount of the stored payment, in the state the route leads to; a creation with the new payment, or on
  replay with an existing one as it was created; the other creations with the identifiers of the rows they
  added and with the API key or signing secret whose hash was stored; a funding with the journal it posted;
  a rotation with the secret now active; a replay with the delivery that is pending again.
\<close>

theorem answers_tell_the_database:
  assumes "serve ext raw auth req (run ext as initial_world) = (Inr a, w')"
  shows "\<exists>m. (open_request req \<or> (\<exists>p. caller ext auth (tables (run ext as initial_world)) = Some p \<and> pl_merchant_id p = m)) \<and>
    tells ext m req a (tables (run ext as initial_world)) (tables w')"
proof -
  let ?w = "run ext as initial_world"
  have ok: "stored_ok (tables ?w)" "secrets_ok (tables ?w)"
    using run_stored_ok run_tenancy_ok by (simp_all add: tenancy_ok_def)
  have "wp (serve ext raw auth req) (\<lambda>a v. answered_with ext auth req (tables ?w) a (tables v)) (\<lambda>_ _. True) ?w"
  proof (rule wp_serve)
    fix corr and v :: world
    assume "tables v = tables ?w"
    then show "wp (route ext corr auth req) (\<lambda>a v. answered_with ext auth req (tables ?w) a (tables v)) (\<lambda>_ _. True) v"
      using route_tells [of v ext corr auth req] ok by simp
  qed
  with assms have "answered_with ext auth req (tables ?w) a (tables w')" by (rule serve_result)
  then show ?thesis by (simp add: answered_with_def)
qed

text \<open>A merchant's first contact: the answer carries its id and the key whose hash was stored.\<close>

lemma sample_merchant:
  "fst (serve sample_ext None None (CreateMerchant ''A'' 1) (run sample_ext [] initial_world)) =
     Inr (201, JObj [(''merchant_id'', JStr (uuid_str 2)), (''api_key'', JStr ''fg_test_token'')])"
  by (simp add: run_def serve_def correlation_id_of_def create_merchant_route_def with_status_def
      MerchantCreate_def create_merchant_def generate_api_key_def sample_run)

lemma answers_tell_the_database_witness:
  "\<exists>w' :: world. \<exists>r k. merchants (tables w') = [r] \<and> api_keys (tables w') = [k] \<and> m_name r = ''A'' \<and> m_risk_level r = 1 \<and>
     key_hash k = hash_secret sample_ext ''fg_test_token'' \<and> revoked_at k = None \<and> k_merchant_id k = m_id r"
proof -
  obtain w' where "serve sample_ext None None (CreateMerchant ''A'' 1) (run sample_ext [] initial_world) =
     (Inr (201, JObj [(''merchant_id'', JStr (uuid_str 2)), (''api_key'', JStr ''fg_test_token'')]), w')"
    using ran [OF sample_merchant] ..
  from answers_tell_the_database [OF this] show ?thesis
    by (auto simp: run_def initial_world_def empty_db_def MerchantCreated_def)
qed

end
