(* ===== verification/Refusals.thy ===== *)
theory Refusals
  imports Serving Tenants ReadBack
begin

text \<open>
  Two refusals as the client sees them: another payload under a used idempotency key, and a second
  funding of an account.
\<close>

section \<open>Idempotency conflicts\<close>

lemma wp_create_payment_route:
  "wp (create_payment_route ext corr auth (Some key) customer n cur)
     (\<lambda>a v. \<exists>p req. caller ext auth (tables w) = Some p \<and> PaymentCreate ext customer n cur = Inr req \<and>
        stored_answer ext (pl_merchant_id p) req key a (tables v)) (\<lambda>_ _. True) w"
  unfolding create_payment_route_def
  by (intro wp_caller wp_valid wp_transaction wp_weaken [OF create_payment_stores]) (auto simp: required_header_def)

lemma serve_create_stores:
  assumes "serve ext raw auth (CreatePayment (Some key) customer n cur) w = (Inr a, w1)"
  obtains p req where "caller ext auth (tables w) = Some p" "PaymentCreate ext customer n cur = Inr req"
    "stored_answer ext (pl_merchant_id p) req key a (tables w1)"
proof -
  have "wp (serve ext raw auth (CreatePayment (Some key) customer n cur))
     (\<lambda>a v. \<exists>p req. caller ext auth (tables w) = Some p \<and> PaymentCreate ext customer n cur = Inr req \<and>
        stored_answer ext (pl_merchant_id p) req key a (tables v)) (\<lambda>_ _. True) w"
    by (rule wp_serve, simp only: route.simps) (rule wp_weaken [OF wp_create_payment_route], simp)
  with assms have "\<exists>p req. caller ext auth (tables w) = Some p \<and> PaymentCreate ext customer n cur = Inr req \<and>
        stored_answer ext (pl_merchant_id p) req key a (tables w1)"
    by (rule serve_result)
  then show thesis using that by blast
qed

text \<open>
  C13: an idempotency key belongs to one payload.  Once \<open>POST /api/v1/payments\<close> was answered under a key,
  then after any further requests and worker rounds the same merchant's \<open>POST\<close> under that key with another
  payload is answered with status 409 and the code IDEMPOTENCY_CONFLICT, and changes no table.  The premises
  on the fingerprints say that the hash tells the two payloads apart and that its digest fits the column.
\<close>

theorem idempotency_conflict:
  assumes "serve ext raw auth (CreatePayment (Some key) customer n cur) w = (Inr a, w1)"
    and "caller ext auth (tables w) = Some p" and "PaymentCreate ext customer n cur = Inr req"
    and "caller ext auth' (tables (run ext' as w1)) = Some p'" and "pl_merchant_id p' = pl_merchant_id p"
    and "''payments:write'' \<in> set (pl_scopes p')" and "correlation_ok raw'"
    and "PaymentCreate ext customer' n' cur' = Inr req'"
    and "canonical_fingerprint ext (payment_request_dump req') \<noteq> canonical_fingerprint ext (payment_request_dump req)"
    and "length (canonical_fingerprint ext (payment_request_dump req')) \<le> 64"
  shows "\<exists>corr v. serve ext raw' auth' (CreatePayment (Some key) customer' n' cur') (run ext' as w1) =
      (Inl (HTTPException 409 ''IDEMPOTENCY_CONFLICT'' ''same idempotency key used with a different payload'' corr), v) \<and>
    http_status (fst (serve ext raw' auth' (CreatePayment (Some key) customer' n' cur') (run ext' as w1))) = 409 \<and>
    tables v = tables (run ext' as w1)"
proof -
  let ?v = "run ext' as w1" and ?conflict = "\<lambda>e. \<exists>corr. e = HTTPException 409 ''IDEMPOTENCY_CONFLICT''
    ''same idempotency key used with a different payload'' corr"
  have "stored_answer ext (pl_merchant_id p) req key a (tables w1)"
    by (rule serve_create_stores [OF assms(1)]) (use assms(2,3) in simp)
  then have stored: "stored_answer ext (pl_merchant_id p') req key a (tables ?v)"
    using stored_answer_run assms(5) by simp
  have "wp (create_payment ext (pl_merchant_id p') req' key corr) (\<lambda>_ _. False)
      (\<lambda>e _. e = BusinessError ''IDEMPOTENCY_CONFLICT'' ''same idempotency key used with a different payload'')
      (u\<lparr>deferred := []\<rparr>)" if "tables u = tables ?v" for corr u
    using create_payment_conflict [of ext "pl_merchant_id p'" req key a "u\<lparr>deferred := []\<rparr>" req' corr] stored assms(9,10) that
    by (simp add: varchar_def)
  note fails = wp_transaction_fails [OF this]
  have "wp (create_payment_route ext corr auth' (Some key) customer' n' cur') (\<lambda>_ _. False)
      (\<lambda>e u'. ?conflict (handle_exception corr e) \<and> tables u' = tables u) u" if "tables u = tables ?v" for corr u
    unfolding create_payment_route_def
    using assms(4,6,8) that wp_mono [OF fails [OF that]]
    by (simp add: wp_bind wp_require_api_key require_scope_def wp_simps required_header_def business_error_handler_def
        api_error_def)
  then obtain e v where "serve ext raw' auth' (CreatePayment (Some key) customer' n' cur') ?v = (Inl e, v)"
      "?conflict e" "tables v = tables ?v"
    by (rule_tac wp_serve_fails [OF assms(7), of ?v ext auth' "CreatePayment (Some key) customer' n' cur'" ?conflict]) auto
  then show ?thesis by auto
qed

text \<open>Requests of the sample merchant, with a correlation id of its own.\<close>

lemma sample_caller:
  "api_keys d = api_keys shop_db \<Longrightarrow>
     caller sample_ext (Some ''Bearer fg_test_token'') d = Some \<lparr>pl_merchant_id = 1, pl_scopes = merchant_scopes\<rparr>"
  by (simp add: caller_def shop_db_def hash_secret_def sample_ext_def startswith_def removeprefix_def
      strip_def strip_chars_def is_space_def)

lemma uuid_str_nonempty: "uuid_str u \<noteq> []"
  by (metis length_uuid_str list.size(3) zero_neq_numeral)

lemma sample_currency: "currency_of ''EUR'' = Some EUR"
  by (simp add: currency_of_Some enum_value_simps)

lemma serve_given:
  assumes "wp (route ext corr auth req) (\<lambda>b v. b = a \<and> v = w1) (\<lambda>_ _. False) w"
  shows "serve ext (Some (uuid_str corr)) auth req w = (Inr a, w1)"
  using assms
  by (auto simp: wp_def serve_def correlation_id_of_def UUID_def uuid_parse_uuid_str bind_op_def catch_op_def
      lift_sum_def uuid_str_nonempty split: prod.splits sum.splits)

lemma serve_create:
  assumes "caller ext auth (tables w) = Some p" and "''payments:write'' \<in> set (pl_scopes p)"
    and "PaymentCreate ext customer n cur = Inr req"
    and "atomically (create_payment ext (pl_merchant_id p) req key corr) w = (Inr a, w1)"
  shows "serve ext (Some (uuid_str corr)) auth (CreatePayment (Some key) customer n cur) w = (Inr a, w1)"
  using assms
  by (intro serve_given)
    (simp add: create_payment_route_def wp_bind wp_require_api_key require_scope_def wp_simps required_header_def, simp add: wp_def)

lemma serve_fund:
  assumes "caller ext auth (tables w) = Some p" and "''payments:write'' \<in> set (pl_scopes p)"
    and "FundAccountRequest n cur = Inr req"
    and "atomically (fund_account ext (pl_merchant_id p) aid req corr) w = (Inr body, w1)"
  shows "serve ext (Some (uuid_str corr)) auth (FundAccount (uuid_str aid) n cur) w = (Inr (201, body), w1)"
  using assms
  by (intro serve_given)
    (simp add: fund_account_route_def with_status_def wp_bind wp_require_api_key require_scope_def wp_simps path_uuid_str,
     simp add: wp_def ret_def)

lemma idempotency_conflict_witness:
  "\<exists>w1. http_status (fst (serve sample_ext None (Some ''Bearer fg_test_token'')
     (CreatePayment (Some ''order-1'') (uuid_str 3) 7 ''EUR'') w1)) = 409"
proof -
  let ?auth = "Some ''Bearer fg_test_token''" and ?p = "\<lparr>pl_merchant_id = 1, pl_scopes = merchant_scopes\<rparr>"
  obtain w1 where w1: "atomically (create_payment sample_ext 1 sample_request ''order-1'' 7) shop_world =
      (Inr (201, payment_response (new_payment 101 1 sample_request PENDING 102 103)), w1)"
      "api_keys (tables w1) = api_keys shop_db"
    using sample_create_world by blast
  have req: "PaymentCreate sample_ext (uuid_str 3) 500 ''EUR'' = Inr sample_request"
      "PaymentCreate sample_ext (uuid_str 3) 7 ''EUR'' = Inr (sample_request\<lparr>pr_amount_minor := 7\<rparr>)"
    by (simp_all add: PaymentCreate_def sample_request_def sample_currency)
  have keys: "caller sample_ext ?auth (tables shop_world) = Some ?p" "caller sample_ext ?auth (tables (run sample_ext [] w1)) = Some ?p"
    using w1(2) by (simp_all add: sample_caller shop_world_def run_def)
  have first: "serve sample_ext (Some (uuid_str 7)) ?auth (CreatePayment (Some ''order-1'') (uuid_str 3) 500 ''EUR'') shop_world =
      (Inr (201, payment_response (new_payment 101 1 sample_request PENDING 102 103)), w1)"
    by (rule serve_create [OF keys(1) _ req(1)]) (simp_all add: w1(1) merchant_scopes_def)
  have digits: "int_str 7 = ''7''" "int_str 500 = ''500''" by code_simp+
  have other: "canonical_fingerprint sample_ext (payment_request_dump (sample_request\<lparr>pr_amount_minor := 7\<rparr>)) \<noteq>
      canonical_fingerprint sample_ext (payment_request_dump sample_request)"
    by (simp add: canonical_fingerprint_def sample_ext_def sample_request_def payment_request_dump_def
        canonical_json_def enum_value_simps json_quote_def escape_char_def digits)
  have fits: "length (canonical_fingerprint sample_ext (payment_request_dump (sample_request\<lparr>pr_amount_minor := 7\<rparr>))) \<le> 64"
    by (simp add: canonical_fingerprint_def sample_ext_def)
  show ?thesis
    using idempotency_conflict [OF first keys(1) req(1) keys(2) refl _ _ req(2) other fits, of None]
    by (auto simp: run_def merchant_scopes_def correlation_ok_def)
qed

section \<open>A second funding\<close>

text \<open>The account and its customer stay.\<close>

definition account_of :: "uuid \<Rightarrow> account \<Rightarrow> customer \<Rightarrow> db \<Rightarrow> bool" where
  "account_of aid a c d \<longleftrightarrow>
     row_at a_id aid (accounts d) = Some a \<and> row_at c_id (a_customer_id a) (customers d) = Some c"

lemma account_of_append:
  "account_of aid a c d \<Longrightarrow> accounts d' = accounts d @ as \<Longrightarrow> customers d' = customers d @ cs \<Longrightarrow> account_of aid a c d'"
  by (simp add: account_of_def row_at_append)

interpretation account_rows: transaction_invariant ext "account_of aid a c" for ext aid a c
proof unfold_locales
  fix w :: world and m creq corr
  assume "account_of aid a c (tables w)"
  then show "wp (create_customer ext m creq corr) (\<lambda>_ v. account_of aid a c (tables v)) (\<lambda>_ _. True) w"
    by (intro wp_weaken [OF create_customer_rows]) (auto intro: account_of_append)
qed (rule wp_frame_keeps, rule frame_rules, simp add: account_of_def, assumption)+

text \<open>Once a journal references the funding of an account, funding it again breaks a unique constraint.\<close>

lemma ensure_ledger_account_ruleE:
  assumes "length name \<le> 80" and "length cur \<le> 3" and "length normal \<le> 6"
    and "\<And>account w'. journals (tables w') = journals (tables w) \<Longrightarrow> Q account w'"
    and "\<And>w'. E IntegrityError w'"
  shows "wp (ensure_ledger_account ext owner name cur normal) Q E w"
proof (cases "row_at la_key (owner, name, cur) (ledger_accounts (tables w))")
  case None
  then have free: "(owner, name, cur) \<notin> la_key ` set (ledger_accounts (tables w))"
    by (simp add: row_at_None_iff)
  then show ?thesis
    using assms(1-3)
    by (auto simp: ensure_ledger_account_def None fresh_id_def now_def wp_simps Let_def claim_row_def
        la_key_def ledger_account_integrity_ok_def ledger_account_data_ok_def varchar_def intro!: assms(4,5))
next
  case (Some account)
  then show ?thesis
    by (auto simp: ensure_ledger_account_def wp_simps intro!: assms(4))
qed

lemma journal_reference_taken:
  assumes "(rtype, rid) \<in> j_reference ` set (journals (tables w))" and "length rtype \<le> 50" and "length cur \<le> 3"
    and "\<And>w'. E IntegrityError w'"
  shows "wp (create_journal ext rtype rid cur names lines) Q E w"
proof -
  have "\<not> journal_integrity_ok (tables w) j" if "reference_type j = rtype" "reference_id j = rid" for j
    using assms(1) that by (simp add: journal_integrity_ok_def j_reference_def)
  then show ?thesis
    using assms(2,3)
    by (simp add: create_journal_def insert_journal_def insert_row_def fresh_id_def now_def wp_simps
        journal_data_ok_def varchar_def assms(4))
qed

lemma currency_value_length: "length (currency_value c) \<le> 3"
  by (cases c) (simp_all add: enum_value_simps)

lemma fund_account_again:
  assumes "account_of aid a c (tables w)" and "c_merchant_id c = mid" and "a_currency a = currency_value (fr_currency req)"
    and "0 < fr_amount_minor req" and "(''account_funding'', aid) \<in> j_reference ` set (journals (tables w))"
  shows "wp (fund_account ext mid aid req corr) (\<lambda>_ _. False) (\<lambda>e _. e = IntegrityError) w"
proof -
  have "a_id a = aid" using assms(1) by (auto simp: account_of_def dest: row_at_SomeD)
  then show ?thesis
    unfolding fund_account_def
    using assms currency_value_length [of "fr_currency req"]
    by (auto simp: wp_simps account_of_def not_owned_def Money_def line_builders
        intro!: ensure_ledger_account_ruleE journal_reference_taken)
qed

text \<open>What a funding leaves behind.\<close>

definition funded :: "uuid \<Rightarrow> uuid \<Rightarrow> currency \<Rightarrow> db \<Rightarrow> bool" where
  "funded mid aid k d \<longleftrightarrow>
     journaled_before (''account_funding'', aid) d \<and>
     (\<exists>a c. account_of aid a c d \<and> c_merchant_id c = mid \<and> a_currency a = currency_value k)"

lemma fund_account_funded:
  assumes "books_ok (tables w)"
  shows "wp (fund_account ext mid aid req corr)
    (\<lambda>_ v. funded mid aid (fr_currency req) (tables v)) (\<lambda>_ _. True) w"
proof (rule wp_with_frame [OF wp_and [OF fund_account_effect fund_account_books] frames_to_apart(5)])
  fix v :: world
  assume e: "fund_done mid aid req (tables w) (tables v) \<and> books_ok (tables v)"
    and "(apart (tables v), payments (tables v), refunds (tables v), outbox_events (tables v)) =
      (apart (tables w), payments (tables w), refunds (tables w), outbox_events (tables w))"
  then have same: "accounts (tables v) = accounts (tables w)" "customers (tables v) = customers (tables w)"
    by (simp_all add: apart_def)
  from e obtain a c where "account_of aid a c (tables w)" "c_merchant_id c = mid" "a_currency a = currency_value (fr_currency req)"
    unfolding fund_done_def account_of_def by blast
  moreover have "journaled_before (''account_funding'', aid) (tables v)"
    using e by (auto simp: fund_done_def journaled_def journaled_before_def)
  ultimately show "funded mid aid (fr_currency req) (tables v)"
    using same by (auto simp: funded_def account_of_def)
qed (use assms in auto)

lemma serve_funds:
  assumes "serve ext raw auth (FundAccount (uuid_str aid) n cur) w = (Inr b, w1)" and "books_ok (tables w)"
  obtains p k where "caller ext auth (tables w) = Some p" "funded (pl_merchant_id p) aid k (tables w1)" "cur = currency_value k"
proof -
  let ?Q = "\<lambda>b v. \<exists>p k. caller ext auth (tables w) = Some p \<and> funded (pl_merchant_id p) aid k (tables v) \<and>
    cur = currency_value k"
  have cur: "cur = currency_value (fr_currency req)" if "FundAccountRequest n cur = Inr req" for req
    using that by (auto simp: FundAccountRequest_def currency_of_Some split: option.splits if_splits)
  have "wp (fund_account_route ext corr auth (uuid_str aid) n cur) ?Q (\<lambda>_ _. True) v" if "tables v = tables w" for corr v
    unfolding fund_account_route_def path_uuid_str
    by (intro wp_caller wp_valid wp_transaction wp_weaken [OF fund_account_funded]) (use assms(2) that cur in auto)
  then have "wp (serve ext raw auth (FundAccount (uuid_str aid) n cur)) ?Q (\<lambda>_ _. True) w"
    by (intro wp_serve) (simp add: wp_status)
  with assms(1) have "?Q b w1" by (rule serve_result)
  then show thesis using that by blast
qed

lemma funded_run:
  assumes "funded mid aid k (tables w)"
  shows "funded mid aid k (tables (run ext as w))"
proof -
  obtain a c where ac: "account_of aid a c (tables w)" "c_merchant_id c = mid" "a_currency a = currency_value k"
    using assms unfolding funded_def by blast
  have "on_tables (account_of aid a c) (run ext as w)"
    unfolding run_def by (rule account_rows.machine.run_inv) (simp add: on_tables_def ac(1))
  moreover have "on_tables (journaled_before (''account_funding'', aid)) (run ext as w)"
    unfolding run_def by (rule journaled.machine.run_inv) (use assms in \<open>simp add: on_tables_def funded_def\<close>)
  ultimately show ?thesis using ac(2,3) by (auto simp: on_tables_def funded_def)
qed

text \<open>
  C25: an account can be funded once.  After a funding was answered with success, the same merchant's
  next \<open>POST\<close> to fund that account, with any positive amount and after any further requests and worker
  rounds, fails with the integrity error of the unique constraint on the journal's reference.  No handler
  catches it: the client gets status 500 instead of a business error, and no table changes.
\<close>

theorem account_funded_once:
  assumes "books_ok (tables w)"
    and "serve ext raw auth (FundAccount (uuid_str aid) n cur) w = (Inr b, w1)"
    and "caller ext auth (tables w) = Some p"
    and "caller ext auth' (tables (run ext' as w1)) = Some p'" and "pl_merchant_id p' = pl_merchant_id p"
    and "''payments:write'' \<in> set (pl_scopes p')" and "correlation_ok raw'" and "0 < n'"
  shows "\<exists>v. serve ext raw' auth' (FundAccount (uuid_str aid) n' cur) (run ext' as w1) = (Inl IntegrityError, v) \<and>
    http_status (fst (serve ext raw' auth' (FundAccount (uuid_str aid) n' cur) (run ext' as w1))) = 500 \<and>
    tables v = tables (run ext' as w1)"
proof -
  let ?v = "run ext' as w1"
  obtain q k where q: "caller ext auth (tables w) = Some q" "funded (pl_merchant_id q) aid k (tables w1)" "cur = currency_value k"
    by (rule serve_funds [OF assms(2,1)])
  then have "funded (pl_merchant_id p') aid k (tables ?v)" using funded_run assms(3,5) by simp
  then obtain a c where ac: "account_of aid a c (tables ?v)" "c_merchant_id c = pl_merchant_id p'" "a_currency a = currency_value k"
      "(''account_funding'', aid) \<in> j_reference ` set (journals (tables ?v))"
    unfolding funded_def journaled_before_def by blast
  let ?req = "\<lparr>fr_amount_minor = n', fr_currency = k\<rparr>"
  have req: "FundAccountRequest n' cur = Inr ?req"
    using assms(8) q(3) by (simp add: FundAccountRequest_def currency_codec.decode_encode)
  have fails: "wp (atomically (fund_account ext (pl_merchant_id p') aid ?req corr)) (\<lambda>_ _. False)
      (\<lambda>e v. e = IntegrityError \<and> tables v = tables u) u" if "tables u = tables ?v" for corr and u :: world
    by (rule wp_transaction_fails, rule fund_account_again) (use ac assms(8) that in auto)
  have "wp (route ext corr auth' (FundAccount (uuid_str aid) n' cur)) (\<lambda>_ _. False)
      (\<lambda>e u'. handle_exception corr e = IntegrityError \<and> tables u' = tables u) u" if "tables u = tables ?v" for corr u
    unfolding route.simps fund_account_route_def with_status_def
    using assms(4,6) that wp_mono [OF fails [OF that]]
    by (simp add: wp_bind wp_require_api_key require_scope_def wp_simps path_uuid_str req)
  then obtain e v where "serve ext raw' auth' (FundAccount (uuid_str aid) n' cur) ?v = (Inl e, v)"
      "e = IntegrityError" "tables v = tables ?v"
    by (rule_tac wp_serve_fails [OF assms(7), of ?v ext auth' "FundAccount (uuid_str aid) n' cur" "\<lambda>e. e = IntegrityError"]) auto
  then show ?thesis by simp
qed

lemma account_funded_once_witness:
  "\<exists>w1. http_status (fst (serve sample_ext None (Some ''Bearer fg_test_token'')
     (FundAccount (uuid_str 4) 5 ''EUR'') w1)) = 500"
proof -
  let ?auth = "Some ''Bearer fg_test_token''" and ?p = "\<lparr>pl_merchant_id = 1, pl_scopes = merchant_scopes\<rparr>"
  obtain w1 where w1: "serve sample_ext (Some (uuid_str 7)) ?auth (FundAccount (uuid_str 4) 1000 ''EUR'') unfunded_world =
      (Inr (201, JObj [(''journal_id'', JStr (uuid_str 100))]), w1)" and keys: "api_keys (tables w1) = api_keys shop_db"
  proof -
    let ?req = "\<lparr>fr_amount_minor = 1000, fr_currency = EUR\<rparr>"
    obtain w1 where w1: "atomically (fund_account sample_ext 1 4 ?req 7) unfunded_world =
        (Inr (JObj [(''journal_id'', JStr (uuid_str 100))]), w1)"
      using ran [OF sample_fund] ..
    have "wp (fund_account sample_ext 1 4 ?req 7) (\<lambda>_ v. api_keys (tables v) = api_keys shop_db) (\<lambda>_ _. True)
        (unfunded_world\<lparr>deferred := []\<rparr>)"
      by (rule wp_frame_keeps, rule frame_fund_account) (simp_all add: unfunded_world_def shop_world_def)
    then have "api_keys (tables w1) = api_keys shop_db" using w1 by (rule atomically_effect)
    moreover have "serve sample_ext (Some (uuid_str 7)) ?auth (FundAccount (uuid_str 4) 1000 ''EUR'') unfunded_world =
        (Inr (201, JObj [(''journal_id'', JStr (uuid_str 100))]), w1)"
    proof (rule serve_fund)
      show "caller sample_ext ?auth (tables unfunded_world) = Some ?p"
        by (simp add: sample_caller unfunded_world_def shop_world_def)
      show "FundAccountRequest 1000 ''EUR'' = Inr ?req" by (simp add: FundAccountRequest_def sample_currency)
    qed (simp_all add: w1 merchant_scopes_def)
    ultimately show thesis by (rule that [rotated])
  qed
  show ?thesis
    using account_funded_once [OF unfunded_books_ok w1, where p = ?p and p' = ?p and auth' = ?auth and ext' = sample_ext and as = "[]"
        and raw' = None and n' = 5]
    by (simp add: run_def sample_caller keys unfunded_world_def shop_world_def merchant_scopes_def correlation_ok_def) blast
qed

end
