(* ===== verification/RiskService.thy ===== *)
theory RiskService
  imports Risk Environment
begin

text \<open>
  \<open>services/risk_service/app/main.py\<close>: the risk engine behind HTTP.  The body is a JSON object whose
  values go through Python's \<open>int\<close>, \<open>str\<close> and \<open>bool\<close> before they reach \<open>evaluate_risk\<close>; an
  exception leaves the application (status 500).
\<close>

section \<open>Conversions\<close>

text \<open>\<open>int(text)\<close> in base 10: blanks around, a sign, digits with single underscores between them.\<close>

fun digits_ok :: "string \<Rightarrow> bool" where
  "digits_ok [] = False"
| "digits_ok [c] = is_decimal c"
| "digits_ok (c # d # s) = (is_decimal c \<and> (if d = CHR ''_'' then digits_ok s else digits_ok (d # s)))"

definition decimal_value :: "string \<Rightarrow> int" where
  "decimal_value s = foldl (\<lambda>n c. 10 * n + (of_char c - 48)) 0 (filter is_decimal s)"

text \<open>\<open>sys.int_info.default_max_str_digits\<close>.\<close>

definition max_str_digits :: nat where
  "max_str_digits = 4300"

definition int_of_text :: "string \<Rightarrow> exn + int" where
  "int_of_text text =
     (let s = int_strip text;
          negative = startswith ''-'' s;
          body = (if negative \<or> startswith ''+'' s then tl s else s) in
      if digits_ok body \<and> length (filter is_decimal body) \<le> max_str_digits
      then Inr (if negative then - decimal_value body else decimal_value body)
      else Inl (ValueError ''invalid literal for int() with base 10''))"

text \<open>\<open>int(x)\<close> and \<open>bool(x)\<close> of a decoded JSON value; \<open>int\<close> of a float truncates towards zero.\<close>

fun py_int :: "json \<Rightarrow> exn + int" where
  "py_int (JInt i) = Inr i"
| "py_int (JBool b) = Inr (if b then 1 else 0)"
| "py_int (JFloat x) = Inr (if 0 \<le> x then \<lfloor>x\<rfloor> else \<lceil>x\<rceil>)"
| "py_int (JStr s) = int_of_text s"
| "py_int _ = Inl TypeError"

fun py_bool :: "json \<Rightarrow> bool" where
  "py_bool JNull = False"
| "py_bool (JBool b) = b"
| "py_bool (JInt i) = (i \<noteq> 0)"
| "py_bool (JFloat x) = (x \<noteq> 0)"
| "py_bool (JStr s) = (s \<noteq> [])"
| "py_bool (JList xs) = (xs \<noteq> [])"
| "py_bool (JObj kvs) = (kvs \<noteq> [])"

text \<open>\<open>payload[k]\<close> and \<open>payload.get(k, default)\<close>.\<close>

definition item :: "string \<Rightarrow> (string \<times> json) list \<Rightarrow> exn + json" where
  "item k payload = (case dict_get k payload of None \<Rightarrow> Inl (KeyError k) | Some v \<Rightarrow> Inr v)"

definition item_or :: "string \<Rightarrow> json \<Rightarrow> (string \<times> json) list \<Rightarrow> json" where
  "item_or k d payload = (case dict_get k payload of None \<Rightarrow> d | Some v \<Rightarrow> v)"

section \<open>The endpoint\<close>

definition evaluate :: "ext \<Rightarrow> (string \<times> json) list \<Rightarrow> exn + risk_result" where
  "evaluate ext payload =
     bind_sum (bind_sum (item ''amount_minor'' payload) py_int) (\<lambda>amount_minor.
     bind_sum (item ''currency'' payload) (\<lambda>c.
     bind_sum (py_int (item_or ''merchant_risk_level'' (JInt 1) payload)) (\<lambda>level.
     bind_sum (py_int (item_or ''velocity_count'' (JInt 0) payload)) (\<lambda>velocity.
     evaluate_risk amount_minor (json_str ext c) level velocity
       (py_bool (item_or ''country_mismatch'' (JBool False) payload))))))"

definition live :: "(string \<times> json) list" where
  "live = [(''status'', JStr ''live'')]"

section \<open>Facts\<close>

text \<open>The text of an integer is read back as that integer.\<close>

lemma digits_ok_decimal: "s \<noteq> [] \<Longrightarrow> list_all is_decimal s \<Longrightarrow> digits_ok s"
proof (induction s rule: digits_ok.induct)
  case (3 c d s)
  then show ?case by (cases "d = CHR ''_''") (auto simp: is_decimal_def)
qed simp_all

lemma decimal_value_append:
  "decimal_value (s @ [c]) = (if is_decimal c then 10 * decimal_value s + (of_char c - 48) else decimal_value s)"
  by (simp add: decimal_value_def)

lemma digit_value: "n < 10 \<Longrightarrow> (of_char (digit_char n) :: int) - 48 = int n"
proof -
  have "list_all (\<lambda>n. (of_char (digit_char n) :: int) - 48 = int n) [0..<10]" by code_simp
  then show "n < 10 \<Longrightarrow> ?thesis" by (simp add: list_all_iff)
qed

lemma decimal_value_nat_str: "decimal_value (nat_str n) = int n"
proof (induction n rule: nat_str.induct)
  case (1 n)
  have small: "decimal_value [digit_char m] = int m" if "m < 10" for m
    using digit_value [OF that] digit_char_decimal [OF that] by (simp add: decimal_value_def)
  show ?case
  proof (cases "n < 10")
    case True
    then show ?thesis using small [OF True] by (subst nat_str.simps) simp
  next
    case False
    have "decimal_value (nat_str n) = 10 * int (n div 10) + int (n mod 10)"
      using 1 False digit_value [of "n mod 10"] digit_char_decimal [of "n mod 10"]
      by (subst nat_str.simps) (simp add: decimal_value_append)
    also have "\<dots> = int (10 * (n div 10) + n mod 10)" by (simp only: of_nat_add of_nat_mult of_nat_numeral)
    also have "\<dots> = int n" by (simp only: mult_div_mod_eq)
    finally show ?thesis .
  qed
qed

lemma int_of_text_int_str:
  assumes "length (int_str i) \<le> max_str_digits"
  shows "int_of_text (int_str i) = Inr i"
proof -
  let ?d = "nat_str (nat \<bar>i\<bar>)"
  have ne: "?d \<noteq> []" by (subst nat_str.simps) simp
  have dec: "list_all is_decimal ?d" using nat_str_decimal by (auto simp: list_all_iff)
  then have ok: "digits_ok ?d" "filter is_decimal ?d = ?d"
    using ne digits_ok_decimal by (auto simp: list_all_iff filter_id_conv)
  have ends: "is_decimal (hd ?d)" "is_decimal (last ?d)" using ne dec by (auto simp: list_all_iff)
  have blank: "\<not> is_int_space c" if "is_decimal c \<or> c = CHR ''-''" for c
    using that by (auto simp: is_decimal_def is_int_space_def)
  have shape: "int_str i = (if i < 0 then CHR ''-'' # ?d else ?d)"
    by (simp add: int_str_def)
  have strip: "int_strip (int_str i) = int_str i"
    unfolding int_strip_def shape
    by (rule strip_chars_id, cases "i < 0")
      (use blank [of "hd ?d"] blank [of "last ?d"] blank [of "CHR ''-''"] ends ne in simp_all)
  have sign: "\<not> startswith ''-'' ?d" "\<not> startswith ''+'' ?d"
    using ends ne by (cases ?d; auto simp: startswith_def is_decimal_def)+
  have "length ?d \<le> max_str_digits" using assms by (auto simp: shape split: if_splits)
  then show ?thesis
    using strip sign ok by (auto simp: int_of_text_def Let_def shape startswith_def decimal_value_nat_str)
qed

text \<open>
  The endpoint computes what the payment service computes.  An amount may come as a JSON integer or
  as its text (up to Python's limit on the digits), and the optional fields have the defaults of
  \<open>evaluate_risk\<close>.
\<close>

theorem risk_endpoint_agrees:
  assumes "x = JInt a \<or> x = JStr (int_str a) \<and> length (int_str a) \<le> 4300"
  shows "evaluate ext [(''amount_minor'', x), (''currency'', JStr c)] = evaluate_risk a c 1 0 False \<and>
    evaluate ext [(''amount_minor'', x), (''currency'', JStr c), (''merchant_risk_level'', JInt l),
      (''velocity_count'', JInt v), (''country_mismatch'', JBool m)] = evaluate_risk a c l v m"
proof -
  have "py_int x = Inr a" using assms int_of_text_int_str by (auto simp: max_str_digits_def)
  then show ?thesis by (simp add: evaluate_def item_def item_or_def)
qed

lemma risk_endpoint_agrees_witness:
  "\<forall>ext. evaluate ext [(''amount_minor'', JStr (int_str 500)), (''currency'', JStr ''EUR'')] =
     evaluate_risk 500 ''EUR'' 1 0 False"
proof -
  have "length (int_str 500) = 3" by code_simp
  then show ?thesis using risk_endpoint_agrees [of "JStr (int_str 500)" 500 _ "''EUR''"] by simp
qed

text \<open>
  C40: the risk score is monotone: a higher amount, risk level or velocity, or a country mismatch on top,
  never lowers the score or the decision; scores are between 0 and 1.  The bound on the counts is the
  range in which Python converts them to a double.
\<close>

theorem risk_monotone:
  assumes "0 \<le> l" and "l \<le> l'" and "l' < 2 ^ 1023" and "0 \<le> v" and "v \<le> v'" and "v' < 2 ^ 1023"
    and "a \<le> a'" and "m \<longrightarrow> m'"
  shows "\<exists>r r'. evaluate_risk a c l v m = Inr r \<and> evaluate_risk a' c l' v' m' = Inr r' \<and>
    score r \<le> score r' \<and> decision r \<le> decision r' \<and> 0 \<le> score r \<and> score r' \<le> 1"
proof -
  let ?base = "\<lambda>l v. fadd (fmul (fl (of_int l)) f_008) (fmul (fl (of_int v)) f_005)"
  let ?s = "risk_score (?base l v) a c m" and ?s' = "risk_score (?base l' v') a' c m'"
  have range: "n < 2 ^ 1024 - 2 ^ 970" if "n < 2 ^ 1023" for n :: int using that by simp
  have pos: "0 \<le> l'" "0 \<le> v'" using assms by auto
  have base: "0 \<le> ?base l v" "?base l v \<le> ?base l' v'" "0 \<le> ?base l' v'"
    using assms pos by (auto intro!: risk_base_nonneg risk_base_mono fl_nonneg fl_mono)
  have le: "?s \<le> ?s'"
    using assms(7,8) pos base
    by (intro risk_score_mono [where z = "fmul (fl (of_int l')) f_008 + fmul (fl (of_int v')) f_005"])
      (auto simp: fadd_def intro!: add_nonneg_nonneg fmul_nonneg fl_nonneg risk_literals_nonneg)
  have "evaluate_risk a c l v m = Inr \<lparr>score = round2 ?s, decision = decide ?s, reasons = risk_reasons a c v m\<rparr>"
    "evaluate_risk a' c l' v' m' = Inr \<lparr>score = round2 ?s', decision = decide ?s', reasons = risk_reasons a' c v' m'\<rparr>"
    using evaluate_risk_Inr [of l v a c m] evaluate_risk_Inr [of l' v' a' c m'] assms pos range
    by (simp_all add: Let_def)
  then show ?thesis
    using le risk_score_unit [OF base(1), of a c m] risk_score_unit [OF base(3), of a' c m'] round2_mono round2_unit
      decide_mono by auto
qed

lemma risk_monotone_witness:
  "\<exists>r r'. evaluate_risk 500 ''EUR'' 1 0 False = Inr r \<and> evaluate_risk 200000 ''EUR'' 5 7 True = Inr r' \<and>
    score r \<le> score r' \<and> decision r \<le> decision r'"
  using risk_monotone [of 1 5 0 7 500 200000 False True "''EUR''"] by auto

end
