(* ===== verification/Support.thy ===== *)
theory Support
  imports Security "HOL-Library.Multiset"
begin

text \<open>
  Two small parts beside the services: the value object \<open>IdempotencyRequest\<close> of
  \<open>domain/idempotency.py\<close>, and the formatter of log records in
  \<open>libs/observability/forgepay_observability/logging.py\<close>.
\<close>

section \<open>Idempotency requests\<close>

record idempotency_request =
  ir_key :: string
  ir_payload :: "(string \<times> json) list"

definition fingerprint :: "ext \<Rightarrow> idempotency_request \<Rightarrow> string" where
  "fingerprint ext self = canonical_fingerprint ext (JObj (ir_payload self))"

text \<open>The order in which a client writes the fields of a payload does not matter.\<close>

lemma sort_key_fst_cong:
  assumes "mset xs = mset ys" and "distinct (map fst xs)"
  shows "sort_key fst xs = sort_key fst ys"
proof (rule sort_key_inj_key_eq)
  show "mset xs = mset (sort_key fst ys)" using assms(1) by simp
  show "inj_on fst (set xs)" using assms(2) by (simp add: distinct_map)
  show "sorted (map fst (sort_key fst ys))" by simp
qed

lemma fingerprint_key_order:
  assumes "mset (ir_payload a) = mset (ir_payload b)" and "distinct (map fst (ir_payload a))"
  shows "fingerprint ext a = fingerprint ext b"
proof -
  let ?f = "\<lambda>(k, v). (k, sort_keys v)"
  have "sort_key fst (map ?f (ir_payload a)) = sort_key fst (map ?f (ir_payload b))"
  proof (rule sort_key_fst_cong)
    show "mset (map ?f (ir_payload a)) = mset (map ?f (ir_payload b))" using assms(1) by simp
    have keys: "map fst (map ?f xs) = map fst xs" for xs :: "(string \<times> json) list" by (induction xs) auto
    show "distinct (map fst (map ?f (ir_payload a)))" unfolding keys by (rule assms(2))
  qed
  then show ?thesis by (simp add: fingerprint_def canonical_fingerprint_def canonical_json_def)
qed

section \<open>Log records\<close>

text \<open>
  A \<open>logging.LogRecord\<close>; \<open>lr_attributes\<close> are its further attributes, with the values that \<open>json.dumps\<close>
  does not know already turned into text by \<open>default=str\<close>.
\<close>

record log_record =
  levelname :: string
  logger_name :: string
  lr_message :: string
  lr_attributes :: "(string \<times> json) list"

fun present :: "string list \<Rightarrow> (string \<times> json) list \<Rightarrow> (string \<times> json) list" where
  "present [] attrs = []"
| "present (k # ks) attrs =
     (case dict_get k attrs of None \<Rightarrow> present ks attrs | Some v \<Rightarrow> (k, v) # present ks attrs)"

definition log_payload :: "log_record \<Rightarrow> (string \<times> json) list" where
  "log_payload r =
     [(''level'', JStr (levelname r)), (''logger'', JStr (logger_name r)), (''message'', JStr (lr_message r))] @
     present [''correlation_id'', ''trace_id'', ''span_id''] (lr_attributes r)"

definition format_record :: "ext \<Rightarrow> log_record \<Rightarrow> string" where
  "format_record ext r = default_json (float_repr ext) (JObj (log_payload r))"

text \<open>A log line has the three fixed fields, and a tracing field exactly when the record has it.\<close>

lemma dict_get_present: "dict_get k (present ks attrs) = (if k \<in> set ks then dict_get k attrs else None)"
  by (induction ks) (auto split: option.split)

lemma log_payload_fields:
  "dict_get ''level'' (log_payload r) = Some (JStr (levelname r))"
  "dict_get ''message'' (log_payload r) = Some (JStr (lr_message r))"
  "k \<in> {''correlation_id'', ''trace_id'', ''span_id''} \<Longrightarrow>
     dict_get k (log_payload r) = dict_get k (lr_attributes r)"
  by (auto simp: log_payload_def dict_get_present simp del: present.simps)

end
