(* ===== verification/Spec2Isabelle.thy ===== *)
theory Spec2Isabelle
  imports Demo Wallet Responses Refusals RiskService Support
begin

text \<open>
  A verification library for ForgePay, a payment platform: a payment service with a double-entry
  ledger, a transactional outbox and webhooks, its workers, a risk service and a demo webhook receiver.

  \<^bold>\<open>The program and its parts.\<close>  Merchants call the HTTP API
  (\<open>services/payment_service/app/main.py\<close>, \<open>api/\<close>) with an API key.  A route validates the request,
  checks the scope of the key and runs one function of \<open>service.py\<close> in one database transaction; the
  functions share the repository (\<open>infra/repositories.py\<close>), the domain rules (\<open>domain/\<close>) and the
  libraries (\<open>libs/\<close>).  The database (\<open>infra/models.py\<close>, \<open>alembic/versions/\<close>) has constraints of its own
  and triggers that guard posted journals.  Each business operation writes one event to the outbox in
  its transaction; the outbox publisher sends the events to Kafka, the event consumer turns each into
  webhook deliveries through an inbox, and the webhook dispatcher signs and posts them to the merchants
  (\<open>workers/\<close>); a reconciliation job compares payments and ledger.

  \<^bold>\<open>How the code is modelled.\<close>  A computation is a function from the state to an exception or a value,
  and the new state (\<open>op\<close>, theory Prelude); \<open>bind_op\<close> sequences, \<open>catch_op\<close> is \<open>try\<close>, \<open>atomically\<close> is
  \<open>async with session.begin()\<close>: commit with the deferred triggers, or roll back.  The state is a \<open>world\<close>
  (theory Schema): the tables as lists of records in insertion order, the queue of deferred trigger
  checks, the number of values drawn from the environment, the metrics, and what was sent to the topic
  and to the merchants, which no rollback takes back.  Statements check column types, then constraints,
  then write.  Exceptions are the constructors of \<open>exn\<close> (theory Environment), answered as in
  \<open>http_status\<close>.  A \<open>run\<close> is any sequence of requests and worker rounds from the empty database.

  What is not in the repository is a field of the environment \<open>ext\<close> (theory Environment): random
  identifiers, the clock, SHA-256, HMAC, Fernet, float printing, pydantic's e-mail and URL types and its
  reading of UUIDs that are not in the canonical text form, the order in which PostgreSQL returns rows
  without ORDER BY, the parsing of an event.  Theorems hold for every environment; where one needs a property of it, it is a
  premise (\<open>ascii_digests\<close>, \<open>readable\<close>), and a witness has a concrete environment.  Identifiers are
  128-bit words, Python integers are \<open>int\<close> with the range of the column checked on write, floats are
  rationals with IEEE 754 rounding written out (theory PyFloat), strings are character lists.

  \<^bold>\<open>Theories, in the order of the imports.\<close>
  \<^item> Prelude: the operations and their weakest preconditions, rows of a table, sums over rows, and the
    interfaces: \<open>claim_once\<close> (an insert on conflict do nothing), \<open>codec\<close>, \<open>invariant_machine\<close>,
    \<open>progress_machine\<close>.  PyText, Json: text, \<open>int()\<close>, UUIDs, \<open>json.dumps\<close>.
  \<^item> Enums, Environment, Schema, LedgerTables: enumerations, events, tables, constraints, statements, and
    the ledger triggers of the second migration against arbitrary SQL transactions.
  \<^item> Money (\<open>money.py\<close>, \<open>domain/ledger.py\<close>), Security (\<open>libs/security\<close>), Repositories
    (\<open>infra/repositories.py\<close>), LedgerBook (what a posting does to the ledger), Requests
    (\<open>api/schemas.py\<close>), Lifecycle (\<open>domain/payment.py\<close>), PyFloat, Risk (\<open>domain/risk.py\<close>), Support
    (\<open>domain/idempotency.py\<close>, \<open>logging.py\<close>).
  \<^item> PaymentService, WebhookService (\<open>service.py\<close>), Api (\<open>main.py\<close>, \<open>auth.py\<close>, \<open>errors.py\<close>), Workers
    (\<open>workers/\<close>), Receiver (\<open>services/webhook_receiver_demo\<close>), RiskService (\<open>services/risk_service\<close>).
  \<^item> Books, PaymentProofs, System: the invariant \<open>books_ok\<close> of the money tables, that every transaction
    keeps it, and the locales \<open>request_invariant\<close> and \<open>transaction_invariant\<close>: a predicate that every
    transaction keeps is kept by every request, action and run.  Every table invariant below is an
    interpretation of one of them.
  \<^item> Frames, Samples: which tables an operation leaves alone; a concrete shop for the witnesses.
  \<^item> Idempotency, Effects, History: the idempotency records; what each payment operation does when it
    returns; what no later action can undo.
  \<^item> Transport, Outbox, Deliveries, Secrets, EndToEnd: inbox and fan-out, the outbox and the publisher, the
    life of a delivery as a step relation, the signing secrets, dispatcher and receiver together.
  \<^item> Access, RequestSteps, Postings, Tenants, LedgerTypes, Integrity, ReadBack, Wallet: authentication and
    failed requests; the locale \<open>request_step\<close> (what a transaction does bounds what a request does); the
    ledger accounts each operation posts to; the isolation of the merchants; what every journal stands
    for; the schema as an invariant; reading back a payment; the abstract specification.
  \<^item> Serving, Refusals, Responses: from a transaction to the answer of \<open>serve\<close>; the answers to a second
    payload under one idempotency key and to a second funding; the response models of \<open>api/schemas.py\<close>
    and what each successful answer says of the database.
  \<^item> Totality, Outcomes: the locale \<open>decided_transaction\<close> (the outcome of a transaction follows from the
    tables it starts from) and the five payment operations as interpretations of it: when each returns,
    and which error it raises otherwise.  Demo: \<open>scripts/demo.py\<close> as a client of \<open>serve\<close>.

  \<^bold>\<open>What the lemmas show.\<close>  Money: payments, refunds, ledger and balances agree after any run, no
  balance is negative, every journal is posted, balanced and books the event it references, the reconciliation has nothing to report,
  and each operation moves exactly its amount.  Each operation on a payment returns exactly when its
  guards hold and raises their error otherwise, unless \<open>uuid4\<close> repeats itself (\<open>fresh_ids\<close>: the next
  draws, at most seventeen, are new), and a client that follows the demonstration script, with no
  other action between its requests, gets all its answers.  \<open>wallet_step\<close> is the specification of all of it, and the
  service refines it action by action.  Requests: authentication, scopes, atomicity, idempotency for
  ever, tenant isolation, the truth of the answers.  Events: at-least-once publishing, exactly one
  processing, bounded retries, versions of secrets, authentic webhooks.  Some theorems show where the
  code falls short: an event without payment id stops the consumer, an account can be funded once, an
  entry can be moved out of a posted journal.

  \<^bold>\<open>Bounds.\<close>  No definition uses fuel: loops over rows are structural recursions, and the endless
  loops of the workers are the sequence of actions of a run.  The publisher takes a hundred events in
  a round, which the drain theorem counts; a delivery has \<open>webhook_max_attempts\<close> attempts, which
  \<open>attempt_uses_budget\<close> counts down.

  \<^bold>\<open>JSON columns.\<close>  A value written to a JSON or JSONB column is read back unchanged: that PostgreSQL
  reorders the keys of a JSONB object and refuses the character U+0000 is not modelled, so what is sent
  on from such a column is right as a JSON value, not as a text.

  \<^bold>\<open>Not modelled.\<close>  Concurrent transactions: actions are executed one after the other, so row locks
  (\<open>with_for_update\<close>, \<open>skip_locked\<close>) and serialisation failures have no place in the model.  The
  network apart from its outcomes, timeouts, process start and shutdown, health and metrics endpoints,
  histograms, settings and engine set-up (their values are fields of \<open>ext\<close>), the report file of the
  reconciliation, downgrades and the one-time backfill of the migrations, the stubs of the ledger and
  webhook services, the load-test and failure scripts, and tests.
\<close>

section \<open>Money and the ledger after any run\<close>

text \<open>
  C1: whatever requests and worker rounds the system executes from an empty database, every payment
  has amounts that fit its status: nothing captured before capture, everything captured from then
  on, and a refunded part that is zero, partial or total as the status says.
\<close>

theorem payments_consistent: "list_all payment_ok (payments (tables (run ext as initial_world)))"
  using run_books_ok [of ext as] by (simp add: books_ok_def list_all_iff)

text \<open>
  C2: after any run the ledger agrees with the payments: the credits of a payment's capture journal
  add up to its captured amount, and its refund rows to its refunded amount.
\<close>

theorem ledger_agrees_with_payments:
  "list_all (payment_agrees (tables (run ext as initial_world))) (payments (tables (run ext as initial_world)))"
  using run_books_ok [of ext as] by (simp add: books_ok_def list_all_iff)

text \<open>C3: after any run no customer's balance is negative, in any currency.\<close>

theorem customer_balance_never_negative:
  "0 \<le> available_balance (tables (run ext as initial_world)) owner cur"
  using run_books_ok [of ext as] by (simp add: books_ok_def cash_nonnegative_def)

text \<open>
  C4: after any run every journal is posted, and its entries are in its currency, are not empty, and
  have equal debits and credits.
\<close>

theorem journals_posted_and_balanced:
  "list_all (\<lambda>j. j_status j = ''POSTED'' \<and> journal_balanced (tables (run ext as initial_world)) j)
     (journals (tables (run ext as initial_world)))"
  using run_books_ok [of ext as]
  by (simp add: books_ok_def book_ok_def ledger_tables_ok_def posted_balanced_def list_all_iff)

text \<open>
  Every refund row has a journal of its own whose credits are the refunded amount.
\<close>

theorem refunds_have_journals:
  "list_all (refund_agrees (tables (run ext as initial_world))) (refunds (tables (run ext as initial_world)))"
  using run_books_ok [of ext as] by (simp add: books_ok_def list_all_iff)

text \<open>C5: the reconciliation of any reachable database reports no finding.\<close>

theorem reconciliation_finds_nothing: "reconcile_once (tables (run ext as initial_world)) = []"
proof -
  have "reconcile_payment (tables (run ext as initial_world)) p = []"
    if "p \<in> set (payments (tables (run ext as initial_world)))" for p
    using run_books_ok [of ext as] that
    by (simp add: reconcile_payment_def Let_def books_ok_def payment_agrees_def)
  then show ?thesis by (simp add: reconcile_once_def)
qed

section \<open>Money\<close>

text \<open>What a ledger line and a journal entry say of the movement: direction, amount, currency.\<close>

definition line_view :: "ledger_line \<Rightarrow> string \<times> int \<times> string" where
  "line_view l = (direction l, amount_minor (line_money l), currency_value (money_currency (line_money l)))"

definition entry_view :: "journal_entry \<Rightarrow> string \<times> int \<times> string" where
  "entry_view e = (e_direction e, e_amount_minor e, e_currency e)"

definition proper_line :: "ledger_line \<Rightarrow> bool" where
  "proper_line l \<longleftrightarrow> 0 < amount_minor (line_money l) \<and> direction l \<in> {''DEBIT'', ''CREDIT''}"

lemma direction_sum_view:
  "direction_sum dir ls = sum_where (\<lambda>(x, n, c). x = dir) (\<lambda>(x, n, c). n) (map line_view ls)"
  by (induction ls) (auto simp: direction_sum_def line_view_def)

lemma entry_total_view:
  "entry_total d j dir = sum_where (\<lambda>(x, n, c). x = dir) (\<lambda>(x, n, c). n) (map entry_view (entries_of d j))"
proof -
  have "sum_where (\<lambda>e. e_journal_id e = j \<and> e_direction e = dir) e_amount_minor es =
      sum_where (\<lambda>(x, n, c). x = dir) (\<lambda>(x, n, c). n) (map entry_view (filter (\<lambda>e. e_journal_id e = j) es))" for es
    by (induction es) (auto simp: entry_view_def)
  then show ?thesis by (simp add: entry_total_def entries_of_def)
qed

lemma direction_sum_nonneg: "list_all proper_line ls \<Longrightarrow> 0 \<le> direction_sum dir ls"
  unfolding direction_sum_def by (rule sum_where_nonneg) (auto simp: list_all_iff proper_line_def)

lemma direction_sum_pos:
  "list_all proper_line ls \<Longrightarrow> l \<in> set ls \<Longrightarrow> direction l = dir \<Longrightarrow> 0 < direction_sum dir ls"
proof (induction ls)
  case Nil
  then show ?case by simp
next
  case (Cons k ls)
  have "0 \<le> direction_sum dir ls" using Cons.prems(1) by (intro direction_sum_nonneg) simp
  then show ?case using Cons by (auto simp: direction_sum_def proper_line_def)
qed

text \<open>
  C11: two checks of the same rule agree.  For the entries of a posted journal written from proper
  ledger lines, the database trigger accepts the journal exactly when the domain's
  \<open>assert_balanced\<close> accepts the lines and they are in the journal's currency.
\<close>

theorem trigger_agrees_with_assert_balanced:
  assumes "map entry_view (entries_of d (j_id j)) = map line_view ls" and "list_all proper_line ls"
    and "j_status j = ''POSTED''"
  shows "enforce_posted_journal_balances d j = Inr () \<longleftrightarrow>
     assert_balanced ls = Inr () \<and>
     list_all (\<lambda>l. currency_value (money_currency (line_money l)) = j_currency j) ls"
proof -
  have tot: "entry_total d (j_id j) dir = direction_sum dir ls" for dir
    by (simp add: entry_total_view direction_sum_view assms(1))
  have "map e_currency (entries_of d (j_id j)) = map (\<lambda>l. currency_value (money_currency (line_money l))) ls"
    using arg_cong [where f = "map (\<lambda>(x, n, c). c)", OF assms(1)]
    by (simp add: comp_def entry_view_def line_view_def case_prod_beta)
  then have cur: "(\<forall>e \<in> set (entries_of d (j_id j)). e_currency e = c) \<longleftrightarrow>
      list_all (\<lambda>l. currency_value (money_currency (line_money l)) = c) ls" for c
    unfolding list_all_iff by (metis (no_types, lifting) imageE image_eqI list.set_map)
  have two: "2 \<le> length ls" if "direction_sum ''DEBIT'' ls = direction_sum ''CREDIT'' ls" "direction_sum ''DEBIT'' ls \<noteq> 0"
  proof (rule ccontr)
    assume "\<not> 2 \<le> length ls"
    then have "length ls = 0 \<or> length ls = Suc 0" by linarith
    then show False using that assms(2)
      by (auto simp: length_Suc_conv direction_sum_def proper_line_def split: if_splits)
  qed
  have nonzero: "direction_sum ''DEBIT'' ls \<noteq> 0"
    if "2 \<le> length ls" "direction_sum ''DEBIT'' ls = direction_sum ''CREDIT'' ls"
  proof -
    have "ls \<noteq> []" using that(1) by auto
    then obtain l where l: "l \<in> set ls" by (cases ls) auto
    then have "direction l \<in> {''DEBIT'', ''CREDIT''}" using assms(2) by (auto simp: list_all_iff proper_line_def)
    then show ?thesis using direction_sum_pos [OF assms(2) l] that(2) by auto
  qed
  have same: "\<exists>c. \<forall>l \<in> set ls. money_currency (line_money l) = c"
    if all: "list_all (\<lambda>l. currency_value (money_currency (line_money l)) = j_currency j) ls"
  proof (cases ls)
    case (Cons l ls')
    have "money_currency (line_money k) = money_currency (line_money l)" if "k \<in> set ls" for k
    proof -
      have "currency_value (money_currency (line_money k)) = currency_value (money_currency (line_money l))"
        using all that Cons by (auto simp: list_all_iff)
      then show ?thesis by simp
    qed
    then show ?thesis by blast
  qed simp
  show ?thesis
    using two nonzero same assms(3)
    by (auto simp: enforce_Inr journal_balanced_def tot cur assert_balanced_ok_iff)
qed

lemma trigger_agrees_with_assert_balanced_witness:
  "enforce_posted_journal_balances sample_ledger (hd (journals sample_ledger)) = Inr ()"
  using trigger_agrees_with_assert_balanced [of sample_ledger "hd (journals sample_ledger)"
      "[\<lparr>line_account = ''a'', direction = ''DEBIT'', line_money = \<lparr>amount_minor = 5, money_currency = EUR\<rparr>\<rparr>,
        \<lparr>line_account = ''b'', direction = ''CREDIT'', line_money = \<lparr>amount_minor = 5, money_currency = EUR\<rparr>\<rparr>]"]
  by (simp add: sample_ledger_def entries_of_def entry_view_def line_view_def proper_line_def
      enum_value_simps assert_balanced_def direction_sum_def)

text \<open>
  Subtraction of money is exact and partial: where it succeeds the minuend was strictly larger
  (a difference of zero is not a valid \<open>Money\<close> either), and adding the subtrahend back gives the
  minuend.
\<close>

theorem money_sub_then_add:
  assumes "money_sub a b = Inr m" and "0 < amount_minor a"
  shows "amount_minor b < amount_minor a \<and> 0 < amount_minor m \<and> money_add m b = Inr a"
  using assms by (cases a; cases b) (auto simp: money_sub_ok_iff money_add_ok_iff)

lemma money_sub_then_add_witness:
  "money_add \<lparr>amount_minor = 3, money_currency = EUR\<rparr> \<lparr>amount_minor = 2, money_currency = EUR\<rparr> =
     Inr \<lparr>amount_minor = 5, money_currency = EUR\<rparr>"
  using money_sub_then_add [of "\<lparr>amount_minor = 5, money_currency = EUR\<rparr>"
      "\<lparr>amount_minor = 2, money_currency = EUR\<rparr>" "\<lparr>amount_minor = 3, money_currency = EUR\<rparr>"]
  by (simp add: money_sub_ok_iff)

end
